theory Spec2Isabelle
  imports Complex_Main "HOL-Library.AList" "HOL-Library.Sublist" "HOL-Library.Monad_Syntax"
begin

section \<open>The data model of App.tsx\<close>

text \<open>
  The game keeps its whole state in React state cells of the component \<open>App\<close>; the
  simulation is the body of the effect that runs once per value of the cell \<open>tick\<close>.
  JavaScript numbers are modelled as \<open>int\<close> where the program only ever stores
  integers in them (levels, health, damage, cooldown counters, the tick counter) and as
  \<open>real\<close> for coordinates, speeds, radii, ranges and angles: doubles are idealised as
  real numbers, so rounding is not part of the model.
\<close>

record CurrentMax =
  current :: int
  maximum :: int

record Attack =
  a_damage :: int
  a_cooldown :: CurrentMax
  a_range :: real
  a_radius :: real
  projectileSpeed :: real

record Stats =
  level :: int
  health :: CurrentMax
  speed :: real
  radius :: real
  attack :: Attack

datatype Face = FaceLeft | FaceRight

record Entity =
  uuid :: string
  name :: string
  stats :: Stats
  e_x :: real
  e_y :: real
  face :: Face

text \<open>
  The field \<open>entityHitCooldown\<close> of a projectile is a plain object used as a dictionary
  from the uuid of an enemy to a counter. The uuids are results of \<open>uuidv4\<close>, none of
  which is the name of a property that a plain object inherits, so a read of a missing
  key is \<open>undefined\<close> and the object is a map.
\<close>

record Projectile =
  p_uuid :: string
  caster :: string
  startX :: real
  startY :: real
  p_x :: real
  p_y :: real
  p_damage :: int
  angle :: real
  p_speed :: real
  p_radius :: real
  p_range :: real
  isPiercing :: bool
  entityHitCooldown :: "string \<rightharpoonup> int"

datatype ItemType = Xp | Health | Item | Coin

text \<open>
  The field \<open>value\<close> of a ground item has the type \<open>string | number\<close>; every ground
  item the program creates (lines 404 and 407) carries a number, and the tick casts the
  field to a number, so it is an \<open>int\<close> here.
\<close>

record GroundItem =
  g_uuid :: string
  g_type :: ItemType
  g_value :: int
  g_x :: real
  g_y :: real

datatype Rarity = Common | Rare | Unique

record Upgrade =
  u_id :: string
  u_name :: string
  description :: string
  rarity :: Rarity
  maxLevel :: "int option"
  u_values :: "(string \<times> int) list option"

text \<open>
  The state cells of \<open>App\<close>. The cell \<open>upgrades\<close> is a JavaScript object used as a
  dictionary; \<open>Object.entries\<close> walks it in insertion order, so it is an association
  list, written with \<open>AList.update\<close> (which keeps the place of a key that is already
  there and appends a new one, as the object spread of \<open>selectUpgrade\<close> does).
\<close>

record State =
  player :: Entity
  enemies :: "Entity list"
  projectiles :: "Projectile list"
  groundItems :: "GroundItem list"
  upgrades :: "(string \<times> int) list"
  xp :: int
  tick :: nat
  upgradeSelection :: "string list"

text \<open>
  What a run of an effect reads from outside the state: the keys held (\<open>useWASD\<close>),
  the mouse position and the window size, and the results of the calls of
  \<open>Math.random\<close> and \<open>uuidv4\<close>, the \<open>k\<close>-th call of the run returning \<open>random k\<close>
  and \<open>uuidv4 k\<close>.
\<close>

record Inputs =
  key_w :: bool
  key_a :: bool
  key_s :: bool
  key_d :: bool
  mouse_x :: real
  mouse_y :: real
  innerWidth :: real
  innerHeight :: real
  random :: "nat \<Rightarrow> real"
  uuidv4 :: "nat \<Rightarrow> string"

subsection \<open>Constructors and the catalog\<close>

definition DEFAULT_STATS :: Stats where
  "DEFAULT_STATS =
     \<lparr> level = 1,
       health = \<lparr> current = 1, maximum = 1 \<rparr>,
       speed = 25 / 100,
       radius = 48,
       attack = \<lparr> a_damage = 1,
                  a_cooldown = \<lparr> current = 0, maximum = 100 \<rparr>,
                  a_range = 30,
                  a_radius = 10,
                  projectileSpeed = 3 \<rparr> \<rparr>"

definition entity :: "string \<Rightarrow> string \<Rightarrow> real \<Rightarrow> real \<Rightarrow> Stats \<Rightarrow> Entity" where
  "entity new_uuid nm px py st =
     \<lparr> uuid = new_uuid, name = nm, stats = st, e_x = px, e_y = py, face = FaceRight \<rparr>"

definition projectile ::
  "string \<Rightarrow> string \<Rightarrow> real \<Rightarrow> real \<Rightarrow> int \<Rightarrow> real \<Rightarrow> real \<Rightarrow> real \<Rightarrow> real \<Rightarrow> bool \<Rightarrow> Projectile"
where
  "projectile new_uuid cst px py dmg ang spd rad rng piercing =
     \<lparr> p_uuid = new_uuid, caster = cst, startX = px, startY = py, p_x = px, p_y = py,
       p_damage = dmg, angle = ang, p_speed = spd, p_radius = rad, p_range = rng,
       isPiercing = piercing, entityHitCooldown = Map.empty \<rparr>"

definition groundItem :: "string \<Rightarrow> ItemType \<Rightarrow> int \<Rightarrow> real \<Rightarrow> real \<Rightarrow> GroundItem" where
  "groundItem new_uuid ty v px py =
     \<lparr> g_uuid = new_uuid, g_type = ty, g_value = v, g_x = px, g_y = py \<rparr>"

definition UPGRADES :: "Upgrade list" where
  "UPGRADES =
     [ \<lparr> u_id = ''attackRadius'', u_name = ''Attack Radius'',
         description = ''Increase the attack radius by {radius}'',
         rarity = Common, maxLevel = None, u_values = Some [(''radius'', 8)] \<rparr>,
       \<lparr> u_id = ''movementSpeed'', u_name = ''Movement Speed'',
         description = ''Increase the movement speed by {speed}'',
         rarity = Common, maxLevel = None, u_values = Some [(''speed'', 25)] \<rparr>,
       \<lparr> u_id = ''health'', u_name = ''Health'',
         description = ''Increase the health by {health}'',
         rarity = Common, maxLevel = None, u_values = Some [(''health'', 10)] \<rparr>,
       \<lparr> u_id = ''attackDamage'', u_name = ''Attack Damage'',
         description = ''Increase the attack damage by {damage}'',
         rarity = Common, maxLevel = None, u_values = Some [(''damage'', 1)] \<rparr>,
       \<lparr> u_id = ''attackSpeed'', u_name = ''Attack Speed'',
         description = ''Decrease the attack cooldown by {speed}'',
         rarity = Common, maxLevel = Some 20, u_values = Some [(''speed'', 5)] \<rparr>,
       \<lparr> u_id = ''piercing'', u_name = ''Piercing'',
         description = ''Projectiles pierce through enemies'',
         rarity = Unique, maxLevel = None, u_values = None \<rparr>,
       \<lparr> u_id = ''lifeSteal'', u_name = ''Life Steal'',
         description = ''Heals {health} health per attack'',
         rarity = Rare, maxLevel = None, u_values = Some [(''health'', 1)] \<rparr> ]"

definition getUpgradeById :: "string \<Rightarrow> Upgrade option" where
  "getUpgradeById i = find (\<lambda>upgrade. u_id upgrade = i) UPGRADES"

text \<open>\<open>rand min max\<close> is \<open>Math.floor(Math.random() * (max - min + 1) + min)\<close>, on the
  result \<open>r\<close> of the call of \<open>Math.random\<close>.\<close>

definition rand :: "real \<Rightarrow> int \<Rightarrow> int \<Rightarrow> int" where
  "rand r mn mx = \<lfloor>r * real_of_int (mx - mn + 1) + real_of_int mn\<rfloor>"

text \<open>\<open>Math.atan2\<close> on real numbers (the library function, without signed zeros).\<close>

definition atan2 :: "real \<Rightarrow> real \<Rightarrow> real" where
  "atan2 py px =
     (if 0 < px then arctan (py / px)
      else if px < 0 then (if 0 \<le> py then arctan (py / px) + pi else arctan (py / px) - pi)
      else if 0 < py then pi / 2
      else if py < 0 then - (pi / 2)
      else 0)"

text \<open>The distance \<open>Math.sqrt(Math.pow(x1 - x2, 2) + Math.pow(y1 - y2, 2))\<close> that every
  collision test of the tick computes.\<close>

definition distance :: "real \<Rightarrow> real \<Rightarrow> real \<Rightarrow> real \<Rightarrow> real" where
  "distance x1 y1 x2 y2 = sqrt ((x1 - x2)\<^sup>2 + (y1 - y2)\<^sup>2)"

section \<open>Effective player stats\<close>

text \<open>
  \<open>upgradeLevel\<close> is the read \<open>upgrades[id]\<close> with \<open>undefined\<close> taken as 0, which is
  how the filter of the draw (\<open>!upgrades[id]\<close>, \<open>upgrades[id] < maxLevel\<close>) and the
  offers (\<open>upgrades[id] || 0\<close>) use it. \<open>hasUpgrade id\<close> is \<open>upgrades[id] > 0\<close>, false
  for a missing key (\<open>undefined > 0\<close>). Both are called with ids of the catalog and
  with the literals \<open>'piercing'\<close> and \<open>'lifeSteal'\<close> only, none of which is the name of a
  property that a plain object inherits (\<open>objectPrototypeKeys\<close> below).
\<close>

definition upgradeLevel :: "(string \<times> int) list \<Rightarrow> string \<Rightarrow> int" where
  "upgradeLevel ups i = (case map_of ups i of None \<Rightarrow> 0 | Some l \<Rightarrow> l)"

definition hasUpgrade :: "(string \<times> int) list \<Rightarrow> string \<Rightarrow> bool" where
  "hasUpgrade ups i = (case map_of ups i of None \<Rightarrow> False | Some l \<Rightarrow> 0 < l)"

definition valueOf :: "Upgrade \<Rightarrow> string \<Rightarrow> int option" where
  "valueOf upgrade k = (case u_values upgrade of None \<Rightarrow> None | Some vs \<Rightarrow> map_of vs k)"

text \<open>
  One turn of the loop of \<open>playerWithUpgrades\<close> (lines 236 to 259) on the clone
  \<open>newPlayer\<close>. Each case of the \<open>switch\<close> reads one entry of the catalog entry's value
  table; the entry is there for every case that reads it (lemma \<open>catalog_values\<close>
  below), so the branch \<open>None\<close> of the lookups is never taken.
\<close>

definition applyUpgrade :: "string \<times> int \<Rightarrow> Entity \<Rightarrow> Entity" where
  "applyUpgrade entry newPlayer =
     (case entry of (upgradeId, lvl) \<Rightarrow>
        (case getUpgradeById upgradeId of
           None \<Rightarrow> newPlayer
         | Some upgrade \<Rightarrow>
             if upgradeId = ''attackRadius'' then
               (case valueOf upgrade ''radius'' of None \<Rightarrow> newPlayer
                | Some v \<Rightarrow>
                    stats_update (attack_update (a_radius_update (\<lambda>r. r + real_of_int (v * lvl))))
                      newPlayer)
             else if upgradeId = ''movementSpeed'' then
               (case valueOf upgrade ''speed'' of None \<Rightarrow> newPlayer
                | Some v \<Rightarrow>
                    stats_update (speed_update (\<lambda>r. r + real_of_int (v * lvl) / 100)) newPlayer)
             else if upgradeId = ''health'' then
               (case valueOf upgrade ''health'' of None \<Rightarrow> newPlayer
                | Some v \<Rightarrow>
                    stats_update (health_update (maximum_update (\<lambda>m. m + v * lvl))) newPlayer)
             else if upgradeId = ''attackDamage'' then
               (case valueOf upgrade ''damage'' of None \<Rightarrow> newPlayer
                | Some v \<Rightarrow>
                    stats_update (attack_update (a_damage_update (\<lambda>m. m + v * lvl))) newPlayer)
             else if upgradeId = ''attackSpeed'' then
               (case valueOf upgrade ''speed'' of None \<Rightarrow> newPlayer
                | Some v \<Rightarrow>
                    stats_update
                      (attack_update (a_cooldown_update (maximum_update (\<lambda>m. m - v * lvl))))
                      newPlayer)
             else newPlayer))"

text \<open>
  The value of the memo \<open>playerWithUpgrades\<close>, as a function of the player and the
  upgrade levels. The memo is recomputed when \<open>upgrades\<close> changes, from the player of
  that render; the tick reads from it only the speed, the radius, the attack's damage,
  radius, range and projectile speed, and the maxima of health and cooldown, and no code
  of the program writes any of these fields of the player, so the memo and the function
  applied to the current player agree on every field that is read.
\<close>

definition playerWithUpgrades :: "Entity \<Rightarrow> (string \<times> int) list \<Rightarrow> Entity" where
  "playerWithUpgrades pl ups = fold applyUpgrade ups pl"

subsection \<open>The memo on the heap\<close>

text \<open>
  \<open>playerWithUpgrades\<close> is computed by cloning the player with \<open>structuredClone\<close> and
  writing into the clone (lines 233 to 262). Whether the stored player is left alone
  depends on which objects the writes reach, so this part of the program is also
  modelled on a heap of objects: an entity refers to its stats, the stats to their
  health and attack, the attack to its cooldown. The heap is the list of its cells, an
  address is a place in the list, and a new object is put at the end.
\<close>

datatype Cell =
    EntityCell string string nat real real Face
  | StatsCell int nat real real nat
  | CurrentMaxCell int int
  | AttackCell int nat real real real

type_synonym Heap = "Cell list"

definition lookup :: "Heap \<Rightarrow> nat \<Rightarrow> Cell option" where
  "lookup h a = (if a < length h then Some (h ! a) else None)"

definition alloc :: "Heap \<Rightarrow> Cell \<Rightarrow> nat \<times> Heap" where
  "alloc h c = (length h, h @ [c])"

text \<open>The value of an object with everything it refers to, when the heap holds it.\<close>

definition readCurrentMax :: "Heap \<Rightarrow> nat \<Rightarrow> CurrentMax option" where
  "readCurrentMax h a =
     (case lookup h a of
        Some (CurrentMaxCell c m) \<Rightarrow> Some \<lparr> current = c, maximum = m \<rparr>
      | _ \<Rightarrow> None)"

definition readAttack :: "Heap \<Rightarrow> nat \<Rightarrow> Attack option" where
  "readAttack h a =
     (case lookup h a of
        Some (AttackCell dmg cd rng rad ps) \<Rightarrow>
          do { cooldown \<leftarrow> readCurrentMax h cd;
               Some \<lparr> a_damage = dmg, a_cooldown = cooldown, a_range = rng, a_radius = rad,
                      projectileSpeed = ps \<rparr> }
      | _ \<Rightarrow> None)"

definition readStats :: "Heap \<Rightarrow> nat \<Rightarrow> Stats option" where
  "readStats h a =
     (case lookup h a of
        Some (StatsCell lvl hp spd rad ak) \<Rightarrow>
          do { hlth \<leftarrow> readCurrentMax h hp;
               atk \<leftarrow> readAttack h ak;
               Some \<lparr> level = lvl, health = hlth, speed = spd, radius = rad, attack = atk \<rparr> }
      | _ \<Rightarrow> None)"

definition readEntity :: "Heap \<Rightarrow> nat \<Rightarrow> Entity option" where
  "readEntity h a =
     (case lookup h a of
        Some (EntityCell u nm st px py f) \<Rightarrow>
          do { sts \<leftarrow> readStats h st;
               Some \<lparr> uuid = u, name = nm, stats = sts, e_x = px, e_y = py, face = f \<rparr> }
      | _ \<Rightarrow> None)"

text \<open>The references an entity's fields hold.\<close>

definition statsRef :: "Heap \<Rightarrow> nat \<Rightarrow> nat option" where
  "statsRef h a = (case lookup h a of Some (EntityCell u nm st px py f) \<Rightarrow> Some st | _ \<Rightarrow> None)"

definition healthRef :: "Heap \<Rightarrow> nat \<Rightarrow> nat option" where
  "healthRef h a = (case lookup h a of Some (StatsCell lvl hp spd rad ak) \<Rightarrow> Some hp | _ \<Rightarrow> None)"

definition attackRef :: "Heap \<Rightarrow> nat \<Rightarrow> nat option" where
  "attackRef h a = (case lookup h a of Some (StatsCell lvl hp spd rad ak) \<Rightarrow> Some ak | _ \<Rightarrow> None)"

definition cooldownRef :: "Heap \<Rightarrow> nat \<Rightarrow> nat option" where
  "cooldownRef h a =
     (case lookup h a of Some (AttackCell dmg cd rng rad ps) \<Rightarrow> Some cd | _ \<Rightarrow> None)"

text \<open>
  \<open>structuredClone\<close> of an entity: a new object for the entity and for every object it
  refers to, with the same values. (The health and the cooldown of the entity are taken
  to be two objects, as the literals of the program build them: \<open>unshared\<close> below.)
\<close>

definition cloneCurrentMax :: "Heap \<Rightarrow> nat \<Rightarrow> (nat \<times> Heap) option" where
  "cloneCurrentMax h a =
     (case lookup h a of
        Some (CurrentMaxCell c m) \<Rightarrow> Some (alloc h (CurrentMaxCell c m))
      | _ \<Rightarrow> None)"

definition cloneAttack :: "Heap \<Rightarrow> nat \<Rightarrow> (nat \<times> Heap) option" where
  "cloneAttack h a =
     (case lookup h a of
        Some (AttackCell dmg cd rng rad ps) \<Rightarrow>
          do { (cd', h1) \<leftarrow> cloneCurrentMax h cd;
               Some (alloc h1 (AttackCell dmg cd' rng rad ps)) }
      | _ \<Rightarrow> None)"

definition cloneStats :: "Heap \<Rightarrow> nat \<Rightarrow> (nat \<times> Heap) option" where
  "cloneStats h a =
     (case lookup h a of
        Some (StatsCell lvl hp spd rad ak) \<Rightarrow>
          do { (hp', h1) \<leftarrow> cloneCurrentMax h hp;
               (ak', h2) \<leftarrow> cloneAttack h1 ak;
               Some (alloc h2 (StatsCell lvl hp' spd rad ak')) }
      | _ \<Rightarrow> None)"

definition structuredClone :: "Heap \<Rightarrow> nat \<Rightarrow> (nat \<times> Heap) option" where
  "structuredClone h a =
     (case lookup h a of
        Some (EntityCell u nm st px py f) \<Rightarrow>
          do { (st', h1) \<leftarrow> cloneStats h st;
               Some (alloc h1 (EntityCell u nm st' px py f)) }
      | _ \<Rightarrow> None)"

definition unshared :: "Heap \<Rightarrow> nat \<Rightarrow> bool" where
  "unshared h a \<longleftrightarrow>
     (case statsRef h a of
        None \<Rightarrow> False
      | Some st \<Rightarrow>
          (case (healthRef h st, attackRef h st) of
             (Some hp, Some ak) \<Rightarrow>
               (case cooldownRef h ak of None \<Rightarrow> False | Some cd \<Rightarrow> hp \<noteq> cd)
           | _ \<Rightarrow> False))"

text \<open>
  The five assignments of the \<open>switch\<close>, each following the references from the entity
  at \<open>np\<close> to the object it writes: \<open>newPlayer.stats.attack.radius += v\<close>,
  \<open>newPlayer.stats.speed += v\<close>, \<open>newPlayer.stats.health.max += v\<close>,
  \<open>newPlayer.stats.attack.damage += v\<close> and \<open>newPlayer.stats.attack.cooldown.max -= v\<close>.
\<close>

definition addAttackRadius :: "real \<Rightarrow> nat \<Rightarrow> Heap \<Rightarrow> Heap option" where
  "addAttackRadius v np h =
     do { st \<leftarrow> statsRef h np;
          ak \<leftarrow> attackRef h st;
          (case lookup h ak of
             Some (AttackCell dmg cd rng rad ps) \<Rightarrow> Some (h[ak := AttackCell dmg cd rng (rad + v) ps])
           | _ \<Rightarrow> None) }"

definition addSpeed :: "real \<Rightarrow> nat \<Rightarrow> Heap \<Rightarrow> Heap option" where
  "addSpeed v np h =
     do { st \<leftarrow> statsRef h np;
          (case lookup h st of
             Some (StatsCell lvl hp spd rad ak) \<Rightarrow> Some (h[st := StatsCell lvl hp (spd + v) rad ak])
           | _ \<Rightarrow> None) }"

definition addHealthMax :: "int \<Rightarrow> nat \<Rightarrow> Heap \<Rightarrow> Heap option" where
  "addHealthMax v np h =
     do { st \<leftarrow> statsRef h np;
          hp \<leftarrow> healthRef h st;
          (case lookup h hp of
             Some (CurrentMaxCell c m) \<Rightarrow> Some (h[hp := CurrentMaxCell c (m + v)])
           | _ \<Rightarrow> None) }"

definition addAttackDamage :: "int \<Rightarrow> nat \<Rightarrow> Heap \<Rightarrow> Heap option" where
  "addAttackDamage v np h =
     do { st \<leftarrow> statsRef h np;
          ak \<leftarrow> attackRef h st;
          (case lookup h ak of
             Some (AttackCell dmg cd rng rad ps) \<Rightarrow> Some (h[ak := AttackCell (dmg + v) cd rng rad ps])
           | _ \<Rightarrow> None) }"

definition subCooldownMax :: "int \<Rightarrow> nat \<Rightarrow> Heap \<Rightarrow> Heap option" where
  "subCooldownMax v np h =
     do { st \<leftarrow> statsRef h np;
          ak \<leftarrow> attackRef h st;
          cd \<leftarrow> cooldownRef h ak;
          (case lookup h cd of
             Some (CurrentMaxCell c m) \<Rightarrow> Some (h[cd := CurrentMaxCell c (m - v)])
           | _ \<Rightarrow> None) }"

text \<open>One turn of the loop, and the loop (lines 236 to 259), on the heap.\<close>

definition applyUpgradeHeap :: "string \<times> int \<Rightarrow> nat \<Rightarrow> Heap \<Rightarrow> Heap option" where
  "applyUpgradeHeap entry np h =
     (case entry of (upgradeId, lvl) \<Rightarrow>
        (case getUpgradeById upgradeId of
           None \<Rightarrow> Some h
         | Some upgrade \<Rightarrow>
             if upgradeId = ''attackRadius'' then
               (case valueOf upgrade ''radius'' of None \<Rightarrow> Some h
                | Some v \<Rightarrow> addAttackRadius (real_of_int (v * lvl)) np h)
             else if upgradeId = ''movementSpeed'' then
               (case valueOf upgrade ''speed'' of None \<Rightarrow> Some h
                | Some v \<Rightarrow> addSpeed (real_of_int (v * lvl) / 100) np h)
             else if upgradeId = ''health'' then
               (case valueOf upgrade ''health'' of None \<Rightarrow> Some h
                | Some v \<Rightarrow> addHealthMax (v * lvl) np h)
             else if upgradeId = ''attackDamage'' then
               (case valueOf upgrade ''damage'' of None \<Rightarrow> Some h
                | Some v \<Rightarrow> addAttackDamage (v * lvl) np h)
             else if upgradeId = ''attackSpeed'' then
               (case valueOf upgrade ''speed'' of None \<Rightarrow> Some h
                | Some v \<Rightarrow> subCooldownMax (v * lvl) np h)
             else Some h))"

fun applyUpgradesHeap :: "(string \<times> int) list \<Rightarrow> nat \<Rightarrow> Heap \<Rightarrow> Heap option" where
  "applyUpgradesHeap [] np h = Some h"
| "applyUpgradesHeap (entry # rest) np h =
     do { h' \<leftarrow> applyUpgradeHeap entry np h; applyUpgradesHeap rest np h' }"

text \<open>
  The callback of the memo: the address of the new player and the heap after the
  call, or \<open>None\<close> when a reference does not lead to an object of the right kind.
\<close>

definition playerWithUpgradesHeap ::
  "Heap \<Rightarrow> nat \<Rightarrow> (string \<times> int) list \<Rightarrow> (nat \<times> Heap) option"
where
  "playerWithUpgradesHeap h pl ups =
     do { (newPlayer, h1) \<leftarrow> structuredClone h pl;
          h2 \<leftarrow> applyUpgradesHeap ups newPlayer h1;
          Some (newPlayer, h2) }"

section \<open>The tick effect (lines 284 to 513)\<close>

subsection \<open>Controls and the player's attack\<close>

definition controls :: "Inputs \<Rightarrow> Entity \<Rightarrow> Entity \<Rightarrow> Entity" where
  "controls inp pwu newPlayer =
     (let p1 = (if key_w inp then e_y_update (\<lambda>v. v - speed (stats pwu)) newPlayer else newPlayer);
          p2 = (if key_a inp then e_x_update (\<lambda>v. v - speed (stats pwu)) p1 else p1);
          p3 = (if key_s inp then e_y_update (\<lambda>v. v + speed (stats pwu)) p2 else p2)
      in (if key_d inp then e_x_update (\<lambda>v. v + speed (stats pwu)) p3 else p3))"

definition playerAngle :: "Inputs \<Rightarrow> real" where
  "playerAngle inp = atan2 (mouse_y inp - innerHeight inp / 2) (mouse_x inp - innerWidth inp / 2)"

text \<open>
  The player's attack: the new player, the projectiles pushed, and the number of calls
  of \<open>uuidv4\<close> so far.
\<close>

definition playerAutoAttack ::
  "Inputs \<Rightarrow> (string \<times> int) list \<Rightarrow> Entity \<Rightarrow> Entity \<Rightarrow> nat \<Rightarrow> Entity \<times> Projectile list \<times> nat"
where
  "playerAutoAttack inp ups pwu newPlayer nu =
     (if current (a_cooldown (attack (stats newPlayer))) = 0 then
        (stats_update (attack_update (a_cooldown_update
            (current_update (\<lambda>_. maximum (a_cooldown (attack (stats pwu))))))) newPlayer,
         [projectile (uuidv4 inp nu) (uuid newPlayer)
            (e_x newPlayer + radius (stats pwu) * cos (playerAngle inp))
            (e_y newPlayer + radius (stats pwu) * sin (playerAngle inp))
            (a_damage (attack (stats pwu)))
            (playerAngle inp)
            (projectileSpeed (attack (stats pwu)))
            (a_radius (attack (stats pwu)))
            (a_range (attack (stats pwu)))
            (hasUpgrade ups ''piercing'')],
         nu + 1)
      else
        (stats_update (attack_update (a_cooldown_update (current_update (\<lambda>c. c - 1)))) newPlayer,
         [], nu))"

subsection \<open>Projectiles\<close>

definition moveProjectile :: "Projectile \<Rightarrow> Projectile" where
  "moveProjectile p =
     p\<lparr> p_x := p_x p + cos (angle p) * p_speed p, p_y := p_y p + sin (angle p) * p_speed p \<rparr>"

definition reduceEntityHitCooldown :: "Projectile \<Rightarrow> Projectile" where
  "reduceEntityHitCooldown p =
     p\<lparr> entityHitCooldown :=
          (\<lambda>k. map_option (\<lambda>c. if 0 < c then c - 1 else c) (entityHitCooldown p k)) \<rparr>"

definition overlaps :: "Projectile \<Rightarrow> Entity \<Rightarrow> bool" where
  "overlaps p enemy \<longleftrightarrow>
     distance (p_x p) (p_y p) (e_x enemy) (e_y enemy) \<le> radius (stats enemy) + p_radius p"

text \<open>\<open>processHit\<close> (lines 349 to 354): the enemy hit and the player after it.\<close>

definition processHit :: "bool \<Rightarrow> Projectile \<Rightarrow> Entity \<Rightarrow> Entity \<Rightarrow> Entity \<times> Entity" where
  "processHit lifeSteal p enemy newPlayer =
     (stats_update (health_update (current_update (\<lambda>c. c - p_damage p))) enemy,
      if lifeSteal then stats_update (health_update (current_update (\<lambda>c. c + 1))) newPlayer
      else newPlayer)"

text \<open>
  The loop over the enemies for one projectile of the player (lines 345 to 371): the
  projectile, the enemies and the player after it, and whether the projectile was
  spliced out (\<open>continueLoop\<close>).
\<close>

fun damageEnemies ::
  "bool \<Rightarrow> Projectile \<Rightarrow> Entity list \<Rightarrow> Entity \<Rightarrow> Projectile \<times> Entity list \<times> Entity \<times> bool"
where
  "damageEnemies lifeSteal p [] newPlayer = (p, [], newPlayer, False)"
| "damageEnemies lifeSteal p (enemy # rest) newPlayer =
     (if overlaps p enemy then
        (if isPiercing p then
           (if entityHitCooldown p (uuid enemy) = Some 0 \<or> entityHitCooldown p (uuid enemy) = None
            then
              (case processHit lifeSteal p enemy newPlayer of (enemy', newPlayer') \<Rightarrow>
                 (case damageEnemies lifeSteal
                         (p\<lparr> entityHitCooldown := (entityHitCooldown p)(uuid enemy \<mapsto> 300) \<rparr>)
                         rest newPlayer' of
                    (p', rest', newPlayer'', removed) \<Rightarrow> (p', enemy' # rest', newPlayer'', removed)))
            else
              (case damageEnemies lifeSteal p rest newPlayer of
                 (p', rest', newPlayer', removed) \<Rightarrow> (p', enemy # rest', newPlayer', removed)))
         else
           (case processHit lifeSteal p enemy newPlayer of (enemy', newPlayer') \<Rightarrow>
              (p, enemy' # rest, newPlayer', True)))
      else
        (case damageEnemies lifeSteal p rest newPlayer of
           (p', rest', newPlayer', removed) \<Rightarrow> (p', enemy # rest', newPlayer', removed)))"

definition outOfRange :: "Projectile \<Rightarrow> bool" where
  "outOfRange p \<longleftrightarrow> p_range p \<le> distance (p_x p) (p_y p) (startX p) (startY p)"

text \<open>
  One turn of the loop over the projectiles (lines 330 to 391): \<open>None\<close> when the
  projectile was spliced out of the list, with the player and the enemies after the turn.
\<close>

definition processProjectile ::
  "string \<Rightarrow> Entity \<Rightarrow> bool \<Rightarrow> Projectile \<Rightarrow> Entity \<Rightarrow> Entity list
     \<Rightarrow> Projectile option \<times> Entity \<times> Entity list"
where
  "processProjectile playerUuid pwu lifeSteal p0 newPlayer newEnemies =
     (let p = reduceEntityHitCooldown (moveProjectile p0) in
      if caster p = playerUuid then
        (case damageEnemies lifeSteal p newEnemies newPlayer of
           (p', newEnemies', newPlayer', removed) \<Rightarrow>
             if removed then (None, newPlayer', newEnemies')
             else if outOfRange p' then (None, newPlayer', newEnemies')
             else (Some p', newPlayer', newEnemies'))
      else if distance (p_x p) (p_y p) (e_x newPlayer) (e_y newPlayer)
                \<le> radius (stats pwu) + p_radius p then
        (None, stats_update (health_update (current_update (\<lambda>c. c - 1))) newPlayer, newEnemies)
      else if outOfRange p then (None, newPlayer, newEnemies)
      else (Some p, newPlayer, newEnemies))"

fun processProjectiles ::
  "string \<Rightarrow> Entity \<Rightarrow> bool \<Rightarrow> Projectile list \<Rightarrow> Entity \<Rightarrow> Entity list
     \<Rightarrow> Projectile list \<times> Entity \<times> Entity list"
where
  "processProjectiles playerUuid pwu lifeSteal [] newPlayer newEnemies =
     ([], newPlayer, newEnemies)"
| "processProjectiles playerUuid pwu lifeSteal (p # rest) newPlayer newEnemies =
     (case processProjectile playerUuid pwu lifeSteal p newPlayer newEnemies of
        (kept, newPlayer', newEnemies') \<Rightarrow>
          (case processProjectiles playerUuid pwu lifeSteal rest newPlayer' newEnemies' of
             (rest', newPlayer'', newEnemies'') \<Rightarrow>
               ((case kept of None \<Rightarrow> rest' | Some p' \<Rightarrow> p' # rest'), newPlayer'', newEnemies'')))"

subsection \<open>Enemies\<close>

text \<open>
  One turn of the loop over the enemies (lines 396 to 441): \<open>None\<close> when the enemy was
  spliced out, the projectiles and the ground items pushed, and the numbers of calls of
  \<open>Math.random\<close> and \<open>uuidv4\<close> so far.
\<close>

definition enemyStep ::
  "Inputs \<Rightarrow> Entity \<Rightarrow> Entity \<Rightarrow> Entity \<Rightarrow> nat \<Rightarrow> nat
     \<Rightarrow> Entity option \<times> Projectile list \<times> GroundItem list \<times> nat \<times> nat"
where
  "enemyStep inp pwu newPlayer enemy nr nu =
     (if current (health (stats enemy)) \<le> 0 then
        (None, [],
         [if random inp nr < 95 / 100
          then groundItem (uuidv4 inp nu) Xp (4 + level (stats enemy)) (e_x enemy) (e_y enemy)
          else groundItem (uuidv4 inp nu) Health (level (stats enemy)) (e_x enemy) (e_y enemy)],
         nr + 1, nu + 1)
      else
        (let ang = atan2 (e_y newPlayer - e_y enemy) (e_x newPlayer - e_x enemy);
             dist = distance (e_x newPlayer) (e_y newPlayer) (e_x enemy) (e_y enemy)
                      - radius (stats pwu) - radius (stats enemy)
         in
           if a_range (attack (stats enemy)) < dist then
             (Some (enemy\<lparr> e_x := e_x enemy + cos ang * speed (stats enemy),
                            e_y := e_y enemy + sin ang * speed (stats enemy),
                            face := (if 0 < cos ang * speed (stats enemy)
                                     then FaceRight else FaceLeft) \<rparr>),
              [], [], nr, nu)
           else if current (a_cooldown (attack (stats enemy))) = 0 then
             (Some (stats_update (attack_update (a_cooldown_update
                      (current_update (\<lambda>_. maximum (a_cooldown (attack (stats enemy)))))))
                      enemy),
              [projectile (uuidv4 inp nu) (uuid enemy)
                 (e_x enemy + radius (stats enemy) * cos ang)
                 (e_y enemy + radius (stats enemy) * sin ang)
                 (a_damage (attack (stats enemy)))
                 ang
                 (projectileSpeed (attack (stats enemy)))
                 (a_radius (attack (stats enemy)))
                 (a_range (attack (stats enemy)))
                 False],
              [], nr, nu + 1)
           else
             (Some (stats_update (attack_update (a_cooldown_update
                      (current_update (\<lambda>c. c - 1)))) enemy),
              [], [], nr, nu)))"

fun processEnemies ::
  "Inputs \<Rightarrow> Entity \<Rightarrow> Entity \<Rightarrow> Entity list \<Rightarrow> nat \<Rightarrow> nat
     \<Rightarrow> Entity list \<times> Projectile list \<times> GroundItem list \<times> nat \<times> nat"
where
  "processEnemies inp pwu newPlayer [] nr nu = ([], [], [], nr, nu)"
| "processEnemies inp pwu newPlayer (enemy # rest) nr nu =
     (case enemyStep inp pwu newPlayer enemy nr nu of
        (kept, shots, drops, nr', nu') \<Rightarrow>
          (case processEnemies inp pwu newPlayer rest nr' nu' of
             (rest', shots', drops', nr'', nu'') \<Rightarrow>
               ((case kept of None \<Rightarrow> rest' | Some enemy' \<Rightarrow> enemy' # rest'),
                shots @ shots', drops @ drops', nr'', nu'')))"

subsection \<open>Ground items\<close>

text \<open>
  One turn of the loop over the ground items (lines 446 to 468): \<open>None\<close> when the item
  was picked up, the player after the turn, and the value of \<open>xp\<close> after the updates
  queued with \<open>setXp\<close> so far.
\<close>

definition groundItemStep ::
  "Entity \<Rightarrow> GroundItem \<Rightarrow> Entity \<Rightarrow> int \<Rightarrow> GroundItem option \<times> Entity \<times> int"
where
  "groundItemStep pwu g newPlayer xpv =
     (let dist = distance (e_x newPlayer) (e_y newPlayer) (g_x g) (g_y g) in
      if g_type g = Xp then
        (if dist \<le> 150 - radius (stats pwu) then
           (let ang = atan2 (e_y newPlayer - g_y g) (e_x newPlayer - g_x g);
                g' = g\<lparr> g_x := g_x g + cos ang * 2, g_y := g_y g + sin ang * 2 \<rparr>
            in if dist \<le> radius (stats pwu) then (None, newPlayer, xpv + g_value g)
               else (Some g', newPlayer, xpv))
         else (Some g, newPlayer, xpv))
      else if g_type g = Health then
        (if dist \<le> radius (stats pwu) then
           (None,
            stats_update (health_update (current_update (\<lambda>c. c + g_value g * 2))) newPlayer,
            xpv)
         else (Some g, newPlayer, xpv))
      else (Some g, newPlayer, xpv))"

fun processGroundItems ::
  "Entity \<Rightarrow> GroundItem list \<Rightarrow> Entity \<Rightarrow> int \<Rightarrow> GroundItem list \<times> Entity \<times> int"
where
  "processGroundItems pwu [] newPlayer xpv = ([], newPlayer, xpv)"
| "processGroundItems pwu (g # rest) newPlayer xpv =
     (case groundItemStep pwu g newPlayer xpv of
        (kept, newPlayer', xpv') \<Rightarrow>
          (case processGroundItems pwu rest newPlayer' xpv' of
             (rest', newPlayer'', xpv'') \<Rightarrow>
               ((case kept of None \<Rightarrow> rest' | Some g' \<Rightarrow> g' # rest'), newPlayer'', xpv'')))"

subsection \<open>The spawn check and the fixes\<close>

text \<open>The enemies that the spawn check (lines 472 to 499) pushes: one or none.\<close>

definition spawnEnemies :: "Inputs \<Rightarrow> nat \<Rightarrow> Entity \<Rightarrow> Entity \<Rightarrow> nat \<Rightarrow> nat \<Rightarrow> Entity list" where
  "spawnEnemies inp t pl newPlayer nr nu =
     (if t mod 100 = 0 then
        (let randomAngle = random inp nr * 2 * pi;
             lvl = max 1 (level (stats pl) + rand (random inp (nr + 1)) (- 1) 1);
             nm = [''skeleton'', ''goblin'', ''eye'', ''mushroom''] ! nat ((lvl div 4) mod 4)
         in [\<lparr> uuid = uuidv4 inp nu,
                name = nm,
                stats = \<lparr> level = lvl,
                          health = \<lparr> current = 1 + lvl div 4, maximum = 1 + lvl div 4 \<rparr>,
                          speed = 25 / 100 + 2 / 100 * real_of_int lvl,
                          radius = 48 + real_of_int (lvl div 16) * 16,
                          attack = \<lparr> a_damage = 1 + lvl div 4,
                                     a_cooldown = \<lparr> current = 0, maximum = 100 \<rparr>,
                                     a_range = 30 + real_of_int (lvl div 4) * 4,
                                     a_radius = 10 + real_of_int (lvl div 4) * 2,
                                     projectileSpeed = 3 \<rparr> \<rparr>,
                e_x = e_x newPlayer + sin randomAngle * 600,
                e_y = e_y newPlayer + cos randomAngle * 600,
                face = FaceRight \<rparr>])
      else [])"

definition fixes_health :: "Entity \<Rightarrow> Entity \<Rightarrow> Entity" where
  "fixes_health pwu newPlayer =
     stats_update (health_update (current_update (\<lambda>c. min c (maximum (health (stats pwu))))))
       newPlayer"

subsection \<open>The effect\<close>

text \<open>
  The effect mutates the objects of the old state in place and publishes new arrays.
  No object is shared between two entities, projectiles or items (each is built by its
  own object literal or by \<open>structuredClone\<close>), and the old state is not read again,
  so the effect is the function from the old state to the new one. The pause guard of
  line 285 is the first test. The effect does not write the cell \<open>tick\<close>: the interval
  timer of the mount effect does (\<open>intervalTick\<close>).

  The render effect (lines 543 to 700) is not modelled. It reads the state and writes
  none of its values, but it sorts the array \<open>enemies\<close> in place; the tick effect runs
  before it and has copied the array by then, so the sort reaches a later tick only
  when the tick effect returned at the pause guard, and changes nothing but the order
  of the enemies.
\<close>

definition tickEffect :: "Inputs \<Rightarrow> State \<Rightarrow> State" where
  "tickEffect inp s =
     (if upgradeSelection s \<noteq> [] then s
      else
        (let pwu = playerWithUpgrades (player s) (upgrades s);
             p1 = controls inp pwu (player s)
         in case playerAutoAttack inp (upgrades s) pwu p1 0 of (p2, shot, nu1) \<Rightarrow>
            (case processProjectiles (uuid (player s)) pwu (hasUpgrade (upgrades s) ''lifeSteal'')
                    (projectiles s @ shot) p2 (enemies s) of
               (ps1, p3, es1) \<Rightarrow>
            (case processEnemies inp pwu p3 es1 0 nu1 of (es2, shots, drops, nr2, nu2) \<Rightarrow>
            (case processGroundItems pwu (groundItems s @ drops) p3 (xp s) of
               (gs1, p4, xp1) \<Rightarrow>
                 s\<lparr> player := (fixes_health pwu p4)
                       \<lparr> face := (if innerWidth inp / 2 < mouse_x inp then FaceRight else FaceLeft) \<rparr>,
                    enemies := es2 @ spawnEnemies inp (tick s) (player s) p4 nr2 nu2,
                    projectiles := ps1 @ shots,
                    groundItems := gs1,
                    xp := xp1 \<rparr>)))))"

definition intervalTick :: "State \<Rightarrow> State" where
  "intervalTick s = s\<lparr> tick := tick s + 1 \<rparr>"

section \<open>Mounting, levelling up and choosing an upgrade\<close>

text \<open>The state of the first render; \<open>new_uuid\<close> is the player's \<open>uuidv4()\<close>.\<close>

definition initialState :: "string \<Rightarrow> State" where
  "initialState new_uuid =
     \<lparr> player = entity new_uuid ''player'' 0 0
                  \<lparr> level = 1,
                    health = \<lparr> current = 10, maximum = 10 \<rparr>,
                    speed = 1,
                    radius = 48,
                    attack = \<lparr> a_damage = 1,
                               a_cooldown = \<lparr> current = 0, maximum = 105 \<rparr>,
                               a_range = 200,
                               a_radius = 16,
                               projectileSpeed = 2 \<rparr> \<rparr>,
       enemies = [],
       projectiles = [],
       groundItems = [],
       upgrades = [],
       xp = 0,
       tick = 0,
       upgradeSelection = [] \<rparr>"

text \<open>The mount effect (lines 515 to 526) replaces the enemies by ten skeletons.\<close>

definition mountEffect :: "Inputs \<Rightarrow> State \<Rightarrow> State" where
  "mountEffect inp s =
     s\<lparr> enemies :=
          map (\<lambda>i. entity (uuidv4 inp i) ''skeleton''
                      (e_x (player s) + sin (random inp i * 2 * pi) * 600)
                      (e_y (player s) + cos (random inp i * 2 * pi) * 600)
                      DEFAULT_STATS)
            [0..<10] \<rparr>"

datatype error = TypeError

text \<open>
  The filter of \<open>getRandomUpgrades\<close> (lines 715 to 719) over a catalog, from the
  \<open>nr\<close>-th call of \<open>Math.random\<close> on. \<open>!upgrades[id]\<close> holds for a missing key and
  for the level 0; \<open>&&\<close> calls \<open>Math.random\<close> only when its left side holds.
\<close>

fun availableUpgrades ::
  "(string \<times> int) list \<Rightarrow> (nat \<Rightarrow> real) \<Rightarrow> Upgrade list \<Rightarrow> nat \<Rightarrow> Upgrade list \<times> nat"
where
  "availableUpgrades ups rnd [] nr = ([], nr)"
| "availableUpgrades ups rnd (upgrade # rest) nr =
     (if rarity upgrade = Unique then
        (if upgradeLevel ups (u_id upgrade) = 0 then
           (case availableUpgrades ups rnd rest (nr + 1) of
              (rest', nr') \<Rightarrow> ((if rnd nr < 1 / 10 then upgrade # rest' else rest'), nr'))
         else availableUpgrades ups rnd rest nr)
      else if rarity upgrade = Rare then
        (case availableUpgrades ups rnd rest (nr + 1) of
           (rest', nr') \<Rightarrow> ((if rnd nr < 1 / 2 then upgrade # rest' else rest'), nr'))
      else
        (case availableUpgrades ups rnd rest nr of
           (rest', nr') \<Rightarrow>
             ((if upgradeLevel ups (u_id upgrade) = 0
                  \<or> (case maxLevel upgrade of None \<Rightarrow> True | Some m \<Rightarrow> m = 0)
                  \<or> (case maxLevel upgrade of None \<Rightarrow> False
                      | Some m \<Rightarrow> upgradeLevel ups (u_id upgrade) < m)
               then upgrade # rest' else rest'), nr')))"

text \<open>
  The \<open>while\<close> loop of \<open>getRandomUpgrades\<close> (lines 721 to 726). It has no bound, so
  not returning is the value \<open>None\<close>. An index outside the array reads \<open>undefined\<close>,
  and \<open>upgrade.id\<close> then throws a \<open>TypeError\<close>. The product of the result of
  \<open>Math.random\<close> and the length is taken on real numbers; the program rounds it to a
  double, which can move the index to the next entry when the result lies just below a
  multiple of one over the length.
\<close>

partial_function (option) drawUpgrades ::
  "nat \<Rightarrow> Upgrade list \<Rightarrow> (nat \<Rightarrow> real) \<Rightarrow> nat \<Rightarrow> string list \<Rightarrow> (error + string list) option"
where
  "drawUpgrades amount available rnd nr randomUpgrades =
     (if length randomUpgrades < amount then
        (let i = \<lfloor>rnd nr * real (length available)\<rfloor> in
         if 0 \<le> i \<and> i < int (length available) then
           (if u_id (available ! nat i) \<in> set randomUpgrades
            then drawUpgrades amount available rnd (nr + 1) randomUpgrades
            else drawUpgrades amount available rnd (nr + 1)
                   (randomUpgrades @ [u_id (available ! nat i)]))
         else Some (Inl TypeError))
      else Some (Inr randomUpgrades))"

definition getRandomUpgrades ::
  "nat \<Rightarrow> (string \<times> int) list \<Rightarrow> (nat \<Rightarrow> real) \<Rightarrow> (error + string list) option"
where
  "getRandomUpgrades amount ups rnd =
     (case availableUpgrades ups rnd UPGRADES 0 of
        (available, nr) \<Rightarrow> drawUpgrades amount available rnd nr [])"

text \<open>The effect on \<open>xp\<close> (lines 703 to 733).\<close>

definition xpEffect :: "Inputs \<Rightarrow> State \<Rightarrow> (error + State) option" where
  "xpEffect inp s =
     (if level (stats (player s)) * 10 \<le> xp s then
        (case getRandomUpgrades 3 (upgrades s) (random inp) of
           None \<Rightarrow> None
         | Some (Inl e) \<Rightarrow> Some (Inl e)
         | Some (Inr selection) \<Rightarrow>
             Some (Inr (s\<lparr> player := stats_update (level_update (\<lambda>l. l + 1)) (player s),
                            xp := 0,
                            upgradeSelection := selection \<rparr>)))
      else Some (Inr s))"

text \<open>
  The names of the properties of \<open>Object.prototype\<close>, which every plain object
  inherits.
\<close>

definition objectPrototypeKeys :: "string list" where
  "objectPrototypeKeys =
     [''constructor'', ''__defineGetter__'', ''__defineSetter__'', ''hasOwnProperty'',
      ''__lookupGetter__'', ''__lookupSetter__'', ''isPrototypeOf'', ''propertyIsEnumerable'',
      ''toString'', ''valueOf'', ''__proto__'', ''toLocaleString'']"

text \<open>
  \<open>selectUpgrade\<close> (lines 735 to 741). The cell \<open>upgrades\<close> is a plain object, so
  \<open>upgrades[id]\<close> is the level stored under \<open>id\<close> when the object has that key of its
  own; it is \<open>undefined\<close>, which \<open>|| 0\<close> turns into 0, when neither the object nor
  \<open>Object.prototype\<close> has it; and it is the inherited property, a function or an object,
  when only \<open>Object.prototype\<close> has it. In that last case \<open>+ 1\<close> concatenates strings:
  the entry written is not a number and the new value of the cell is none of the type
  of \<open>upgrades\<close>, which is the result \<open>None\<close>.
\<close>

definition selectUpgrade :: "string \<Rightarrow> State \<Rightarrow> State option" where
  "selectUpgrade i s =
     (if map_of (upgrades s) i = None \<and> i \<in> set objectPrototypeKeys then None
      else Some (s\<lparr> upgrades := AList.update i (upgradeLevel (upgrades s) i + 1) (upgrades s),
                    upgradeSelection := [] \<rparr>))"

text \<open>
  The only caller of \<open>selectUpgrade\<close> is the click handler of an offer (lines 750 to
  759). The offers are rendered only while \<open>upgradeSelection\<close> is not empty, one for
  each of its ids that is in the catalog; a click on the \<open>i\<close>-th offer, when there is
  one, selects its id, and there is nothing to click otherwise. (React renders again
  at the end of the handler of a click, before the next click is handled, so a click
  never finds an offer of a list that an earlier click has emptied.)
\<close>

definition clickOffer :: "nat \<Rightarrow> State \<Rightarrow> State option" where
  "clickOffer i s =
     (if i < length (upgradeSelection s) then
        (case getUpgradeById (upgradeSelection s ! i) of
           None \<Rightarrow> Some s
         | Some upgrade \<Rightarrow> selectUpgrade (u_id upgrade) s)
      else Some s)"

section \<open>Notions used to state the properties\<close>

text \<open>The player, an entity or a state with \<open>health.current\<close> set to a given value.\<close>

definition setHealth :: "int \<Rightarrow> Entity \<Rightarrow> Entity" where
  "setHealth h e = stats_update (health_update (current_update (\<lambda>_. h))) e"

definition addHealth :: "int \<Rightarrow> Entity \<Rightarrow> Entity" where
  "addHealth k e = stats_update (health_update (current_update (\<lambda>c. c + k))) e"

definition setPlayerHealth :: "int \<Rightarrow> State \<Rightarrow> State" where
  "setPlayerHealth h s = s\<lparr> player := setHealth h (player s) \<rparr>"

text \<open>
  The id that the \<open>k\<close>-th call of \<open>Math.random\<close> picks in the loop of
  \<open>getRandomUpgrades\<close>.
\<close>

definition pick :: "Upgrade list \<Rightarrow> (nat \<Rightarrow> real) \<Rightarrow> nat \<Rightarrow> string" where
  "pick available rnd k = u_id (available ! nat \<lfloor>rnd k * real (length available)\<rfloor>)"

text \<open>
  The heap holds the entity \<open>pl\<close> at the address \<open>a\<close>, its stats at \<open>st\<close>, their
  health at \<open>hp\<close>, their attack at \<open>ak\<close> and its cooldown at \<open>cd\<close>, the health and
  the cooldown being two objects.
\<close>

definition entityAt :: "Heap \<Rightarrow> nat \<Rightarrow> nat \<Rightarrow> nat \<Rightarrow> nat \<Rightarrow> nat \<Rightarrow> Entity \<Rightarrow> bool" where
  "entityAt h a st hp ak cd pl \<longleftrightarrow>
     lookup h a = Some (EntityCell (uuid pl) (name pl) st (e_x pl) (e_y pl) (face pl))
     \<and> lookup h st = Some (StatsCell (level (stats pl)) hp (speed (stats pl)) (radius (stats pl)) ak)
     \<and> lookup h hp = Some (CurrentMaxCell (current (health (stats pl))) (maximum (health (stats pl))))
     \<and> lookup h ak = Some (AttackCell (a_damage (attack (stats pl))) cd (a_range (attack (stats pl)))
                             (a_radius (attack (stats pl))) (projectileSpeed (attack (stats pl))))
     \<and> lookup h cd = Some (CurrentMaxCell (current (a_cooldown (attack (stats pl))))
                             (maximum (a_cooldown (attack (stats pl)))))
     \<and> hp \<noteq> cd"

text \<open>
  The test of the piercing branch (lines 356 to 358): the projectile overlaps the enemy
  and its hit cooldown for that enemy is 0 or not set.
\<close>

definition canDamage :: "Projectile \<Rightarrow> Entity \<Rightarrow> bool" where
  "canDamage p enemy \<longleftrightarrow>
     overlaps p enemy
     \<and> (entityHitCooldown p (uuid enemy) = Some 0 \<or> entityHitCooldown p (uuid enemy) = None)"

text \<open>
  Consecutive ticks as one projectile goes through them: each tick hands the projectile
  the effective player, the life steal flag, the player and the enemies of that tick
  (the enemies move, die and spawn between the ticks, so every tick has its own). The
  result is the projectile after the last tick, or \<open>None\<close> when a tick spliced it out.
\<close>

type_synonym TickEnv = "Entity \<times> bool \<times> Entity \<times> Entity list"

fun flight :: "string \<Rightarrow> Projectile \<Rightarrow> TickEnv list \<Rightarrow> Projectile option" where
  "flight playerUuid p [] = Some p"
| "flight playerUuid p ((pwu, lifeSteal, newPlayer, newEnemies) # rest) =
     (case processProjectile playerUuid pwu lifeSteal p newPlayer newEnemies of
        (None, _, _) \<Rightarrow> None
      | (Some p', _, _) \<Rightarrow> flight playerUuid p' rest)"

text \<open>The cooldown counter of an entity lies between 0 and the entity's stored maximum.\<close>

definition cooldownInRange :: "Entity \<Rightarrow> bool" where
  "cooldownInRange e \<longleftrightarrow>
     0 \<le> current (a_cooldown (attack (stats e)))
     \<and> current (a_cooldown (attack (stats e))) \<le> maximum (a_cooldown (attack (stats e)))"

text \<open>
  The states the program can be in: the state of the first render, and every state one
  of the effects, the interval timer or a click on an offer leaves, from a state the
  program can be in, whatever the inputs and the results of \<open>Math.random\<close> and
  \<open>uuidv4\<close>. (The order in which React runs them is not tracked: more states than the
  program really reaches are included.)
\<close>

inductive reachable :: "State \<Rightarrow> bool" where
  initial: "reachable (initialState new_uuid)"
| mount: "reachable s \<Longrightarrow> reachable (mountEffect inp s)"
| interval: "reachable s \<Longrightarrow> reachable (intervalTick s)"
| tick: "reachable s \<Longrightarrow> reachable (tickEffect inp s)"
| levelUp: "reachable s \<Longrightarrow> xpEffect inp s = Some (Inr s') \<Longrightarrow> reachable s'"
| click: "reachable s \<Longrightarrow> clickOffer i s = Some s' \<Longrightarrow> reachable s'"

section \<open>Example inputs and states\<close>

text \<open>
  Inputs with no key held, the mouse in the corner of an empty window (so the player
  aims along the angle 0), every call of \<open>Math.random\<close> returning 0 and the calls of
  \<open>uuidv4\<close> returning different strings.
\<close>

definition exampleInputs :: Inputs where
  "exampleInputs =
     \<lparr> key_w = False, key_a = False, key_s = False, key_d = False,
       mouse_x = 0, mouse_y = 0, innerWidth = 0, innerHeight = 0,
       random = (\<lambda>_. 0),
       uuidv4 = (\<lambda>k. ''id-'' @ replicate k (CHR ''x'')) \<rparr>"

text \<open>The state of the first render with the player's cooldown running, at tick 1.\<close>

definition quietState :: State where
  "quietState =
     (initialState ''player'')
       \<lparr> player := stats_update (attack_update (a_cooldown_update (current_update (\<lambda>_. 5))))
                      (player (initialState ''player'')),
         tick := 1 \<rparr>"

text \<open>A fruit worth 5 lies under the player, whose health is full.\<close>

definition pickupState :: State where
  "pickupState = quietState\<lparr> groundItems := [groundItem ''fruit'' Health 5 0 0] \<rparr>"

text \<open>Three upgrades are on offer.\<close>

definition pausedState :: State where
  "pausedState =
     quietState\<lparr> upgradeSelection := [''health'', ''attackRadius'', ''movementSpeed''] \<rparr>"

text \<open>
  An arrow of the player at the origin, flying along the angle 0, and skeletons on the
  horizontal axis.
\<close>

definition arrow :: Projectile where
  "arrow = projectile ''arrow'' ''player'' 0 0 1 0 2 16 200 False"

definition skeletonAt :: "string \<Rightarrow> real \<Rightarrow> Entity" where
  "skeletonAt new_uuid px = entity new_uuid ''skeleton'' px 0 DEFAULT_STATS"

text \<open>
  The player has no health left, and an enemy's projectile is about to reach him.
\<close>

definition woundedState :: State where
  "woundedState =
     quietState
       \<lparr> player := setHealth 0 (player quietState),
         projectiles := [projectile ''bolt'' ''skeleton-1'' (- 3) 0 1 0 3 10 30 False] \<rparr>"

text \<open>The quiet state and the paused state when the tick counter shows 100.\<close>

definition quietStateAt100 :: State where
  "quietStateAt100 = quietState\<lparr> tick := 100 \<rparr>"

definition pausedStateAt100 :: State where
  "pausedStateAt100 = pausedState\<lparr> tick := 100 \<rparr>"

text \<open>The quiet state at the tick 100 with a skeleton 1000 to the right of the player.\<close>

definition crowdedStateAt100 :: State where
  "crowdedStateAt100 = quietStateAt100\<lparr> enemies := [skeletonAt ''far'' 1000] \<rparr>"

text \<open>
  Results of \<open>Math.random\<close> for a level-up: the first two calls (the gates of the
  filter for the unique and the rare upgrade) return 0.9, the next five return 0, 0.1,
  0.2, 0.3 and 0.4, and every later call returns 0.
\<close>

definition levelUpRandom :: "nat \<Rightarrow> real" where
  "levelUpRandom k = (if k < 2 then 9 / 10 else if k < 7 then real (k - 2) / 10 else 0)"


definition levelUpInputs :: Inputs where
  "levelUpInputs = exampleInputs\<lparr> random := levelUpRandom \<rparr>"

text \<open>The quiet state with 11 points of XP, one more than the threshold of level 1.\<close>

definition levelUpState :: State where
  "levelUpState = quietState\<lparr> xp := 11 \<rparr>"

text \<open>The state after the tick effect has run once on the state of the first render.\<close>

definition afterFirstTick :: State where
  "afterFirstTick = tickEffect exampleInputs (initialState ''player'')"

text \<open>
  A piercing arrow of the player that stands still at the origin and never leaves its
  range, with the hit cooldown \<open>c\<close> for the enemy \<open>near\<close>; and a tick that hands it
  no enemy at all.
\<close>

definition stillArrow :: "int \<Rightarrow> Projectile" where
  "stillArrow c =
     (projectile ''still'' ''player'' 0 0 1 0 0 16 1000 True)
       \<lparr> entityHitCooldown := [''near'' \<mapsto> c] \<rparr>"

definition emptyTick :: TickEnv where
  "emptyTick = (player quietState, False, player quietState, [])"

text \<open>
  A heap that holds the player of the first render: the entity at the address 4, its
  stats at 3, their health at 0, their attack at 2 and its cooldown at 1. And upgrade
  levels: two levels of health and one of attack speed.
\<close>

definition exampleHeap :: Heap where
  "exampleHeap =
     [CurrentMaxCell 10 10, CurrentMaxCell 0 105, AttackCell 1 1 200 16 2,
      StatsCell 1 0 1 48 2, EntityCell ''player'' ''player'' 3 0 0 FaceRight]"

definition exampleUpgrades :: "(string \<times> int) list" where
  "exampleUpgrades = [(''health'', 2), (''attackSpeed'', 1)]"

section \<open>Basic facts\<close>

lemma distance_self: "distance px py px py = 0"
  by (simp add: distance_def)

lemma catalog_values:
  "(\<exists>u. getUpgradeById ''attackRadius'' = Some u \<and> valueOf u ''radius'' = Some 8)
   \<and> (\<exists>u. getUpgradeById ''movementSpeed'' = Some u \<and> valueOf u ''speed'' = Some 25)
   \<and> (\<exists>u. getUpgradeById ''health'' = Some u \<and> valueOf u ''health'' = Some 10)
   \<and> (\<exists>u. getUpgradeById ''attackDamage'' = Some u \<and> valueOf u ''damage'' = Some 1)
   \<and> (\<exists>u. getUpgradeById ''attackSpeed'' = Some u \<and> valueOf u ''speed'' = Some 5)"
  by (simp add: getUpgradeById_def UPGRADES_def valueOf_def)

subsection \<open>Setting and shifting the health\<close>

lemma setHealth_idem [simp]: "setHealth h (setHealth h' e) = setHealth h e"
  by (simp add: setHealth_def)

lemma setHealth_same [simp]: "setHealth (current (health (stats e))) e = e"
  by (simp add: setHealth_def)

lemma setHealth_fields [simp]:
  "uuid (setHealth h e) = uuid e" "name (setHealth h e) = name e"
  "e_x (setHealth h e) = e_x e" "e_y (setHealth h e) = e_y e" "face (setHealth h e) = face e"
  "level (stats (setHealth h e)) = level (stats e)"
  "speed (stats (setHealth h e)) = speed (stats e)"
  "radius (stats (setHealth h e)) = radius (stats e)"
  "attack (stats (setHealth h e)) = attack (stats e)"
  "maximum (health (stats (setHealth h e))) = maximum (health (stats e))"
  "current (health (stats (setHealth h e))) = h"
  by (simp_all add: setHealth_def)

lemma addHealth_fields [simp]:
  "uuid (addHealth h e) = uuid e" "name (addHealth h e) = name e"
  "e_x (addHealth h e) = e_x e" "e_y (addHealth h e) = e_y e" "face (addHealth h e) = face e"
  "level (stats (addHealth h e)) = level (stats e)"
  "speed (stats (addHealth h e)) = speed (stats e)"
  "radius (stats (addHealth h e)) = radius (stats e)"
  "attack (stats (addHealth h e)) = attack (stats e)"
  "maximum (health (stats (addHealth h e))) = maximum (health (stats e))"
  "current (health (stats (addHealth h e))) = current (health (stats e)) + h"
  by (simp_all add: addHealth_def)

lemma addHealth_add [simp]: "addHealth a (addHealth b e) = addHealth (b + a) e"
  by (simp add: addHealth_def)

lemma setHealth_addHealth [simp]: "setHealth h (addHealth k e) = setHealth h e"
  by (simp add: setHealth_def addHealth_def)

lemma addHealth_setHealth: "addHealth k (setHealth h e) = setHealth (h + k) e"
  by (simp add: setHealth_def addHealth_def)

lemma addHealth_as_setHealth: "addHealth k e = setHealth (current (health (stats e)) + k) e"
  by (simp add: setHealth_def addHealth_def)

lemma applyUpgrade_addHealth:
  "applyUpgrade entry (addHealth h e) = addHealth h (applyUpgrade entry e)"
  by (simp add: applyUpgrade_def addHealth_def split: prod.splits option.splits)

lemma playerWithUpgrades_addHealth:
  "playerWithUpgrades (addHealth h e) ups = addHealth h (playerWithUpgrades e ups)"
  unfolding playerWithUpgrades_def
  by (induction ups arbitrary: e) (simp_all add: applyUpgrade_addHealth)

subsection \<open>The tick changes nothing of the player but position, face, cooldown and health\<close>

lemma processHit_frame:
  "processHit ls p e pl = (e', pl') \<Longrightarrow> setHealth 0 pl' = setHealth 0 pl"
  by (auto simp: processHit_def setHealth_def)

lemma damageEnemies_frame:
  "damageEnemies ls p es pl = (p', es', pl', r) \<Longrightarrow> setHealth 0 pl' = setHealth 0 pl"
proof (induction es arbitrary: p pl p' es' pl' r)
  case Nil
  then show ?case by simp
next
  case (Cons e es)
  then show ?case
    by (auto split: prod.splits if_splits dest!: processHit_frame)
qed

lemma processProjectile_frame:
  "processProjectile u pwu ls p pl es = (k, pl', es') \<Longrightarrow> setHealth 0 pl' = setHealth 0 pl"
  by (auto simp: processProjectile_def Let_def setHealth_def split: prod.splits if_splits
      dest!: damageEnemies_frame)

lemma processProjectiles_frame:
  "processProjectiles u pwu ls ps pl es = (ps', pl', es') \<Longrightarrow> setHealth 0 pl' = setHealth 0 pl"
proof (induction ps arbitrary: pl es ps' pl' es')
  case Nil
  then show ?case by simp
next
  case (Cons p ps)
  then show ?case
    by (auto split: prod.splits dest!: processProjectile_frame)
qed

lemma groundItemStep_frame:
  "groundItemStep pwu g pl xpv = (k, pl', xpv') \<Longrightarrow> setHealth 0 pl' = setHealth 0 pl"
  by (auto simp: groundItemStep_def Let_def setHealth_def split: if_splits)

lemma processGroundItems_frame:
  "processGroundItems pwu gs pl xpv = (gs', pl', xpv') \<Longrightarrow> setHealth 0 pl' = setHealth 0 pl"
proof (induction gs arbitrary: pl xpv gs' pl' xpv')
  case Nil
  then show ?case by simp
next
  case (Cons g gs)
  then show ?case
    by (auto split: prod.splits dest!: groundItemStep_frame)
qed

subsection \<open>The tick never reads the health of the player\<close>

lemma processHit_shift:
  "processHit ls p e (addHealth k pl) =
     (case processHit ls p e pl of (e', pl') \<Rightarrow> (e', addHealth k pl'))"
  by (simp add: processHit_def addHealth_def)

lemma damageEnemies_shift:
  "damageEnemies ls p es (addHealth k pl) =
     (case damageEnemies ls p es pl of (p', es', pl', r) \<Rightarrow> (p', es', addHealth k pl', r))"
  by (induction es arbitrary: p pl) (auto simp: processHit_shift split: prod.splits)

lemma processProjectile_shift:
  "processProjectile u pwu ls p (addHealth k pl) es =
     (case processProjectile u pwu ls p pl es of (kept, pl', es') \<Rightarrow> (kept, addHealth k pl', es'))"
  by (simp add: processProjectile_def Let_def damageEnemies_shift split: prod.splits)

lemma processProjectiles_shift:
  "processProjectiles u pwu ls ps (addHealth k pl) es =
     (case processProjectiles u pwu ls ps pl es of (ps', pl', es') \<Rightarrow> (ps', addHealth k pl', es'))"
  by (induction ps arbitrary: pl es) (auto simp: processProjectile_shift split: prod.splits)

lemma groundItemStep_shift:
  "groundItemStep pwu g (addHealth k pl) xpv =
     (case groundItemStep pwu g pl xpv of (kept, pl', xpv') \<Rightarrow> (kept, addHealth k pl', xpv'))"
  by (auto simp: groundItemStep_def Let_def addHealth_def)

lemma processGroundItems_shift:
  "processGroundItems pwu gs (addHealth k pl) xpv =
     (case processGroundItems pwu gs pl xpv of (gs', pl', xpv') \<Rightarrow> (gs', addHealth k pl', xpv'))"
  by (induction gs arbitrary: pl xpv) (auto simp: groundItemStep_shift split: prod.splits)

lemma enemyStep_shift: "enemyStep inp pwu (addHealth k pl) e nr nu = enemyStep inp pwu pl e nr nu"
  by (simp add: enemyStep_def Let_def)

lemma processEnemies_shift:
  "processEnemies inp pwu (addHealth k pl) es nr nu = processEnemies inp pwu pl es nr nu"
  by (induction es arbitrary: nr nu) (simp_all add: enemyStep_shift)

lemma controls_shift: "controls inp pwu (addHealth k pl) = addHealth k (controls inp pwu pl)"
  by (simp add: controls_def Let_def addHealth_def)

lemma playerAutoAttack_shift:
  "playerAutoAttack inp ups pwu (addHealth k pl) nu =
     (case playerAutoAttack inp ups pwu pl nu of (pl', shot, nu') \<Rightarrow> (addHealth k pl', shot, nu'))"
  by (simp add: playerAutoAttack_def addHealth_def)

subsection \<open>The tick never reads the health of the effective player\<close>

lemma processProjectile_pwu:
  "processProjectile u (addHealth k pwu) ls p pl es = processProjectile u pwu ls p pl es"
  by (simp add: processProjectile_def Let_def)

lemma processProjectiles_pwu:
  "processProjectiles u (addHealth k pwu) ls ps pl es = processProjectiles u pwu ls ps pl es"
  by (induction ps arbitrary: pl es) (simp_all add: processProjectile_pwu)

lemma enemyStep_pwu: "enemyStep inp (addHealth k pwu) pl e nr nu = enemyStep inp pwu pl e nr nu"
  by (simp add: enemyStep_def Let_def)

lemma processEnemies_pwu:
  "processEnemies inp (addHealth k pwu) pl es nr nu = processEnemies inp pwu pl es nr nu"
  by (induction es arbitrary: nr nu) (simp_all add: enemyStep_pwu)

lemma groundItemStep_pwu: "groundItemStep (addHealth k pwu) g pl xpv = groundItemStep pwu g pl xpv"
  by (simp add: groundItemStep_def Let_def)

lemma processGroundItems_pwu:
  "processGroundItems (addHealth k pwu) gs pl xpv = processGroundItems pwu gs pl xpv"
  by (induction gs arbitrary: pl xpv) (simp_all add: groundItemStep_pwu)

lemma controls_pwu: "controls inp (addHealth k pwu) pl = controls inp pwu pl"
  by (simp add: controls_def Let_def)

lemma playerAutoAttack_pwu:
  "playerAutoAttack inp ups (addHealth k pwu) pl nu = playerAutoAttack inp ups pwu pl nu"
  by (simp add: playerAutoAttack_def)

lemma fixes_health_pwu: "fixes_health (addHealth k pwu) pl = fixes_health pwu pl"
  by (simp add: fixes_health_def)

subsection \<open>The effect, phase by phase\<close>

lemma tickEffect_cases:
  assumes "upgradeSelection s = []"
  obtains p2 shot nu1 ps1 p3 es1 es2 shots drops nr2 nu2 gs1 p4 xp1 where
    "playerAutoAttack inp (upgrades s) (playerWithUpgrades (player s) (upgrades s))
       (controls inp (playerWithUpgrades (player s) (upgrades s)) (player s)) 0 = (p2, shot, nu1)"
    "processProjectiles (uuid (player s)) (playerWithUpgrades (player s) (upgrades s))
       (hasUpgrade (upgrades s) ''lifeSteal'') (projectiles s @ shot) p2 (enemies s) = (ps1, p3, es1)"
    "processEnemies inp (playerWithUpgrades (player s) (upgrades s)) p3 es1 0 nu1
       = (es2, shots, drops, nr2, nu2)"
    "processGroundItems (playerWithUpgrades (player s) (upgrades s)) (groundItems s @ drops) p3 (xp s)
       = (gs1, p4, xp1)"
    "tickEffect inp s =
       s\<lparr> player := (fixes_health (playerWithUpgrades (player s) (upgrades s)) p4)
              \<lparr> face := (if innerWidth inp / 2 < mouse_x inp then FaceRight else FaceLeft) \<rparr>,
          enemies := es2 @ spawnEnemies inp (tick s) (player s) p4 nr2 nu2,
          projectiles := ps1 @ shots,
          groundItems := gs1,
          xp := xp1 \<rparr>"
proof -
  let ?pwu = "playerWithUpgrades (player s) (upgrades s)"
  obtain p2 shot nu1 where 1: "playerAutoAttack inp (upgrades s) ?pwu (controls inp ?pwu (player s)) 0 = (p2, shot, nu1)"
    by (cases "playerAutoAttack inp (upgrades s) ?pwu (controls inp ?pwu (player s)) 0") auto
  obtain ps1 p3 es1 where 2: "processProjectiles (uuid (player s)) ?pwu
       (hasUpgrade (upgrades s) ''lifeSteal'') (projectiles s @ shot) p2 (enemies s) = (ps1, p3, es1)"
    by (cases "processProjectiles (uuid (player s)) ?pwu
       (hasUpgrade (upgrades s) ''lifeSteal'') (projectiles s @ shot) p2 (enemies s)") auto
  obtain es2 shots drops nr2 nu2 where 3: "processEnemies inp ?pwu p3 es1 0 nu1 = (es2, shots, drops, nr2, nu2)"
    by (cases "processEnemies inp ?pwu p3 es1 0 nu1") auto
  obtain gs1 p4 xp1 where 4: "processGroundItems ?pwu (groundItems s @ drops) p3 (xp s) = (gs1, p4, xp1)"
    by (cases "processGroundItems ?pwu (groundItems s @ drops) p3 (xp s)") auto
  show thesis
    by (rule that[OF 1 2 3 4]) (simp add: tickEffect_def Let_def assms 1 2 3 4)
qed

lemma playerAutoAttack_frame:
  "playerAutoAttack inp ups pwu pl nu = (pl', shot, nu') \<Longrightarrow>
     health (stats pl') = health (stats pl)"
  by (auto simp: playerAutoAttack_def split: if_splits)

lemma controls_health [simp]: "health (stats (controls inp pwu pl)) = health (stats pl)"
  by (simp add: controls_def Let_def)

lemma setHealth_max_eq:
  "setHealth 0 a = setHealth 0 b \<Longrightarrow> maximum (health (stats a)) = maximum (health (stats b))"
  by (metis setHealth_fields(10))

lemma tick_health_max:
  assumes "upgradeSelection s = []"
  shows "maximum (health (stats (player (tickEffect inp s)))) = maximum (health (stats (player s)))"
proof -
  from assms obtain p2 shot nu1 ps1 p3 es1 es2 shots drops nr2 nu2 gs1 p4 xp1 where
    1: "playerAutoAttack inp (upgrades s) (playerWithUpgrades (player s) (upgrades s))
       (controls inp (playerWithUpgrades (player s) (upgrades s)) (player s)) 0 = (p2, shot, nu1)"
   and 2: "processProjectiles (uuid (player s)) (playerWithUpgrades (player s) (upgrades s))
       (hasUpgrade (upgrades s) ''lifeSteal'') (projectiles s @ shot) p2 (enemies s) = (ps1, p3, es1)"
   and 4: "processGroundItems (playerWithUpgrades (player s) (upgrades s)) (groundItems s @ drops) p3 (xp s)
       = (gs1, p4, xp1)"
   and 5: "tickEffect inp s =
       s\<lparr> player := (fixes_health (playerWithUpgrades (player s) (upgrades s)) p4)
              \<lparr> face := (if innerWidth inp / 2 < mouse_x inp then FaceRight else FaceLeft) \<rparr>,
          enemies := es2 @ spawnEnemies inp (tick s) (player s) p4 nr2 nu2,
          projectiles := ps1 @ shots,
          groundItems := gs1,
          xp := xp1 \<rparr>"
    by (rule tickEffect_cases[of s inp]) blast
  have "maximum (health (stats p4)) = maximum (health (stats p3))"
    using processGroundItems_frame[OF 4] by (rule setHealth_max_eq)
  also have "\<dots> = maximum (health (stats p2))"
    using processProjectiles_frame[OF 2] by (rule setHealth_max_eq)
  also have "\<dots> = maximum (health (stats (player s)))"
    using playerAutoAttack_frame[OF 1] by simp
  finally show ?thesis by (simp add: 5 fixes_health_def)
qed

lemma applyUpgrade_health_max:
  "maximum (health (stats (applyUpgrade entry e))) =
     maximum (health (stats e)) + (if fst entry = ''health'' then 10 * snd entry else 0)"
  by (cases entry) (simp add: applyUpgrade_def getUpgradeById_def UPGRADES_def valueOf_def split: option.splits)

lemma playerWithUpgrades_health_max:
  "maximum (health (stats (playerWithUpgrades e ups))) =
     maximum (health (stats e)) + 10 * sum_list (map snd (filter (\<lambda>entry. fst entry = ''health'') ups))"
  unfolding playerWithUpgrades_def
  by (induction ups arbitrary: e) (simp_all add: applyUpgrade_health_max)

lemma spawnEnemies_shift:
  "spawnEnemies inp t (addHealth k pl) (addHealth k' newPlayer) nr nu = spawnEnemies inp t pl newPlayer nr nu"
  by (simp add: spawnEnemies_def)

lemma fixes_health_addHealth:
  "fixes_health pwu (addHealth k p) = setHealth (min (current (health (stats p)) + k) (maximum (health (stats pwu)))) p"
  by (simp add: fixes_health_def addHealth_def setHealth_def)

lemma fixes_health_as_setHealth:
  "fixes_health pwu p = setHealth (min (current (health (stats p))) (maximum (health (stats pwu)))) p"
  by (simp add: fixes_health_def setHealth_def)

lemma setHealth_face: "setHealth h (e\<lparr> face := f \<rparr>) = (setHealth h e)\<lparr> face := f \<rparr>"
  by (simp add: setHealth_def)

lemma enemy_projectile_hit:
  assumes "caster p \<noteq> playerUuid"
    and "distance (p_x (moveProjectile p)) (p_y (moveProjectile p)) (e_x newPlayer) (e_y newPlayer)
           \<le> radius (stats pwu) + p_radius p"
  shows "processProjectile playerUuid pwu lifeSteal p newPlayer newEnemies
           = (None, addHealth (- 1) newPlayer, newEnemies)"
  using assms
  by (simp add: processProjectile_def Let_def reduceEntityHitCooldown_def moveProjectile_def addHealth_def)

lemma tickEffect_health_shift:
  assumes "upgradeSelection s = []"
  shows "\<exists>d. \<forall>h. tickEffect inp (setPlayerHealth h s)
           = setPlayerHealth
               (min (h + d) (maximum (health (stats (playerWithUpgrades (player s) (upgrades s))))))
               (tickEffect inp s)"
proof -
  let ?pwu = "playerWithUpgrades (player s) (upgrades s)"
  let ?c0 = "current (health (stats (player s)))"
  from assms obtain p2 shot nu1 ps1 p3 es1 es2 shots drops nr2 nu2 gs1 p4 xp1 where
    1: "playerAutoAttack inp (upgrades s) ?pwu (controls inp ?pwu (player s)) 0 = (p2, shot, nu1)"
   and 2: "processProjectiles (uuid (player s)) ?pwu
       (hasUpgrade (upgrades s) ''lifeSteal'') (projectiles s @ shot) p2 (enemies s) = (ps1, p3, es1)"
   and 3: "processEnemies inp ?pwu p3 es1 0 nu1 = (es2, shots, drops, nr2, nu2)"
   and 4: "processGroundItems ?pwu (groundItems s @ drops) p3 (xp s) = (gs1, p4, xp1)"
   and 5: "tickEffect inp s =
       s\<lparr> player := (fixes_health ?pwu p4)
              \<lparr> face := (if innerWidth inp / 2 < mouse_x inp then FaceRight else FaceLeft) \<rparr>,
          enemies := es2 @ spawnEnemies inp (tick s) (player s) p4 nr2 nu2,
          projectiles := ps1 @ shots,
          groundItems := gs1,
          xp := xp1 \<rparr>"
    by (rule tickEffect_cases[of s inp]) blast
  define d where "d = current (health (stats p4)) - ?c0"
  have "tickEffect inp (setPlayerHealth h s)
           = setPlayerHealth (min (h + d) (maximum (health (stats ?pwu)))) (tickEffect inp s)" for h
  proof -
    define k where "k = h - ?c0"
    have sh: "setPlayerHealth h s = s\<lparr> player := addHealth k (player s) \<rparr>"
      by (simp add: setPlayerHealth_def addHealth_as_setHealth k_def)
    have "tickEffect inp (s\<lparr> player := addHealth k (player s) \<rparr>) =
       s\<lparr> player := (fixes_health ?pwu (addHealth k p4))
              \<lparr> face := (if innerWidth inp / 2 < mouse_x inp then FaceRight else FaceLeft) \<rparr>,
          enemies := es2 @ spawnEnemies inp (tick s) (player s) p4 nr2 nu2,
          projectiles := ps1 @ shots,
          groundItems := gs1,
          xp := xp1 \<rparr>"
      by (simp add: tickEffect_def Let_def assms playerWithUpgrades_addHealth
          controls_pwu controls_shift playerAutoAttack_pwu playerAutoAttack_shift
          processProjectiles_pwu processProjectiles_shift processEnemies_pwu processEnemies_shift
          processGroundItems_pwu processGroundItems_shift spawnEnemies_shift fixes_health_pwu
          1 2 3 4)
    then have A: "tickEffect inp (setPlayerHealth h s) =
       s\<lparr> player := (fixes_health ?pwu (addHealth k p4))
              \<lparr> face := (if innerWidth inp / 2 < mouse_x inp then FaceRight else FaceLeft) \<rparr>,
          enemies := es2 @ spawnEnemies inp (tick s) (player s) p4 nr2 nu2,
          projectiles := ps1 @ shots,
          groundItems := gs1,
          xp := xp1 \<rparr>"
      by (simp only: sh)
    have hd: "current (health (stats p4)) + k = h + d"
      by (simp add: k_def d_def)
    have B: "setPlayerHealth (min (h + d) (maximum (health (stats ?pwu)))) (tickEffect inp s) =
       s\<lparr> player := (fixes_health ?pwu (addHealth k p4))
              \<lparr> face := (if innerWidth inp / 2 < mouse_x inp then FaceRight else FaceLeft) \<rparr>,
          enemies := es2 @ spawnEnemies inp (tick s) (player s) p4 nr2 nu2,
          projectiles := ps1 @ shots,
          groundItems := gs1,
          xp := xp1 \<rparr>"
      by (simp add: 5 setPlayerHealth_def fixes_health_addHealth fixes_health_as_setHealth
          setHealth_face hd)
    show ?thesis
      by (simp only: A B)
  qed
  then show ?thesis by blast
qed

lemma getUpgradeById_id: "getUpgradeById i = Some u \<Longrightarrow> u_id u = i"
  by (auto simp: getUpgradeById_def find_Some_iff)

lemma upgradeLevel_update:
  "upgradeLevel (AList.update i v ups) j = (if j = i then v else upgradeLevel ups j)"
  by (simp add: upgradeLevel_def update_conv')

lemma getUpgradeById_catalog: "getUpgradeById i = Some u \<Longrightarrow> u \<in> set UPGRADES"
  by (auto simp: getUpgradeById_def find_Some_iff)

lemma getUpgradeById_some: "u \<in> set UPGRADES \<Longrightarrow> getUpgradeById (u_id u) \<noteq> None"
  by (auto simp: getUpgradeById_def find_None_iff)

lemma catalog_ids_not_inherited: "u \<in> set UPGRADES \<Longrightarrow> u_id u \<notin> set objectPrototypeKeys"
  by (auto simp: UPGRADES_def objectPrototypeKeys_def)

lemma selectUpgrade_catalog:
  assumes "getUpgradeById i \<noteq> None"
  shows "selectUpgrade i s =
     Some (s\<lparr> upgrades := AList.update i (upgradeLevel (upgrades s) i + 1) (upgrades s),
               upgradeSelection := [] \<rparr>)"
proof -
  from assms obtain u where u: "getUpgradeById i = Some u"
    by auto
  then have "u_id u \<notin> set objectPrototypeKeys"
    by (intro catalog_ids_not_inherited getUpgradeById_catalog)
  with getUpgradeById_id[OF u] show ?thesis
    by (simp add: selectUpgrade_def)
qed

lemma clickOffer_offer:
  assumes "n < length (upgradeSelection s)" and "getUpgradeById (upgradeSelection s ! n) \<noteq> None"
  shows "clickOffer n s = selectUpgrade (upgradeSelection s ! n) s"
proof -
  from assms(2) obtain u where u: "getUpgradeById (upgradeSelection s ! n) = Some u"
    by auto
  then have "u_id u = upgradeSelection s ! n"
    by (rule getUpgradeById_id)
  with u assms(1) show ?thesis
    by (simp add: clickOffer_def)
qed

lemma clickOffer_no_offer:
  assumes "\<not> (n < length (upgradeSelection s) \<and> getUpgradeById (upgradeSelection s ! n) \<noteq> None)"
  shows "clickOffer n s = Some s"
  using assms by (auto simp: clickOffer_def)

lemma overlaps_reduce [simp]:
  "overlaps (reduceEntityHitCooldown p) e = overlaps p e"
  by (simp add: overlaps_def reduceEntityHitCooldown_def)

lemma damageEnemies_first:
  assumes "\<not> isPiercing p" "\<forall>e \<in> set before. \<not> overlaps p e" "overlaps p enemy"
  shows "damageEnemies ls p (before @ enemy # after) pl =
           (p, before @ addHealth (- p_damage p) enemy # after,
            (if ls then addHealth 1 pl else pl), True)"
  using assms by (induction before) (auto simp: processHit_def addHealth_def)

subsection \<open>Small facts for evaluating examples\<close>

lemma distance_same_y [simp]: "distance x1 py x2 py = \<bar>x1 - x2\<bar>"
  by (simp add: distance_def)

lemma playerWithUpgrades_Nil [simp]: "playerWithUpgrades e [] = e"
  by (simp add: playerWithUpgrades_def)

section \<open>Health, pause and blocking projectiles (claims C1, C8, C6, C10)\<close>

text \<open>
  Claim C1. After every tick that runs (no upgrade selection is pending), the player's
  \<open>health.current\<close> in the state the tick publishes is at most the effective
  \<open>health.max\<close>, the maximum of the player with the upgrades applied, whatever heals,
  pickups and hits happened during the tick.
\<close>

theorem tick_health_at_most_effective_max:
  assumes "upgradeSelection s = []"
  shows "current (health (stats (player (tickEffect inp s))))
           \<le> maximum (health (stats (playerWithUpgrades (player (tickEffect inp s))
                                        (upgrades (tickEffect inp s)))))"
proof -
  have ups: "upgrades (tickEffect inp s) = upgrades s"
    by (simp add: tickEffect_def Let_def split: prod.splits)
  have "current (health (stats (player (tickEffect inp s))))
          \<le> maximum (health (stats (playerWithUpgrades (player s) (upgrades s))))"
    using assms by (simp add: tickEffect_def Let_def fixes_health_def split: prod.splits)
  also have "\<dots> = maximum (health (stats (playerWithUpgrades (player (tickEffect inp s))
                                        (upgrades (tickEffect inp s)))))"
    by (simp add: playerWithUpgrades_health_max ups tick_health_max[OF assms])
  finally show ?thesis .
qed

text \<open>
  The witness: the player stands on a fruit worth 5 with full health 10 of 10; the pickup
  raises the health to 20 during the tick, and the published health is 10.
\<close>

theorem tick_health_at_most_effective_max_witness:
  "upgradeSelection pickupState = []
   \<and> current (health (stats (player (tickEffect exampleInputs pickupState))))
           \<le> maximum (health (stats (playerWithUpgrades (player (tickEffect exampleInputs pickupState))
                                        (upgrades (tickEffect exampleInputs pickupState)))))
   \<and> current (health (stats (player pickupState))) + 2 * g_value (hd (groundItems pickupState)) = 20
   \<and> groundItems (tickEffect exampleInputs pickupState) = []
   \<and> current (health (stats (player (tickEffect exampleInputs pickupState)))) = 10"
proof (intro conjI)
  show sel: "upgradeSelection pickupState = []"
    by (simp add: pickupState_def quietState_def initialState_def)
  show "current (health (stats (player (tickEffect exampleInputs pickupState))))
           \<le> maximum (health (stats (playerWithUpgrades (player (tickEffect exampleInputs pickupState))
                                        (upgrades (tickEffect exampleInputs pickupState)))))"
    by (rule tick_health_at_most_effective_max[OF sel])
  show "current (health (stats (player pickupState))) + 2 * g_value (hd (groundItems pickupState)) = 20"
    by (simp add: pickupState_def quietState_def initialState_def entity_def groundItem_def)
  show "groundItems (tickEffect exampleInputs pickupState) = []"
    by (simp add: tickEffect_def pickupState_def quietState_def initialState_def exampleInputs_def
        entity_def groundItem_def controls_def playerAutoAttack_def groundItemStep_def
        spawnEnemies_def fixes_health_def Let_def)
  show "current (health (stats (player (tickEffect exampleInputs pickupState)))) = 10"
    by (simp add: tickEffect_def pickupState_def quietState_def initialState_def exampleInputs_def
        entity_def groundItem_def controls_def playerAutoAttack_def groundItemStep_def
        spawnEnemies_def fixes_health_def Let_def)
qed

text \<open>
  Claim C8. While the upgrade selection list is not empty, the tick effect returns at its
  first line: the state it leaves is the state it found, so the player, every enemy, the
  projectiles, the ground items and the accumulated XP are all unchanged.
\<close>

theorem paused_tick_changes_nothing:
  "upgradeSelection s \<noteq> [] \<Longrightarrow> tickEffect inp s = s"
  by (simp add: tickEffect_def)

theorem paused_tick_changes_nothing_witness:
  "upgradeSelection pausedState \<noteq> [] \<and> tickEffect exampleInputs pausedState = pausedState"
proof (intro conjI)
  show pending: "upgradeSelection pausedState \<noteq> []"
    by (simp add: pausedState_def)
  show "tickEffect exampleInputs pausedState = pausedState"
    by (rule paused_tick_changes_nothing[OF pending])
qed

text \<open>
  Claim C6. A projectile of the player that does not pierce and, after its move of the
  tick, overlaps an enemy: the first such enemy in the order of the list loses exactly
  the projectile's damage, every other enemy is left as it was, and the projectile is
  spliced out at once, so the rest of the projectiles is processed as if it had never
  been in the list (with the life steal of the one hit, if the player has it).
\<close>

theorem nonpiercing_hits_first_overlapping_enemy:
  assumes "caster p0 = playerUuid" and "\<not> isPiercing p0"
    and "\<forall>e \<in> set before. \<not> overlaps (moveProjectile p0) e"
    and "overlaps (moveProjectile p0) enemy"
  shows "processProjectile playerUuid pwu lifeSteal p0 newPlayer (before @ enemy # after)
           = (None, (if lifeSteal then addHealth 1 newPlayer else newPlayer),
              before @ addHealth (- p_damage p0) enemy # after)
         \<and> processProjectiles playerUuid pwu lifeSteal (p0 # rest) newPlayer (before @ enemy # after)
           = processProjectiles playerUuid pwu lifeSteal rest
               (if lifeSteal then addHealth 1 newPlayer else newPlayer)
               (before @ addHealth (- p_damage p0) enemy # after)"
proof -
  let ?p = "reduceEntityHitCooldown (moveProjectile p0)"
  have "damageEnemies lifeSteal ?p (before @ enemy # after) newPlayer =
           (?p, before @ addHealth (- p_damage ?p) enemy # after,
            (if lifeSteal then addHealth 1 newPlayer else newPlayer), True)"
  proof (rule damageEnemies_first)
    show "\<not> isPiercing ?p"
      using assms(2) by (simp add: reduceEntityHitCooldown_def moveProjectile_def)
    show "\<forall>e \<in> set before. \<not> overlaps ?p e"
      using assms(3) by simp
    show "overlaps ?p enemy"
      using assms(4) by simp
  qed
  moreover have "p_damage ?p = p_damage p0" "caster ?p = playerUuid"
    using assms by (simp_all add: reduceEntityHitCooldown_def moveProjectile_def)
  ultimately have one: "processProjectile playerUuid pwu lifeSteal p0 newPlayer (before @ enemy # after)
           = (None, (if lifeSteal then addHealth 1 newPlayer else newPlayer),
              before @ addHealth (- p_damage p0) enemy # after)"
    by (simp add: processProjectile_def Let_def)
  then show ?thesis by simp
qed

lemma example_overlaps:
  "\<not> overlaps (moveProjectile arrow) (skeletonAt ''far'' 1000)"
  "overlaps (moveProjectile arrow) (skeletonAt ''near'' 2)"
  "overlaps (moveProjectile arrow) (skeletonAt ''behind'' 2)"
  by (simp_all add: overlaps_def moveProjectile_def arrow_def projectile_def skeletonAt_def
      entity_def DEFAULT_STATS_def)

text \<open>
  The witness: the arrow misses a far skeleton and overlaps two skeletons that stand at
  the same place; only the first of the two is hit, and the arrow is gone.
\<close>

theorem nonpiercing_hits_first_overlapping_enemy_witness:
  "caster arrow = ''player'' \<and> \<not> isPiercing arrow
   \<and> \<not> overlaps (moveProjectile arrow) (skeletonAt ''far'' 1000)
   \<and> overlaps (moveProjectile arrow) (skeletonAt ''near'' 2)
   \<and> overlaps (moveProjectile arrow) (skeletonAt ''behind'' 2)
   \<and> p_damage arrow = 1
   \<and> processProjectiles ''player'' (player quietState) False [arrow] (player quietState)
        [skeletonAt ''far'' 1000, skeletonAt ''near'' 2, skeletonAt ''behind'' 2]
       = ([], player quietState,
          [skeletonAt ''far'' 1000, addHealth (- 1) (skeletonAt ''near'' 2), skeletonAt ''behind'' 2])"
proof -
  have a: "caster arrow = ''player''" "\<not> isPiercing arrow" "p_damage arrow = 1"
    by (simp_all add: arrow_def projectile_def)
  have b: "\<forall>e \<in> set [skeletonAt ''far'' 1000]. \<not> overlaps (moveProjectile arrow) e"
    by (simp add: example_overlaps)
  from nonpiercing_hits_first_overlapping_enemy[OF a(1) a(2) b example_overlaps(2),
      of "player quietState" False "player quietState" "[skeletonAt ''behind'' 2]" "[]"]
  have "processProjectiles ''player'' (player quietState) False [arrow] (player quietState)
        [skeletonAt ''far'' 1000, skeletonAt ''near'' 2, skeletonAt ''behind'' 2]
       = ([], player quietState,
          [skeletonAt ''far'' 1000, addHealth (- 1) (skeletonAt ''near'' 2), skeletonAt ''behind'' 2])"
    by (simp add: a)
  with a example_overlaps show ?thesis by simp
qed

lemma tick_player_uuid:
  assumes "upgradeSelection s = []"
  shows "uuid (player (tickEffect inp s)) = uuid (player s)"
proof -
  let ?pwu = "playerWithUpgrades (player s) (upgrades s)"
  from assms obtain p2 shot nu1 ps1 p3 es1 es2 shots drops nr2 nu2 gs1 p4 xp1 where
    1: "playerAutoAttack inp (upgrades s) ?pwu (controls inp ?pwu (player s)) 0 = (p2, shot, nu1)"
   and 2: "processProjectiles (uuid (player s)) ?pwu
       (hasUpgrade (upgrades s) ''lifeSteal'') (projectiles s @ shot) p2 (enemies s) = (ps1, p3, es1)"
   and 4: "processGroundItems ?pwu (groundItems s @ drops) p3 (xp s) = (gs1, p4, xp1)"
   and 5: "tickEffect inp s =
       s\<lparr> player := (fixes_health ?pwu p4)
              \<lparr> face := (if innerWidth inp / 2 < mouse_x inp then FaceRight else FaceLeft) \<rparr>,
          enemies := es2 @ spawnEnemies inp (tick s) (player s) p4 nr2 nu2,
          projectiles := ps1 @ shots,
          groundItems := gs1,
          xp := xp1 \<rparr>"
    by (rule tickEffect_cases[of s inp]) blast
  have "uuid p4 = uuid p3"
    using processGroundItems_frame[OF 4] by (metis setHealth_fields(1))
  also have "\<dots> = uuid p2"
    using processProjectiles_frame[OF 2] by (metis setHealth_fields(1))
  also have "\<dots> = uuid (player s)"
    using 1 by (auto simp: playerAutoAttack_def controls_def Let_def split: if_splits)
  finally show ?thesis by (simp add: 5 fixes_health_def)
qed

text \<open>
  Claim C10. The tick never tests the player's health and never removes the player. In
  a tick that runs, the player keeps his identity, and for every start value \<open>h\<close> of
  \<open>health.current\<close>, negative ones too, the tick does the same to the whole state and
  leaves the health at \<open>min (h + d) max\<close>, where \<open>d\<close> (the heals less the hits of the
  tick) does not depend on \<open>h\<close> and \<open>max\<close> is the effective maximum: the only bound
  applied is the upper one. A projectile of an enemy that reaches the player takes 1
  from his health, whatever it is, and is spliced out.
\<close>

theorem player_health_has_no_lower_bound:
  "(upgradeSelection s = [] \<longrightarrow>
      uuid (player (tickEffect inp s)) = uuid (player s)
      \<and> (\<exists>d. \<forall>h. tickEffect inp (setPlayerHealth h s)
             = setPlayerHealth
                 (min (h + d) (maximum (health (stats (playerWithUpgrades (player s) (upgrades s))))))
                 (tickEffect inp s)))
   \<and> (caster p \<noteq> playerUuid
        \<and> distance (p_x (moveProjectile p)) (p_y (moveProjectile p)) (e_x newPlayer) (e_y newPlayer)
             \<le> radius (stats pwu) + p_radius p
      \<longrightarrow> processProjectile playerUuid pwu lifeSteal p newPlayer newEnemies
             = (None, addHealth (- 1) newPlayer, newEnemies))"
  using tickEffect_health_shift[of s inp] tick_player_uuid[of s inp]
    enemy_projectile_hit[of p playerUuid newPlayer pwu lifeSteal newEnemies]
  by blast

lemma woundedState_run:
  "tickEffect exampleInputs woundedState =
     woundedState\<lparr> player := stats_update (attack_update (a_cooldown_update (current_update (\<lambda>_. 4))))
                      (setHealth (- 1) (player quietState))\<lparr> face := FaceLeft \<rparr>,
                   projectiles := [] \<rparr>"
  by (simp add: tickEffect_def woundedState_def quietState_def initialState_def exampleInputs_def
        entity_def projectile_def controls_def playerAutoAttack_def processProjectile_def
        moveProjectile_def reduceEntityHitCooldown_def
        spawnEnemies_def fixes_health_def setHealth_def Let_def)

lemma woundedState_run2:
  "tickEffect exampleInputs (tickEffect exampleInputs woundedState) =
     woundedState\<lparr> player := stats_update (attack_update (a_cooldown_update (current_update (\<lambda>_. 3))))
                      (setHealth (- 1) (player quietState))\<lparr> face := FaceLeft \<rparr>,
                   projectiles := [] \<rparr>"
  unfolding woundedState_run
  by (simp add: tickEffect_def woundedState_def quietState_def initialState_def exampleInputs_def
        entity_def projectile_def controls_def playerAutoAttack_def processProjectile_def
        moveProjectile_def reduceEntityHitCooldown_def
        spawnEnemies_def fixes_health_def setHealth_def Let_def)

text \<open>
  The witness: the player has the health 0 and a bolt of a skeleton reaches him. The
  tick leaves the health at -1; the next tick runs as any other (the cooldown goes on
  counting down) and the health stays at -1.
\<close>

theorem player_health_has_no_lower_bound_witness:
  "upgradeSelection woundedState = []
   \<and> current (health (stats (player woundedState))) = 0
   \<and> uuid (player (tickEffect exampleInputs woundedState)) = uuid (player woundedState)
   \<and> (\<exists>d. \<forall>h. tickEffect exampleInputs (setPlayerHealth h woundedState)
             = setPlayerHealth (min (h + d) 10) (tickEffect exampleInputs woundedState))
   \<and> caster (hd (projectiles woundedState)) \<noteq> uuid (player woundedState)
   \<and> processProjectile (uuid (player woundedState)) (player woundedState) False
        (hd (projectiles woundedState)) (player woundedState) []
       = (None, addHealth (- 1) (player woundedState), [])
   \<and> current (health (stats (player (tickEffect exampleInputs woundedState)))) = - 1
   \<and> current (health (stats (player (tickEffect exampleInputs
          (tickEffect exampleInputs woundedState))))) = - 1
   \<and> current (a_cooldown (attack (stats (player (tickEffect exampleInputs
          (tickEffect exampleInputs woundedState)))))) = 3"
proof -
  have sel: "upgradeSelection woundedState = []"
    and h0: "current (health (stats (player woundedState))) = 0"
    and mx: "maximum (health (stats (playerWithUpgrades (player woundedState) (upgrades woundedState)))) = 10"
    and cst: "caster (hd (projectiles woundedState)) \<noteq> uuid (player woundedState)"
    and hit: "distance (p_x (moveProjectile (hd (projectiles woundedState))))
                (p_y (moveProjectile (hd (projectiles woundedState))))
                (e_x (player woundedState)) (e_y (player woundedState))
              \<le> radius (stats (player woundedState)) + p_radius (hd (projectiles woundedState))"
    by (simp_all add: woundedState_def quietState_def initialState_def entity_def setHealth_def
        projectile_def moveProjectile_def)
  note t = player_health_has_no_lower_bound[of woundedState exampleInputs
      "hd (projectiles woundedState)" "uuid (player woundedState)" "player woundedState"
      "player woundedState" False "[]"]
  have a: "uuid (player (tickEffect exampleInputs woundedState)) = uuid (player woundedState)"
    using t sel by blast
  have b: "\<exists>d. \<forall>h. tickEffect exampleInputs (setPlayerHealth h woundedState)
             = setPlayerHealth (min (h + d) 10) (tickEffect exampleInputs woundedState)"
    using t sel mx by simp
  have c: "processProjectile (uuid (player woundedState)) (player woundedState) False
        (hd (projectiles woundedState)) (player woundedState) []
       = (None, addHealth (- 1) (player woundedState), [])"
    using t cst hit by blast
  have d: "current (health (stats (player (tickEffect exampleInputs woundedState)))) = - 1"
    by (simp add: woundedState_run setHealth_def)
  have e: "current (health (stats (player (tickEffect exampleInputs
          (tickEffect exampleInputs woundedState))))) = - 1"
    "current (a_cooldown (attack (stats (player (tickEffect exampleInputs
          (tickEffect exampleInputs woundedState)))))) = 3"
    by (simp_all add: woundedState_run2 setHealth_def)
  from sel h0 a b cst c d e show ?thesis
    by (intro conjI)
qed

section \<open>The upgrade draw (claim C4)\<close>

lemma index_valid:
  assumes "0 \<le> (r::real)" "r < 1" "available \<noteq> []"
  shows "0 \<le> \<lfloor>r * real (length available)\<rfloor>"
    and "\<lfloor>r * real (length available)\<rfloor> < int (length available)"
proof -
  have len: "0 < real (length available)" using assms(3) by simp
  show "0 \<le> \<lfloor>r * real (length available)\<rfloor>"
    using assms(1) by simp
  have "r * real (length available) < real (length available)"
    using assms(2) len by simp
  then show "\<lfloor>r * real (length available)\<rfloor> < int (length available)"
    by (simp add: floor_less_iff)
qed

lemma index_in_range:
  "0 \<le> (i::int) \<and> i < int (length xs) \<Longrightarrow> nat i < length xs"
  by (simp add: nat_less_iff)

lemma pick_in_available:
  assumes "0 \<le> rnd k" "rnd k < 1" "available \<noteq> []"
  shows "pick available rnd k \<in> u_id ` set available"
proof -
  have "nat \<lfloor>rnd k * real (length available)\<rfloor> < length available"
    by (rule index_in_range) (use index_valid[OF assms] in blast)
  then show ?thesis
    by (simp add: pick_def)
qed


lemma drawUpgrades_result:
  assumes run: "drawUpgrades amount available rnd nr acc = Some (Inr ids)"
    and "distinct acc" and "length acc \<le> amount"
  shows "length ids = amount \<and> distinct ids \<and> set ids \<subseteq> set acc \<union> u_id ` set available"
proof -
  have "\<forall>ids. y = Inr ids \<longrightarrow> distinct acc \<longrightarrow> length acc \<le> amount \<longrightarrow>
          length ids = amount \<and> distinct ids \<and> set ids \<subseteq> set acc \<union> u_id ` set available"
    if "drawUpgrades amount available rnd nr acc = Some y" for y
  proof (rule drawUpgrades.raw_induct[where P = "\<lambda>amount available rnd nr acc y.
      \<forall>ids. y = Inr ids \<longrightarrow> distinct acc \<longrightarrow> length acc \<le> amount \<longrightarrow>
          length ids = amount \<and> distinct ids \<and> set ids \<subseteq> set acc \<union> u_id ` set available",
        OF _ that], goal_cases)
    case (1 f amount available rnd nr acc y)
    show ?case
    proof (intro allI impI)
      fix ids
      assume y: "y = Inr ids" and dist: "distinct acc" and len: "length acc \<le> amount"
      show "length ids = amount \<and> distinct ids \<and> set ids \<subseteq> set acc \<union> u_id ` set available"
      proof (cases "length acc < amount")
        case False
        with 1(2) y dist len show ?thesis by auto
      next
        case True
        let ?i = "\<lfloor>rnd nr * real (length available)\<rfloor>"
        from 1(2) True y have valid: "0 \<le> ?i \<and> ?i < int (length available)"
          by (auto simp: Let_def split: if_splits)
        then have "nat ?i < length available"
          by (rule index_in_range)
        then have mem: "u_id (available ! nat ?i) \<in> u_id ` set available"
          by simp
        show ?thesis
        proof (cases "u_id (available ! nat ?i) \<in> set acc")
          case True
          with 1(2) \<open>length acc < amount\<close> valid
          have "f amount available rnd (nr + 1) acc = Some y"
            by (simp add: Let_def)
          from 1(1)[OF this] y dist len show ?thesis by blast
        next
          case False
          with 1(2) \<open>length acc < amount\<close> valid
          have "f amount available rnd (nr + 1) (acc @ [u_id (available ! nat ?i)]) = Some y"
            by (simp add: Let_def)
          from 1(1)[OF this] y False dist \<open>length acc < amount\<close> mem show ?thesis
            by auto
        qed
      qed
    qed
  qed
  with assms show ?thesis by blast
qed

lemma drawUpgrades_diverges:
  assumes "\<forall>k. 0 \<le> rnd k \<and> rnd k < 1" and "available \<noteq> []" and "distinct acc"
    and "card (set acc \<union> pick available rnd ` {nr..}) < amount"
  shows "drawUpgrades amount available rnd nr acc = None"
proof (rule ccontr)
  assume "drawUpgrades amount available rnd nr acc \<noteq> None"
  then obtain y where run: "drawUpgrades amount available rnd nr acc = Some y"
    by auto
  have "(\<forall>k. 0 \<le> rnd k \<and> rnd k < 1) \<longrightarrow> available \<noteq> [] \<longrightarrow> distinct acc \<longrightarrow>
      card (set acc \<union> pick available rnd ` {nr..}) < amount \<longrightarrow> False"
  proof (rule drawUpgrades.raw_induct[where P = "\<lambda>amount available rnd nr acc y.
      (\<forall>k. 0 \<le> rnd k \<and> rnd k < 1) \<longrightarrow> available \<noteq> [] \<longrightarrow> distinct acc \<longrightarrow>
      card (set acc \<union> pick available rnd ` {nr..}) < amount \<longrightarrow> False", OF _ run], goal_cases)
    case (1 f amount available rnd nr acc y)
    show ?case
    proof (intro impI)
      assume valid: "\<forall>k. 0 \<le> rnd k \<and> rnd k < 1" and ne: "available \<noteq> []"
        and dist: "distinct acc"
        and small: "card (set acc \<union> pick available rnd ` {nr..}) < amount"
      have fin: "finite (set acc \<union> pick available rnd ` {nr..})"
      proof -
        have "pick available rnd ` {nr..} \<subseteq> u_id ` set available"
          using pick_in_available valid ne by blast
        then have "finite (pick available rnd ` {nr..})"
          by (rule finite_subset) simp
        then show ?thesis by simp
      qed
      have "card (set acc) \<le> card (set acc \<union> pick available rnd ` {nr..})"
        by (rule card_mono[OF fin]) simp
      with small dist have lt: "length acc < amount"
        by (simp add: distinct_card)
      have iv: "0 \<le> \<lfloor>rnd nr * real (length available)\<rfloor>
                \<and> \<lfloor>rnd nr * real (length available)\<rfloor> < int (length available)"
        using index_valid[of "rnd nr" available] valid ne by blast
      have sub: "{nr + 1..} \<subseteq> {nr..}" by auto
      show False
      proof (cases "pick available rnd nr \<in> set acc")
        case True
        with 1(2) lt iv have rec: "f amount available rnd (nr + 1) acc = Some y"
          by (simp add: Let_def pick_def)
        have "card (set acc \<union> pick available rnd ` {nr + 1..})
            \<le> card (set acc \<union> pick available rnd ` {nr..})"
          by (rule card_mono[OF fin]) (use image_mono[OF sub, of "pick available rnd"] in blast)
        with small have "card (set acc \<union> pick available rnd ` {nr + 1..}) < amount"
          by simp
        with 1(1)[OF rec] valid ne dist show False by blast
      next
        case False
        with 1(2) lt iv have rec:
          "f amount available rnd (nr + 1) (acc @ [pick available rnd nr]) = Some y"
          by (simp add: Let_def pick_def)
        have "card (set (acc @ [pick available rnd nr]) \<union> pick available rnd ` {nr + 1..})
            \<le> card (set acc \<union> pick available rnd ` {nr..})"
          by (rule card_mono[OF fin]) (use image_mono[OF sub, of "pick available rnd"] in auto)
        with small have "card (set (acc @ [pick available rnd nr])
            \<union> pick available rnd ` {nr + 1..}) < amount"
          by simp
        moreover have "distinct (acc @ [pick available rnd nr])"
          using dist False by simp
        ultimately show False
          using 1(1)[OF rec] valid ne by blast
      qed
    qed
  qed
  with assms show False by blast
qed


lemma availableUpgrades_subset:
  "availableUpgrades ups rnd catalog nr = (available, nr') \<Longrightarrow> set available \<subseteq> set catalog"
proof (induction catalog arbitrary: nr available nr')
  case Nil
  then show ?case by simp
next
  case (Cons u catalog)
  from Cons.prems show ?case
    by (auto split: if_splits prod.splits dest!: Cons.IH)
qed


lemma availableUpgrades_attackSpeed:
  assumes "availableUpgrades ups rnd UPGRADES nr0 = (available, nr)"
    and "''attackSpeed'' \<in> u_id ` set available"
  shows "upgradeLevel ups ''attackSpeed'' < 20"
  using assms
  by (auto simp: UPGRADES_def split: if_splits prod.splits)

lemma levelUp_available:
  "availableUpgrades [] levelUpRandom UPGRADES 0 = (take 5 UPGRADES, 2)"
  by (simp add: UPGRADES_def levelUpRandom_def upgradeLevel_def)

lemma levelUp_draw:
  "getRandomUpgrades 3 [] levelUpRandom = Some (Inr [''attackRadius'', ''movementSpeed'', ''health''])"
  by (simp add: getRandomUpgrades_def levelUp_available)
     (simp add: drawUpgrades.simps UPGRADES_def levelUpRandom_def Let_def)













lemma levelUp_run:
  "xpEffect levelUpInputs levelUpState =
     Some (Inr (levelUpState\<lparr> player := stats_update (level_update (\<lambda>l. l + 1)) (player levelUpState),
                              xp := 0,
                              upgradeSelection := [''attackRadius'', ''movementSpeed'', ''health''] \<rparr>))"
proof -
  have "upgrades levelUpState = []" "xp levelUpState = 11"
    "level (stats (player levelUpState)) = 1" "random levelUpInputs = levelUpRandom"
    by (simp_all add: levelUpState_def quietState_def initialState_def entity_def
        levelUpInputs_def exampleInputs_def)
  then show ?thesis
    by (simp add: xpEffect_def levelUp_draw)
qed

section \<open>Choosing an upgrade (claim C9)\<close>

lemma getRandomUpgrades_catalog:
  assumes "getRandomUpgrades amount ups rnd = Some (Inr ids)" and "i \<in> set ids"
  shows "getUpgradeById i \<noteq> None"
proof -
  obtain available nr where av: "availableUpgrades ups rnd UPGRADES 0 = (available, nr)"
    by (cases "availableUpgrades ups rnd UPGRADES 0") auto
  with assms(1) have "drawUpgrades amount available rnd nr [] = Some (Inr ids)"
    by (simp add: getRandomUpgrades_def)
  then have "set ids \<subseteq> u_id ` set available"
    using drawUpgrades_result[of amount available rnd nr "[]" ids] by simp
  with assms(2) availableUpgrades_subset[OF av] obtain u where "u \<in> set UPGRADES" "i = u_id u"
    by blast
  then show ?thesis
    by (simp add: getUpgradeById_some)
qed

text \<open>
  Claim C9. The event is a click on an offer: \<open>selectUpgrade\<close> has no other caller, and
  an offer is rendered only while the selection list is not empty, for an id of the
  list that is in the catalog. While no selection is pending there is no offer, and a
  click changes nothing. A click on the offer at the place \<open>n\<close> of a pending list calls
  \<open>selectUpgrade\<close> with the id at that place, which raises the level stored for that id
  by exactly 1, leaves every other level as it was, empties the selection list and
  changes nothing else. Every id that the draw of the level-up puts in the list is in
  the catalog, so every id of a pending list has its offer.
\<close>

theorem select_upgrade_only_while_pending:
  "(upgradeSelection s = [] \<longrightarrow> clickOffer n s = Some s)
   \<and> (n < length (upgradeSelection s) \<and> getUpgradeById (upgradeSelection s ! n) \<noteq> None \<longrightarrow>
        (\<exists>s'. clickOffer n s = Some s'
           \<and> selectUpgrade (upgradeSelection s ! n) s = Some s'
           \<and> upgradeLevel (upgrades s') (upgradeSelection s ! n)
               = upgradeLevel (upgrades s) (upgradeSelection s ! n) + 1
           \<and> (\<forall>j. j \<noteq> upgradeSelection s ! n \<longrightarrow> map_of (upgrades s') j = map_of (upgrades s) j)
           \<and> upgradeSelection s' = []
           \<and> s' = s\<lparr> upgrades := upgrades s', upgradeSelection := [] \<rparr>))
   \<and> (getRandomUpgrades 3 ups rnd = Some (Inr ids) \<and> i \<in> set ids \<longrightarrow> getUpgradeById i \<noteq> None)"
proof (intro conjI impI)
  assume "upgradeSelection s = []"
  then show "clickOffer n s = Some s"
    by (simp add: clickOffer_def)
next
  assume a: "n < length (upgradeSelection s) \<and> getUpgradeById (upgradeSelection s ! n) \<noteq> None"
  let ?i = "upgradeSelection s ! n"
  let ?s' = "s\<lparr> upgrades := AList.update ?i (upgradeLevel (upgrades s) ?i + 1) (upgrades s),
                 upgradeSelection := [] \<rparr>"
  from a have sel: "selectUpgrade ?i s = Some ?s'"
    by (intro selectUpgrade_catalog) simp
  from a have "clickOffer n s = selectUpgrade ?i s"
    by (intro clickOffer_offer) simp_all
  with sel have "clickOffer n s = Some ?s'"
    by simp
  moreover have "upgradeLevel (upgrades ?s') ?i = upgradeLevel (upgrades s) ?i + 1"
    by (simp add: upgradeLevel_update)
  moreover have "\<forall>j. j \<noteq> ?i \<longrightarrow> map_of (upgrades ?s') j = map_of (upgrades s) j"
    by (simp add: update_conv')
  moreover have "upgradeSelection ?s' = []" "?s' = s\<lparr> upgrades := upgrades ?s', upgradeSelection := [] \<rparr>"
    by simp_all
  ultimately show "\<exists>s'. clickOffer n s = Some s'
           \<and> selectUpgrade ?i s = Some s'
           \<and> upgradeLevel (upgrades s') ?i = upgradeLevel (upgrades s) ?i + 1
           \<and> (\<forall>j. j \<noteq> ?i \<longrightarrow> map_of (upgrades s') j = map_of (upgrades s) j)
           \<and> upgradeSelection s' = []
           \<and> s' = s\<lparr> upgrades := upgrades s', upgradeSelection := [] \<rparr>"
    using sel by blast
next
  assume "getRandomUpgrades 3 ups rnd = Some (Inr ids) \<and> i \<in> set ids"
  then show "getUpgradeById i \<noteq> None"
    using getRandomUpgrades_catalog[of 3 ups rnd ids i] by blast
qed

text \<open>
  The witness: in the quiet state nothing is pending and a click leaves the state as it
  is. In the paused state the first offer is the health upgrade, whose level is 0: the
  click stores the level 1 for it, stores nothing for the attack speed and empties the
  list. The three ids that the draw of the example level-up returns are in the catalog.
\<close>

theorem select_upgrade_only_while_pending_witness:
  "upgradeSelection quietState = [] \<and> clickOffer 0 quietState = Some quietState
   \<and> 0 < length (upgradeSelection pausedState)
   \<and> upgradeSelection pausedState ! 0 = ''health''
   \<and> getUpgradeById (upgradeSelection pausedState ! 0) \<noteq> None
   \<and> upgrades pausedState = []
   \<and> clickOffer 0 pausedState
       = Some (pausedState\<lparr> upgrades := [(''health'', 1)], upgradeSelection := [] \<rparr>)
   \<and> selectUpgrade ''health'' pausedState
       = Some (pausedState\<lparr> upgrades := [(''health'', 1)], upgradeSelection := [] \<rparr>)
   \<and> ''attackSpeed'' \<noteq> upgradeSelection pausedState ! 0
   \<and> map_of [(''health'', 1::int)] ''attackSpeed'' = map_of (upgrades pausedState) ''attackSpeed''
   \<and> getRandomUpgrades 3 [] levelUpRandom
        = Some (Inr [''attackRadius'', ''movementSpeed'', ''health''])
   \<and> ''movementSpeed'' \<in> set [''attackRadius'', ''movementSpeed'', ''health'']
   \<and> getUpgradeById ''movementSpeed'' \<noteq> None"
proof -
  have q: "upgradeSelection quietState = []"
    by (simp add: quietState_def initialState_def)
  have p: "0 < length (upgradeSelection pausedState)"
    "upgradeSelection pausedState ! 0 = ''health''"
    "getUpgradeById (upgradeSelection pausedState ! 0) \<noteq> None"
    "upgrades pausedState = []"
    by (simp_all add: pausedState_def quietState_def initialState_def getUpgradeById_def
        UPGRADES_def)
  have l0: "upgradeLevel (upgrades pausedState) ''health'' = 0"
    by (simp add: p(4) upgradeLevel_def)
  note t = select_upgrade_only_while_pending[of pausedState 0 "[]" levelUpRandom
      "[''attackRadius'', ''movementSpeed'', ''health'']" "''movementSpeed''"]
  note u = select_upgrade_only_while_pending[of quietState 0 "[]" levelUpRandom
      "[''attackRadius'', ''movementSpeed'', ''health'']" "''movementSpeed''"]
  have a: "clickOffer 0 quietState = Some quietState"
    using u q by blast
  from t p(1,3) obtain s' where s': "clickOffer 0 pausedState = Some s'"
    "selectUpgrade (upgradeSelection pausedState ! 0) pausedState = Some s'"
    "upgradeLevel (upgrades s') (upgradeSelection pausedState ! 0)
       = upgradeLevel (upgrades pausedState) (upgradeSelection pausedState ! 0) + 1"
    "\<forall>j. j \<noteq> upgradeSelection pausedState ! 0 \<longrightarrow> map_of (upgrades s') j = map_of (upgrades pausedState) j"
    "s' = pausedState\<lparr> upgrades := upgrades s', upgradeSelection := [] \<rparr>"
    by blast
  have sel: "selectUpgrade ''health'' pausedState
       = Some (pausedState\<lparr> upgrades := [(''health'', 1)], upgradeSelection := [] \<rparr>)"
    by (simp add: selectUpgrade_def p(4) upgradeLevel_def objectPrototypeKeys_def)
  with s'(2) p(2) have eq: "s' = pausedState\<lparr> upgrades := [(''health'', 1)], upgradeSelection := [] \<rparr>"
    by simp
  have b: "clickOffer 0 pausedState
       = Some (pausedState\<lparr> upgrades := [(''health'', 1)], upgradeSelection := [] \<rparr>)"
    using s'(1) eq by simp
  have c: "map_of [(''health'', 1::int)] ''attackSpeed'' = map_of (upgrades pausedState) ''attackSpeed''"
    using s'(4) p(2) eq by simp
  have d: "getUpgradeById ''movementSpeed'' \<noteq> None"
    using t levelUp_draw by simp
  have e: "''attackSpeed'' \<noteq> upgradeSelection pausedState ! 0"
    by (simp add: p(2))
  from q a p b sel e c levelUp_draw d show ?thesis
    by simp
qed

section \<open>Where enemies come from (claim C3)\<close>

lemma damageEnemies_uuids:
  "damageEnemies ls p es pl = (p', es', pl', r) \<Longrightarrow> map uuid es' = map uuid es"
proof (induction es arbitrary: p pl p' es' pl' r)
  case Nil
  then show ?case by simp
next
  case (Cons e es)
  then show ?case
    by (auto simp: processHit_def split: prod.splits if_splits)
qed

lemma processProjectile_uuids:
  "processProjectile u pwu ls p pl es = (k, pl', es') \<Longrightarrow> map uuid es' = map uuid es"
  by (auto simp: processProjectile_def Let_def split: prod.splits if_splits
      dest!: damageEnemies_uuids)

lemma processProjectiles_uuids:
  "processProjectiles u pwu ls ps pl es = (ps', pl', es') \<Longrightarrow> map uuid es' = map uuid es"
proof (induction ps arbitrary: pl es ps' pl' es')
  case Nil
  then show ?case by simp
next
  case (Cons p ps)
  then show ?case
    by (auto split: prod.splits dest!: processProjectile_uuids)
qed

lemma enemyStep_uuid:
  "enemyStep inp pwu pl e nr nu = (Some e', shots, drops, nr', nu') \<Longrightarrow> uuid e' = uuid e"
  by (auto simp: enemyStep_def Let_def split: if_splits)

lemma processEnemies_uuids:
  "processEnemies inp pwu pl es nr nu = (es', shots, drops, nr', nu')
     \<Longrightarrow> subseq (map uuid es') (map uuid es)"
proof (induction es arbitrary: nr nu es' shots drops nr' nu')
  case Nil
  then show ?case by simp
next
  case (Cons e es)
  then show ?case
    by (auto split: prod.splits option.splits dest!: enemyStep_uuid)
qed

lemma spawnEnemies_position:
  "e_x p = e_x p' \<Longrightarrow> e_y p = e_y p'
     \<Longrightarrow> spawnEnemies inp t pl p nr nu = spawnEnemies inp t pl p' nr nu"
  by (simp add: spawnEnemies_def)

lemma spawnEnemies_one:
  "\<exists>newEnemy. spawnEnemies inp 0 pl newPlayer nr nu = [newEnemy]
     \<and> uuid newEnemy = uuidv4 inp nu
     \<and> 0 < current (health (stats newEnemy))
     \<and> current (health (stats newEnemy)) = maximum (health (stats newEnemy))
     \<and> (\<forall>t. spawnEnemies inp t pl newPlayer nr nu = (if t mod 100 = 0 then [newEnemy] else []))"
proof -
  have "0 \<le> max 1 (level (stats pl) + rand (random inp (nr + 1)) (- 1) 1) div 4"
    by (simp add: pos_imp_zdiv_nonneg_iff)
  then show ?thesis
    by (intro exI[of _ "hd (spawnEnemies inp 0 pl newPlayer nr nu)"])
       (simp add: spawnEnemies_def Let_def)
qed

lemma tick_enemies:
  assumes "upgradeSelection s = []"
  shows "\<exists>survivors newEnemy nr nu.
           subseq (map uuid survivors) (map uuid (enemies s))
           \<and> spawnEnemies inp 0 (player s) (player (tickEffect inp s)) nr nu = [newEnemy]
           \<and> uuid newEnemy = uuidv4 inp nu
           \<and> 0 < current (health (stats newEnemy))
           \<and> current (health (stats newEnemy)) = maximum (health (stats newEnemy))
           \<and> (\<forall>t. enemies (tickEffect inp (s\<lparr> tick := t \<rparr>))
                    = survivors @ (if t mod 100 = 0 then [newEnemy] else []))"
proof -
  let ?pwu = "playerWithUpgrades (player s) (upgrades s)"
  from assms obtain p2 shot nu1 ps1 p3 es1 es2 shots drops nr2 nu2 gs1 p4 xp1 where
     1: "playerAutoAttack inp (upgrades s) ?pwu (controls inp ?pwu (player s)) 0 = (p2, shot, nu1)"
   and 2: "processProjectiles (uuid (player s)) ?pwu
       (hasUpgrade (upgrades s) ''lifeSteal'') (projectiles s @ shot) p2 (enemies s) = (ps1, p3, es1)"
   and 3: "processEnemies inp ?pwu p3 es1 0 nu1 = (es2, shots, drops, nr2, nu2)"
   and 4: "processGroundItems ?pwu (groundItems s @ drops) p3 (xp s) = (gs1, p4, xp1)"
   and 5: "tickEffect inp s =
       s\<lparr> player := (fixes_health ?pwu p4)
              \<lparr> face := (if innerWidth inp / 2 < mouse_x inp then FaceRight else FaceLeft) \<rparr>,
          enemies := es2 @ spawnEnemies inp (tick s) (player s) p4 nr2 nu2,
          projectiles := ps1 @ shots,
          groundItems := gs1,
          xp := xp1 \<rparr>"
    by (rule tickEffect_cases[of s inp]) blast
  have pos: "e_x (player (tickEffect inp s)) = e_x p4" "e_y (player (tickEffect inp s)) = e_y p4"
    by (simp_all add: 5 fixes_health_def)
  have run: "enemies (tickEffect inp (s\<lparr> tick := t \<rparr>))
      = es2 @ spawnEnemies inp t (player s) p4 nr2 nu2" for t
    by (simp add: tickEffect_def Let_def assms 1 2 3 4)
  have sub: "subseq (map uuid es2) (map uuid (enemies s))"
    using processEnemies_uuids[OF 3] processProjectiles_uuids[OF 2] by simp
  from spawnEnemies_one[of inp "player s" p4 nr2 nu2] obtain newEnemy where
    new: "uuid newEnemy = uuidv4 inp nu2" "0 < current (health (stats newEnemy))"
      "current (health (stats newEnemy)) = maximum (health (stats newEnemy))"
      "\<forall>t. spawnEnemies inp t (player s) p4 nr2 nu2 = (if t mod 100 = 0 then [newEnemy] else [])"
      and lit: "spawnEnemies inp 0 (player s) p4 nr2 nu2 = [newEnemy]"
    by blast
  from lit have lit': "spawnEnemies inp 0 (player s) (player (tickEffect inp s)) nr2 nu2 = [newEnemy]"
    using spawnEnemies_position[OF pos, of inp 0 "player s" nr2 nu2] by simp
  from new(4) have "\<forall>t. enemies (tickEffect inp (s\<lparr> tick := t \<rparr>))
      = es2 @ (if t mod 100 = 0 then [newEnemy] else [])"
    by (simp add: run)
  with sub new(1,2,3) lit' show ?thesis
    by blast
qed

text \<open>
  Claim C3, as the code has it. The claim says that exactly one enemy is created on
  each tick whose counter is a multiple of 100 and that nothing else ever creates an
  enemy. A tick at the counter 100 during which an upgrade selection is pending creates
  none, and the mount effect creates ten skeletons at the counter 0.
\<close>

theorem spawn_check_counterexample:
  "upgradeSelection pausedStateAt100 \<noteq> []
   \<and> tick pausedStateAt100 = 100
   \<and> enemies pausedStateAt100 = []
   \<and> enemies (tickEffect exampleInputs pausedStateAt100) = []
   \<and> tick (initialState ''player'') = 0
   \<and> enemies (initialState ''player'') = []
   \<and> length (enemies (mountEffect exampleInputs (initialState ''player''))) = 10"
  by (simp add: pausedStateAt100_def pausedState_def quietState_def initialState_def
      tickEffect_def mountEffect_def)

text \<open>
  Claim C3, amended. In a tick that runs (no selection pending) the enemies published
  are the survivors of the old ones, in their order, followed by one new enemy when the
  tick counter is a multiple of 100 (0 included) and by nothing otherwise. The
  survivors and the new enemy are the same whatever the counter shows: the counter
  decides nothing but whether the new enemy is added, and no number of survivors keeps
  it from being added. The new enemy is the entity that the object literal of the spawn
  check builds around the player the tick publishes, from a result of \<open>Math.random\<close>
  and one of \<open>uuidv4\<close>: it has the id of that call of \<open>uuidv4\<close> and its full health,
  which is positive. A tick during a pending selection leaves the enemies as
  they are, whatever the counter. Besides the spawn check the mount effect creates
  enemies: it replaces the list by ten skeletons. The interval timer, a click on an
  offer and the level-up leave the enemies as they are.
\<close>

theorem enemies_are_created_by_spawn_check_and_mount:
  "(upgradeSelection s = [] \<longrightarrow>
      (\<exists>survivors newEnemy nr nu.
           subseq (map uuid survivors) (map uuid (enemies s))
           \<and> spawnEnemies inp 0 (player s) (player (tickEffect inp s)) nr nu = [newEnemy]
           \<and> uuid newEnemy = uuidv4 inp nu
           \<and> 0 < current (health (stats newEnemy))
           \<and> current (health (stats newEnemy)) = maximum (health (stats newEnemy))
           \<and> enemies (tickEffect inp s)
               = survivors @ (if tick s mod 100 = 0 then [newEnemy] else [])
           \<and> (\<forall>t. enemies (tickEffect inp (s\<lparr> tick := t \<rparr>))
                    = survivors @ (if t mod 100 = 0 then [newEnemy] else []))))
   \<and> (upgradeSelection s \<noteq> [] \<longrightarrow> enemies (tickEffect inp s) = enemies s)
   \<and> map name (enemies (mountEffect inp s)) = replicate 10 ''skeleton''
   \<and> enemies (intervalTick s) = enemies s
   \<and> (clickOffer n s = Some s'' \<longrightarrow> enemies s'' = enemies s)
   \<and> (xpEffect inp s = Some (Inr s') \<longrightarrow> enemies s' = enemies s)"
proof -
  have "enemies s' = enemies s" if "xpEffect inp s = Some (Inr s')"
    using that by (auto simp: xpEffect_def split: if_splits option.splits sum.splits)
  moreover have "enemies s'' = enemies s" if "clickOffer n s = Some s''"
    using that by (auto simp: clickOffer_def selectUpgrade_def split: option.splits if_splits)
  moreover have "\<exists>survivors newEnemy nr nu.
           subseq (map uuid survivors) (map uuid (enemies s))
           \<and> spawnEnemies inp 0 (player s) (player (tickEffect inp s)) nr nu = [newEnemy]
           \<and> uuid newEnemy = uuidv4 inp nu
           \<and> 0 < current (health (stats newEnemy))
           \<and> current (health (stats newEnemy)) = maximum (health (stats newEnemy))
           \<and> enemies (tickEffect inp s)
               = survivors @ (if tick s mod 100 = 0 then [newEnemy] else [])
           \<and> (\<forall>t. enemies (tickEffect inp (s\<lparr> tick := t \<rparr>))
                    = survivors @ (if t mod 100 = 0 then [newEnemy] else []))"
    if sel: "upgradeSelection s = []"
  proof -
    from tick_enemies[OF sel, of inp] obtain survivors newEnemy nr nu where
      t: "subseq (map uuid survivors) (map uuid (enemies s))"
        "spawnEnemies inp 0 (player s) (player (tickEffect inp s)) nr nu = [newEnemy]"
        "uuid newEnemy = uuidv4 inp nu"
        "0 < current (health (stats newEnemy))"
        "current (health (stats newEnemy)) = maximum (health (stats newEnemy))"
        "\<forall>t. enemies (tickEffect inp (s\<lparr> tick := t \<rparr>))
                    = survivors @ (if t mod 100 = 0 then [newEnemy] else [])"
      by blast
    from t(6) have "enemies (tickEffect inp (s\<lparr> tick := tick s \<rparr>))
        = survivors @ (if tick s mod 100 = 0 then [newEnemy] else [])"
      by (rule spec)
    then have "enemies (tickEffect inp s)
        = survivors @ (if tick s mod 100 = 0 then [newEnemy] else [])"
      by simp
    with t show ?thesis by blast
  qed
  moreover have "map name (enemies (mountEffect inp s)) = replicate 10 ''skeleton''"
    by (simp add: mountEffect_def entity_def comp_def map_replicate_const)
  ultimately show ?thesis
    by (simp add: tickEffect_def intervalTick_def)
qed

lemma crowdedStateAt100_run:
  "enemies (tickEffect exampleInputs (crowdedStateAt100\<lparr> tick := t \<rparr>)) =
     (skeletonAt ''far'' 1000)\<lparr> e_x := 1000 - 25 / 100, face := FaceLeft \<rparr>
     # (if t mod 100 = 0 then
        [\<lparr> uuid = ''id-'', name = ''skeleton'',
           stats = \<lparr> level = 1, health = \<lparr> current = 1, maximum = 1 \<rparr>, speed = 27 / 100,
                     radius = 48,
                     attack = \<lparr> a_damage = 1, a_cooldown = \<lparr> current = 0, maximum = 100 \<rparr>,
                                a_range = 30, a_radius = 10, projectileSpeed = 3 \<rparr> \<rparr>,
           e_x = 0, e_y = 600, face = FaceRight \<rparr>]
      else [])"
  by (simp add: tickEffect_def crowdedStateAt100_def quietStateAt100_def quietState_def
        initialState_def exampleInputs_def skeletonAt_def DEFAULT_STATS_def
        entity_def controls_def playerAutoAttack_def enemyStep_def atan2_def distance_same_y
        spawnEnemies_def rand_def fixes_health_def Let_def)

text \<open>
  The witness: a skeleton stands 1000 to the right of the player. In a tick at the
  counter 100 it walks towards the player and a new skeleton of level 1 is added behind
  it; with the counter at 101 the same tick publishes the walking skeleton alone. The
  paused state gets no enemy at the counter 100; the mount effect makes ten skeletons;
  a click on an offer and the level-up make none.
\<close>

theorem enemies_are_created_by_spawn_check_and_mount_witness:
  "upgradeSelection crowdedStateAt100 = [] \<and> tick crowdedStateAt100 mod 100 = 0
   \<and> map uuid (enemies crowdedStateAt100) = [''far'']
   \<and> (\<exists>survivors newEnemy.
         subseq (map uuid survivors) (map uuid (enemies crowdedStateAt100))
         \<and> 0 < current (health (stats newEnemy))
         \<and> enemies (tickEffect exampleInputs crowdedStateAt100) = survivors @ [newEnemy]
         \<and> enemies (tickEffect exampleInputs (crowdedStateAt100\<lparr> tick := 101 \<rparr>)) = survivors)
   \<and> map uuid (enemies (tickEffect exampleInputs crowdedStateAt100)) = [''far'', ''id-'']
   \<and> map uuid (enemies (tickEffect exampleInputs (crowdedStateAt100\<lparr> tick := 101 \<rparr>))) = [''far'']
   \<and> upgradeSelection pausedStateAt100 \<noteq> []
   \<and> enemies (tickEffect exampleInputs pausedStateAt100) = enemies pausedStateAt100
   \<and> map name (enemies (mountEffect exampleInputs quietStateAt100)) = replicate 10 ''skeleton''
   \<and> clickOffer 0 pausedStateAt100
       = Some (pausedStateAt100\<lparr> upgrades := [(''health'', 1)], upgradeSelection := [] \<rparr>)
   \<and> enemies (pausedStateAt100\<lparr> upgrades := [(''health'', 1)], upgradeSelection := [] \<rparr>)
       = enemies pausedStateAt100
   \<and> xpEffect levelUpInputs levelUpState =
        Some (Inr (levelUpState\<lparr> player := stats_update (level_update (\<lambda>l. l + 1)) (player levelUpState),
                              xp := 0,
                              upgradeSelection := [''attackRadius'', ''movementSpeed'', ''health''] \<rparr>))
   \<and> enemies (levelUpState\<lparr> player := stats_update (level_update (\<lambda>l. l + 1)) (player levelUpState),
                              xp := 0,
                              upgradeSelection := [''attackRadius'', ''movementSpeed'', ''health''] \<rparr>)
       = enemies levelUpState"
proof -
  have c100: "upgradeSelection crowdedStateAt100 = []" "tick crowdedStateAt100 mod 100 = 0"
    "map uuid (enemies crowdedStateAt100) = [''far'']"
    by (simp_all add: crowdedStateAt100_def quietStateAt100_def quietState_def initialState_def
        skeletonAt_def entity_def)
  have p100: "upgradeSelection pausedStateAt100 \<noteq> []"
    by (simp add: pausedStateAt100_def pausedState_def)
  have click: "clickOffer 0 pausedStateAt100
       = Some (pausedStateAt100\<lparr> upgrades := [(''health'', 1)], upgradeSelection := [] \<rparr>)"
    by (simp add: clickOffer_def selectUpgrade_def pausedStateAt100_def pausedState_def
        quietState_def initialState_def getUpgradeById_def UPGRADES_def upgradeLevel_def
        objectPrototypeKeys_def)
  note tc = enemies_are_created_by_spawn_check_and_mount[where s = crowdedStateAt100
      and inp = exampleInputs]
  note tp = enemies_are_created_by_spawn_check_and_mount[where s = pausedStateAt100
      and inp = exampleInputs and n = 0
      and s'' = "pausedStateAt100\<lparr> upgrades := [(''health'', 1)], upgradeSelection := [] \<rparr>"]
  note tm = enemies_are_created_by_spawn_check_and_mount[where s = quietStateAt100
      and inp = exampleInputs]
  note tl = enemies_are_created_by_spawn_check_and_mount[where s = levelUpState
      and inp = levelUpInputs
      and s' = "levelUpState\<lparr> player := stats_update (level_update (\<lambda>l. l + 1)) (player levelUpState),
                              xp := 0,
                              upgradeSelection := [''attackRadius'', ''movementSpeed'', ''health''] \<rparr>"]
  from tc c100(1) obtain survivors newEnemy where
    sv: "subseq (map uuid survivors) (map uuid (enemies crowdedStateAt100))"
      "0 < current (health (stats newEnemy))"
      "enemies (tickEffect exampleInputs crowdedStateAt100)
         = survivors @ (if tick crowdedStateAt100 mod 100 = 0 then [newEnemy] else [])"
      "\<forall>t. enemies (tickEffect exampleInputs (crowdedStateAt100\<lparr> tick := t \<rparr>))
         = survivors @ (if t mod 100 = 0 then [newEnemy] else [])"
    by blast
  from sv(4) have "enemies (tickEffect exampleInputs (crowdedStateAt100\<lparr> tick := 101 \<rparr>))
         = survivors @ (if (101::nat) mod 100 = 0 then [newEnemy] else [])"
    by (rule spec)
  then have s101: "enemies (tickEffect exampleInputs (crowdedStateAt100\<lparr> tick := 101 \<rparr>)) = survivors"
    by simp
  from sv(3) c100(2) have s100: "enemies (tickEffect exampleInputs crowdedStateAt100)
         = survivors @ [newEnemy]"
    by simp
  from sv(1,2) s100 s101 have a: "\<exists>survivors newEnemy.
         subseq (map uuid survivors) (map uuid (enemies crowdedStateAt100))
         \<and> 0 < current (health (stats newEnemy))
         \<and> enemies (tickEffect exampleInputs crowdedStateAt100) = survivors @ [newEnemy]
         \<and> enemies (tickEffect exampleInputs (crowdedStateAt100\<lparr> tick := 101 \<rparr>)) = survivors"
    by blast
  have "crowdedStateAt100\<lparr> tick := 100 \<rparr> = crowdedStateAt100"
    by (simp add: crowdedStateAt100_def quietStateAt100_def)
  with crowdedStateAt100_run[of 100]
  have b: "map uuid (enemies (tickEffect exampleInputs crowdedStateAt100)) = [''far'', ''id-'']"
    by (simp add: skeletonAt_def entity_def)
  have b': "map uuid (enemies (tickEffect exampleInputs (crowdedStateAt100\<lparr> tick := 101 \<rparr>))) = [''far'']"
    by (simp add: crowdedStateAt100_run skeletonAt_def entity_def)
  have c: "enemies (tickEffect exampleInputs pausedStateAt100) = enemies pausedStateAt100"
    using tp p100 by blast
  have d: "map name (enemies (mountEffect exampleInputs quietStateAt100)) = replicate 10 ''skeleton''"
    using tm by blast
  have e: "enemies (pausedStateAt100\<lparr> upgrades := [(''health'', 1)], upgradeSelection := [] \<rparr>)
       = enemies pausedStateAt100"
    using tp click by blast
  have f: "enemies (levelUpState\<lparr> player := stats_update (level_update (\<lambda>l. l + 1)) (player levelUpState),
                              xp := 0,
                              upgradeSelection := [''attackRadius'', ''movementSpeed'', ''health''] \<rparr>)
       = enemies levelUpState"
    using tl levelUp_run by blast
  from c100 a b b' p100 c d click e levelUp_run f show ?thesis
    by (intro conjI)
qed

section \<open>Cooldowns (claim C2)\<close>

lemma applyUpgrade_cooldown_max:
  "maximum (a_cooldown (attack (stats (applyUpgrade entry e)))) =
     maximum (a_cooldown (attack (stats e))) - (if fst entry = ''attackSpeed'' then 5 * snd entry else 0)"
  by (cases entry) (simp add: applyUpgrade_def getUpgradeById_def UPGRADES_def valueOf_def split: option.splits)

lemma playerWithUpgrades_cooldown_max:
  "maximum (a_cooldown (attack (stats (playerWithUpgrades e ups)))) =
     maximum (a_cooldown (attack (stats e)))
       - 5 * sum_list (map snd (filter (\<lambda>entry. fst entry = ''attackSpeed'') ups))"
  unfolding playerWithUpgrades_def
  by (induction ups arbitrary: e) (simp_all add: applyUpgrade_cooldown_max)

lemma sum_levels_distinct:
  "distinct (map fst ups) \<Longrightarrow>
     sum_list (map snd (filter (\<lambda>entry. fst entry = k) ups)) = upgradeLevel ups k"
proof (induction ups)
  case Nil
  show ?case by (simp add: upgradeLevel_def)
next
  case (Cons entry ups)
  then have IH: "sum_list (map snd (filter (\<lambda>entry. fst entry = k) ups)) = upgradeLevel ups k"
    by simp
  show ?case
  proof (cases "fst entry = k")
    case True
    with Cons.prems have "k \<notin> fst ` set ups" by auto
    then have "map_of ups k = None"
      by (simp add: map_of_eq_None_iff)
    then have "upgradeLevel ups k = 0"
      by (simp add: upgradeLevel_def)
    with True IH show ?thesis
      by (cases entry) (simp add: upgradeLevel_def)
  next
    case False
    with IH show ?thesis
      by (cases entry) (auto simp: upgradeLevel_def)
  qed
qed

lemma effective_cooldown_max:
  "distinct (map fst ups) \<Longrightarrow>
     maximum (a_cooldown (attack (stats (playerWithUpgrades e ups)))) =
       maximum (a_cooldown (attack (stats e))) - 5 * upgradeLevel ups ''attackSpeed''"
  by (simp add: playerWithUpgrades_cooldown_max sum_levels_distinct)

lemma cooldownInRange_attack:
  "attack (stats a) = attack (stats b) \<Longrightarrow> cooldownInRange a = cooldownInRange b"
  by (simp add: cooldownInRange_def)

lemma damageEnemies_attacks:
  "damageEnemies ls p es pl = (p', es', pl', r) \<Longrightarrow>
     map (\<lambda>e. attack (stats e)) es' = map (\<lambda>e. attack (stats e)) es"
proof (induction es arbitrary: p pl p' es' pl' r)
  case Nil
  then show ?case by simp
next
  case (Cons e es)
  then show ?case
    by (auto simp: processHit_def split: prod.splits if_splits)
qed

lemma processProjectile_attacks:
  "processProjectile u pwu ls p pl es = (k, pl', es') \<Longrightarrow>
     map (\<lambda>e. attack (stats e)) es' = map (\<lambda>e. attack (stats e)) es"
  by (auto simp: processProjectile_def Let_def split: prod.splits if_splits
      dest!: damageEnemies_attacks)

lemma processProjectiles_attacks:
  "processProjectiles u pwu ls ps pl es = (ps', pl', es') \<Longrightarrow>
     map (\<lambda>e. attack (stats e)) es' = map (\<lambda>e. attack (stats e)) es"
proof (induction ps arbitrary: pl es ps' pl' es')
  case Nil
  then show ?case by simp
next
  case (Cons p ps)
  then show ?case
    by (auto split: prod.splits dest!: processProjectile_attacks)
qed

lemma all_cooldownInRange_attacks:
  assumes "map (\<lambda>e. attack (stats e)) es' = map (\<lambda>e. attack (stats e)) es"
    and "\<forall>e \<in> set es. cooldownInRange e"
  shows "\<forall>e \<in> set es'. cooldownInRange e"
proof -
  have "(\<forall>e \<in> set xs. cooldownInRange e) \<longleftrightarrow>
        (\<forall>a \<in> set (map (\<lambda>e. attack (stats e)) xs).
            0 \<le> current (a_cooldown a) \<and> current (a_cooldown a) \<le> maximum (a_cooldown a))" for xs
    by (simp add: cooldownInRange_def)
  with assms show ?thesis by metis
qed

lemma enemyStep_cooldown:
  "enemyStep inp pwu pl e nr nu = (Some e', shots, drops, nr', nu') \<Longrightarrow>
     cooldownInRange e \<Longrightarrow> cooldownInRange e'"
  by (auto simp: enemyStep_def Let_def cooldownInRange_def split: if_splits)

lemma processEnemies_cooldown:
  "processEnemies inp pwu pl es nr nu = (es', shots, drops, nr', nu') \<Longrightarrow>
     \<forall>e \<in> set es. cooldownInRange e \<Longrightarrow> \<forall>e \<in> set es'. cooldownInRange e"
proof (induction es arbitrary: nr nu es' shots drops nr' nu')
  case Nil
  then show ?case by simp
next
  case (Cons e es)
  then show ?case
    by (auto split: prod.splits option.splits dest: enemyStep_cooldown)
qed

lemma spawnEnemies_cooldown:
  "\<forall>e \<in> set (spawnEnemies inp t pl newPlayer nr nu). cooldownInRange e"
  by (simp add: spawnEnemies_def Let_def cooldownInRange_def)

lemma mountEffect_cooldown:
  "\<forall>e \<in> set (enemies (mountEffect inp s)). cooldownInRange e"
  by (simp add: mountEffect_def cooldownInRange_def entity_def DEFAULT_STATS_def)

lemma playerAutoAttack_cooldown:
  assumes "playerAutoAttack inp ups pwu pl nu = (pl', shot, nu')"
  shows "maximum (a_cooldown (attack (stats pl'))) = maximum (a_cooldown (attack (stats pl)))"
    and "current (a_cooldown (attack (stats pl'))) =
           (if current (a_cooldown (attack (stats pl))) = 0
            then maximum (a_cooldown (attack (stats pwu)))
            else current (a_cooldown (attack (stats pl))) - 1)"
  using assms by (auto simp: playerAutoAttack_def split: if_splits)

lemma setHealth_attack_eq:
  "setHealth 0 a = setHealth 0 b \<Longrightarrow> attack (stats a) = attack (stats b)"
  by (metis setHealth_fields(9))

lemma controls_attack [simp]: "attack (stats (controls inp pwu pl)) = attack (stats pl)"
  by (simp add: controls_def Let_def)

lemma tick_player_attack:
  assumes "upgradeSelection s = []"
  shows "maximum (a_cooldown (attack (stats (player (tickEffect inp s)))))
           = maximum (a_cooldown (attack (stats (player s))))"
    and "current (a_cooldown (attack (stats (player (tickEffect inp s))))) =
           (if current (a_cooldown (attack (stats (player s)))) = 0
            then maximum (a_cooldown (attack (stats (playerWithUpgrades (player s) (upgrades s)))))
            else current (a_cooldown (attack (stats (player s)))) - 1)"
proof -
  let ?pwu = "playerWithUpgrades (player s) (upgrades s)"
  from assms obtain p2 shot nu1 ps1 p3 es1 es2 shots drops nr2 nu2 gs1 p4 xp1 where
    1: "playerAutoAttack inp (upgrades s) ?pwu (controls inp ?pwu (player s)) 0 = (p2, shot, nu1)"
   and 2: "processProjectiles (uuid (player s)) ?pwu
       (hasUpgrade (upgrades s) ''lifeSteal'') (projectiles s @ shot) p2 (enemies s) = (ps1, p3, es1)"
   and 4: "processGroundItems ?pwu (groundItems s @ drops) p3 (xp s) = (gs1, p4, xp1)"
   and 5: "tickEffect inp s =
       s\<lparr> player := (fixes_health ?pwu p4)
              \<lparr> face := (if innerWidth inp / 2 < mouse_x inp then FaceRight else FaceLeft) \<rparr>,
          enemies := es2 @ spawnEnemies inp (tick s) (player s) p4 nr2 nu2,
          projectiles := ps1 @ shots,
          groundItems := gs1,
          xp := xp1 \<rparr>"
    by (rule tickEffect_cases[of s inp]) blast
  have "attack (stats p4) = attack (stats p3)"
    using processGroundItems_frame[OF 4] by (rule setHealth_attack_eq)
  also have "\<dots> = attack (stats p2)"
    using processProjectiles_frame[OF 2] by (rule setHealth_attack_eq)
  finally have eq: "attack (stats (player (tickEffect inp s))) = attack (stats p2)"
    by (simp add: 5 fixes_health_def)
  show "maximum (a_cooldown (attack (stats (player (tickEffect inp s)))))
           = maximum (a_cooldown (attack (stats (player s))))"
    using playerAutoAttack_cooldown(1)[OF 1] by (simp add: eq)
  show "current (a_cooldown (attack (stats (player (tickEffect inp s))))) =
           (if current (a_cooldown (attack (stats (player s)))) = 0
            then maximum (a_cooldown (attack (stats ?pwu)))
            else current (a_cooldown (attack (stats (player s)))) - 1)"
    using playerAutoAttack_cooldown(2)[OF 1] by (simp add: eq)
qed

lemma tick_enemies_cooldown:
  assumes "upgradeSelection s = []" and "\<forall>e \<in> set (enemies s). cooldownInRange e"
  shows "\<forall>e \<in> set (enemies (tickEffect inp s)). cooldownInRange e"
proof -
  let ?pwu = "playerWithUpgrades (player s) (upgrades s)"
  from assms(1) obtain p2 shot nu1 ps1 p3 es1 es2 shots drops nr2 nu2 gs1 p4 xp1 where
     2: "processProjectiles (uuid (player s)) ?pwu
       (hasUpgrade (upgrades s) ''lifeSteal'') (projectiles s @ shot) p2 (enemies s) = (ps1, p3, es1)"
   and 3: "processEnemies inp ?pwu p3 es1 0 nu1 = (es2, shots, drops, nr2, nu2)"
   and 5: "tickEffect inp s =
       s\<lparr> player := (fixes_health ?pwu p4)
              \<lparr> face := (if innerWidth inp / 2 < mouse_x inp then FaceRight else FaceLeft) \<rparr>,
          enemies := es2 @ spawnEnemies inp (tick s) (player s) p4 nr2 nu2,
          projectiles := ps1 @ shots,
          groundItems := gs1,
          xp := xp1 \<rparr>"
    by (rule tickEffect_cases[of s inp]) blast
  have "\<forall>e \<in> set es1. cooldownInRange e"
    using all_cooldownInRange_attacks[OF processProjectiles_attacks[OF 2] assms(2)] .
  then have "\<forall>e \<in> set es2. cooldownInRange e"
    by (rule processEnemies_cooldown[OF 3])
  with spawnEnemies_cooldown[of inp "tick s" "player s" p4 nr2 nu2] show ?thesis
    by (auto simp: 5)
qed

lemma getRandomUpgrades_attackSpeed:
  assumes "getRandomUpgrades amount ups rnd = Some (Inr ids)" and "''attackSpeed'' \<in> set ids"
  shows "upgradeLevel ups ''attackSpeed'' < 20"
proof -
  obtain available nr where av: "availableUpgrades ups rnd UPGRADES 0 = (available, nr)"
    by (cases "availableUpgrades ups rnd UPGRADES 0") auto
  with assms(1) have "drawUpgrades amount available rnd nr [] = Some (Inr ids)"
    by (simp add: getRandomUpgrades_def)
  then have "set ids \<subseteq> u_id ` set available"
    using drawUpgrades_result[of amount available rnd nr "[]" ids] by simp
  with assms(2) have "''attackSpeed'' \<in> u_id ` set available"
    by blast
  then show ?thesis
    by (rule availableUpgrades_attackSpeed[OF av])
qed

lemma tick_upgrades [simp]:
  "upgrades (tickEffect inp s) = upgrades s"
  "upgradeSelection (tickEffect inp s) = upgradeSelection s"
  by (simp_all add: tickEffect_def Let_def split: prod.splits)

lemma reachable_invariant:
  "reachable s \<Longrightarrow>
     cooldownInRange (player s)
     \<and> maximum (a_cooldown (attack (stats (player s)))) = 105
     \<and> (\<forall>e \<in> set (enemies s). cooldownInRange e)
     \<and> distinct (map fst (upgrades s))
     \<and> 0 \<le> upgradeLevel (upgrades s) ''attackSpeed''
     \<and> upgradeLevel (upgrades s) ''attackSpeed'' \<le> 20
     \<and> (''attackSpeed'' \<in> set (upgradeSelection s) \<longrightarrow> upgradeLevel (upgrades s) ''attackSpeed'' < 20)"
proof (induction rule: reachable.induct)
  case (initial new_uuid)
  show ?case
    by (simp add: initialState_def entity_def cooldownInRange_def upgradeLevel_def)
next
  case (mount s inp)
  then show ?case
    using mountEffect_cooldown[of inp s] by (simp add: mountEffect_def)
next
  case (interval s)
  then show ?case by (simp add: intervalTick_def)
next
  case (tick s inp)
  show ?case
  proof (cases "upgradeSelection s = []")
    case False
    with tick.IH show ?thesis by (simp add: tickEffect_def)
  next
    case True
    let ?L = "upgradeLevel (upgrades s) ''attackSpeed''"
    from tick.IH have eff: "maximum (a_cooldown (attack (stats (playerWithUpgrades (player s) (upgrades s)))))
        = 105 - 5 * ?L"
      by (simp add: effective_cooldown_max)
    have "cooldownInRange (player (tickEffect inp s))"
      using tick.IH tick_player_attack[OF True, of inp] eff
      by (auto simp: cooldownInRange_def)
    moreover have "\<forall>e \<in> set (enemies (tickEffect inp s)). cooldownInRange e"
      using tick.IH by (intro tick_enemies_cooldown[OF True]) blast
    ultimately show ?thesis
      using tick.IH tick_player_attack(1)[OF True, of inp] by simp
  qed
next
  case (levelUp s inp s')
  show ?case
  proof (cases "level (stats (player s)) * 10 \<le> xp s")
    case False
    with levelUp show ?thesis by (simp add: xpEffect_def)
  next
    case True
    with levelUp.hyps(2) obtain selection where
      sel: "getRandomUpgrades 3 (upgrades s) (random inp) = Some (Inr selection)"
      and s': "s' = s\<lparr> player := stats_update (level_update (\<lambda>l. l + 1)) (player s),
                            xp := 0, upgradeSelection := selection \<rparr>"
      by (auto simp: xpEffect_def split: option.splits sum.splits)
    have "''attackSpeed'' \<in> set selection \<longrightarrow> upgradeLevel (upgrades s) ''attackSpeed'' < 20"
      using getRandomUpgrades_attackSpeed[OF sel] by blast
    with levelUp.IH show ?thesis
      by (simp add: s' cooldownInRange_def)
  qed
next
  case (click s i s')
  show ?case
  proof (cases "i < length (upgradeSelection s) \<and> getUpgradeById (upgradeSelection s ! i) \<noteq> None")
    case False
    then have "clickOffer i s = Some s"
      by (rule clickOffer_no_offer)
    with click.hyps(2) click.IH show ?thesis by simp
  next
    case True
    from True have mem: "upgradeSelection s ! i \<in> set (upgradeSelection s)" by simp
    have "clickOffer i s = selectUpgrade (upgradeSelection s ! i) s"
      using True by (intro clickOffer_offer) simp_all
    also have "\<dots> = Some (s\<lparr> upgrades := AList.update (upgradeSelection s ! i)
          (upgradeLevel (upgrades s) (upgradeSelection s ! i) + 1) (upgrades s),
        upgradeSelection := [] \<rparr>)"
      using True by (intro selectUpgrade_catalog) simp
    finally have eq: "s' = s\<lparr> upgrades := AList.update (upgradeSelection s ! i)
          (upgradeLevel (upgrades s) (upgradeSelection s ! i) + 1) (upgrades s),
        upgradeSelection := [] \<rparr>"
      using click.hyps(2) by simp
    show ?thesis
      using click.IH mem
      by (auto simp: eq upgradeLevel_update distinct_update)
  qed
qed

lemma enemyStep_attack:
  assumes "enemyStep inp pwu newPlayer enemy nr nu = (Some enemy', shots, drops, nr', nu')"
    and "\<not> a_range (attack (stats enemy))
           < distance (e_x newPlayer) (e_y newPlayer) (e_x enemy) (e_y enemy)
               - radius (stats pwu) - radius (stats enemy)"
  shows "(current (a_cooldown (attack (stats enemy))) = 0 \<longrightarrow>
            length shots = 1
            \<and> current (a_cooldown (attack (stats enemy'))) = maximum (a_cooldown (attack (stats enemy))))
       \<and> (current (a_cooldown (attack (stats enemy))) \<noteq> 0 \<longrightarrow>
            shots = []
            \<and> current (a_cooldown (attack (stats enemy')))
                = current (a_cooldown (attack (stats enemy))) - 1)"
  using assms by (auto simp: enemyStep_def Let_def split: if_splits)

lemma tick_projectiles:
  assumes "upgradeSelection s = []"
  shows "(\<exists>pl' shot k' kept pl'' es' enemyShots.
       playerAutoAttack inp (upgrades s) (playerWithUpgrades (player s) (upgrades s))
           (controls inp (playerWithUpgrades (player s) (upgrades s)) (player s)) 0
         = (pl', shot, k')
       \<and> processProjectiles (uuid (player s)) (playerWithUpgrades (player s) (upgrades s))
           (hasUpgrade (upgrades s) ''lifeSteal'') (projectiles s @ shot) pl' (enemies s)
         = (kept, pl'', es')
       \<and> projectiles (tickEffect inp s) = kept @ enemyShots)"
proof -
  let ?pwu = "playerWithUpgrades (player s) (upgrades s)"
  from assms obtain p2 shot nu1 ps1 p3 es1 es2 shots drops nr2 nu2 gs1 p4 xp1 where
    1: "playerAutoAttack inp (upgrades s) ?pwu (controls inp ?pwu (player s)) 0 = (p2, shot, nu1)"
   and 2: "processProjectiles (uuid (player s)) ?pwu
       (hasUpgrade (upgrades s) ''lifeSteal'') (projectiles s @ shot) p2 (enemies s) = (ps1, p3, es1)"
   and 5: "tickEffect inp s =
       s\<lparr> player := (fixes_health ?pwu p4)
              \<lparr> face := (if innerWidth inp / 2 < mouse_x inp then FaceRight else FaceLeft) \<rparr>,
          enemies := es2 @ spawnEnemies inp (tick s) (player s) p4 nr2 nu2,
          projectiles := ps1 @ shots,
          groundItems := gs1,
          xp := xp1 \<rparr>"
    by (rule tickEffect_cases[of s inp]) blast
  have "projectiles (tickEffect inp s) = ps1 @ shots"
    by (simp add: 5)
  with 1 2 show ?thesis
    by blast
qed

lemma playerAutoAttack_shot:
  assumes "playerAutoAttack inp ups effective pl k = (pl', shot, k')"
  shows "(current (a_cooldown (attack (stats pl))) = 0 \<longrightarrow>
            (\<exists>p. shot = [p] \<and> p_uuid p = uuidv4 inp k \<and> caster p = uuid pl
                 \<and> p_damage p = a_damage (attack (stats effective))
                 \<and> isPiercing p = hasUpgrade ups ''piercing'')
            \<and> current (a_cooldown (attack (stats pl')))
                = maximum (a_cooldown (attack (stats effective))))
       \<and> (current (a_cooldown (attack (stats pl))) \<noteq> 0 \<longrightarrow>
            shot = []
            \<and> current (a_cooldown (attack (stats pl')))
                = current (a_cooldown (attack (stats pl))) - 1)"
  using assms by (auto simp: playerAutoAttack_def projectile_def split: if_splits)

text \<open>
  Claim C2. In every state the program can be in, the cooldown counter of the player
  and of every enemy lies between 0 and the entity's stored maximum. The attack step
  of the player (\<open>playerAutoAttack\<close>), when the counter is 0, pushes one projectile
  cast by the player, with the effective damage and piercing when the player has that
  upgrade, and resets the counter to the effective maximum; otherwise it pushes nothing
  and counts down by one. So does the counter that a tick that runs publishes: the
  effective maximum after 0, one less otherwise. The tick runs that step on the player
  the controls have moved and hands what it pushed to the loop over the projectiles,
  behind the old ones; the projectiles it publishes are those the loop keeps, followed
  by the shots of the enemies. An enemy that attacks (it is alive and
  the player is within its range) shoots one projectile and resets its counter to its
  maximum when the counter is 0, and shoots nothing and counts down by one otherwise.
  (The effective maximum of the player is 105 less 5 per level of the attack speed
  upgrade, which the selection filter offers only below level 20, so it stays between
  5 and 105.)
\<close>

theorem cooldown_always_in_range:
  "(reachable s \<longrightarrow> cooldownInRange (player s) \<and> (\<forall>e \<in> set (enemies s). cooldownInRange e))
   \<and> (upgradeSelection s = [] \<longrightarrow>
        current (a_cooldown (attack (stats (player (tickEffect inp s))))) =
           (if current (a_cooldown (attack (stats (player s)))) = 0
            then maximum (a_cooldown (attack (stats (playerWithUpgrades (player s) (upgrades s)))))
            else current (a_cooldown (attack (stats (player s)))) - 1))
   \<and> (upgradeSelection s = [] \<longrightarrow>
        (\<exists>pl' shot k' kept pl'' es' enemyShots.
            playerAutoAttack inp (upgrades s) (playerWithUpgrades (player s) (upgrades s))
                (controls inp (playerWithUpgrades (player s) (upgrades s)) (player s)) 0
              = (pl', shot, k')
            \<and> processProjectiles (uuid (player s)) (playerWithUpgrades (player s) (upgrades s))
                (hasUpgrade (upgrades s) ''lifeSteal'') (projectiles s @ shot) pl' (enemies s)
              = (kept, pl'', es')
            \<and> projectiles (tickEffect inp s) = kept @ enemyShots))
   \<and> (playerAutoAttack inp ups effective pl k = (pl', shot, k') \<longrightarrow>
        (current (a_cooldown (attack (stats pl))) = 0 \<longrightarrow>
            (\<exists>p. shot = [p] \<and> p_uuid p = uuidv4 inp k \<and> caster p = uuid pl
                 \<and> p_damage p = a_damage (attack (stats effective))
                 \<and> isPiercing p = hasUpgrade ups ''piercing'')
            \<and> current (a_cooldown (attack (stats pl')))
                = maximum (a_cooldown (attack (stats effective))))
        \<and> (current (a_cooldown (attack (stats pl))) \<noteq> 0 \<longrightarrow>
            shot = []
            \<and> current (a_cooldown (attack (stats pl')))
                = current (a_cooldown (attack (stats pl))) - 1))
   \<and> (enemyStep inp pwu newPlayer enemy nr nu = (Some enemy', shots, drops, nr', nu')
        \<and> \<not> a_range (attack (stats enemy))
             < distance (e_x newPlayer) (e_y newPlayer) (e_x enemy) (e_y enemy)
                 - radius (stats pwu) - radius (stats enemy) \<longrightarrow>
        (current (a_cooldown (attack (stats enemy))) = 0 \<longrightarrow>
            length shots = 1
            \<and> current (a_cooldown (attack (stats enemy'))) = maximum (a_cooldown (attack (stats enemy))))
        \<and> (current (a_cooldown (attack (stats enemy))) \<noteq> 0 \<longrightarrow>
            shots = []
            \<and> current (a_cooldown (attack (stats enemy')))
                = current (a_cooldown (attack (stats enemy))) - 1))"
  using reachable_invariant[of s] tick_player_attack(2)[of s inp] tick_projectiles[of s inp]
    playerAutoAttack_shot[of inp ups effective pl k pl' shot k']
    enemyStep_attack[of inp pwu newPlayer enemy nr nu enemy' shots drops nr' nu']
  by blast

lemma skeleton_shoots:
  "enemyStep exampleInputs (player quietState) (player quietState) (skeletonAt ''near'' 0) 0 0
     = (Some (stats_update (attack_update (a_cooldown_update (current_update (\<lambda>_. 100))))
               (skeletonAt ''near'' 0)),
        [projectile ''id-'' ''near'' 48 0 1 0 3 10 30 False], [], 0, 1)"
  by (simp add: enemyStep_def Let_def quietState_def initialState_def entity_def skeletonAt_def
      DEFAULT_STATS_def exampleInputs_def atan2_def)

lemma skeleton_waits:
  "enemyStep exampleInputs (player quietState) (player quietState)
     (stats_update (attack_update (a_cooldown_update (current_update (\<lambda>_. 100))))
               (skeletonAt ''near'' 0)) 0 0
     = (Some (stats_update (attack_update (a_cooldown_update (current_update (\<lambda>_. 99))))
               (skeletonAt ''near'' 0)),
        [], [], 0, 0)"
  by (simp add: enemyStep_def Let_def quietState_def initialState_def entity_def skeletonAt_def
      DEFAULT_STATS_def exampleInputs_def atan2_def)

lemma player_shoots:
  "playerAutoAttack exampleInputs [] (player (initialState ''player''))
       (player (initialState ''player'')) 0
     = (stats_update (attack_update (a_cooldown_update (current_update (\<lambda>_. 105))))
          (player (initialState ''player'')),
        [projectile ''id-'' ''player'' 48 0 1 0 2 16 200 False], 1)"
  by (simp add: playerAutoAttack_def initialState_def entity_def exampleInputs_def
      playerAngle_def atan2_def hasUpgrade_def)

lemma player_waits:
  "playerAutoAttack exampleInputs [] (player quietState) (player quietState) 0
     = (stats_update (attack_update (a_cooldown_update (current_update (\<lambda>_. 4))))
          (player quietState), [], 0)"
  by (simp add: playerAutoAttack_def quietState_def initialState_def entity_def)

lemma afterFirstTick_projectiles:
  "projectiles afterFirstTick = [(projectile ''id-'' ''player'' 48 0 1 0 2 16 200 False)\<lparr> p_x := 50 \<rparr>]"
  by (simp add: afterFirstTick_def tickEffect_def initialState_def exampleInputs_def
        entity_def controls_def playerAutoAttack_def projectile_def processProjectile_def
        moveProjectile_def reduceEntityHitCooldown_def outOfRange_def playerAngle_def atan2_def
        distance_def hasUpgrade_def spawnEnemies_def rand_def fixes_health_def Let_def)

lemma afterFirstTick_enemies:
  "map name (enemies afterFirstTick) = [''skeleton'']"
  "map (\<lambda>e. a_cooldown (attack (stats e))) (enemies afterFirstTick) = [\<lparr> current = 0, maximum = 100 \<rparr>]"
  by (simp_all add: afterFirstTick_def tickEffect_def initialState_def exampleInputs_def
        entity_def controls_def playerAutoAttack_def projectile_def processProjectile_def
        moveProjectile_def reduceEntityHitCooldown_def outOfRange_def playerAngle_def atan2_def
        spawnEnemies_def rand_def fixes_health_def Let_def)

text \<open>
  The witness: the state after the first tick is one the program can be in; the player
  has shot, his arrow has flown from 48 to 50 and his counter is 105, and the skeleton
  spawned at the counter 0 has the counter 0 of 100. The attack step of the player of
  the first render pushes that arrow and resets the counter to 105; that of the player
  of the quiet state, whose counter is 5, pushes nothing and counts down to 4. A
  skeleton next to the player shoots and resets its counter to 100, and counts down to
  99 in its next turn.
\<close>

theorem cooldown_always_in_range_witness:
  "reachable afterFirstTick
   \<and> cooldownInRange (player afterFirstTick)
   \<and> list_all cooldownInRange (enemies afterFirstTick)
   \<and> map name (enemies afterFirstTick) = [''skeleton'']
   \<and> upgradeSelection (initialState ''player'') = []
   \<and> current (a_cooldown (attack (stats (player (initialState ''player''))))) = 0
   \<and> current (a_cooldown (attack (stats (player afterFirstTick)))) = 105
   \<and> (\<exists>pl' shot k' kept pl'' es' enemyShots.
            playerAutoAttack exampleInputs (upgrades (initialState ''player'')) (playerWithUpgrades (player (initialState ''player'')) (upgrades (initialState ''player'')))
                (controls exampleInputs (playerWithUpgrades (player (initialState ''player'')) (upgrades (initialState ''player''))) (player (initialState ''player''))) 0
              = (pl', shot, k')
            \<and> processProjectiles (uuid (player (initialState ''player''))) (playerWithUpgrades (player (initialState ''player'')) (upgrades (initialState ''player'')))
                (hasUpgrade (upgrades (initialState ''player'')) ''lifeSteal'') (projectiles (initialState ''player'') @ shot) pl' (enemies (initialState ''player''))
              = (kept, pl'', es')
            \<and> projectiles (tickEffect exampleInputs (initialState ''player'')) = kept @ enemyShots)
   \<and> projectiles afterFirstTick
       = [(projectile ''id-'' ''player'' 48 0 1 0 2 16 200 False)\<lparr> p_x := 50 \<rparr>]
   \<and> playerAutoAttack exampleInputs [] (player (initialState ''player''))
         (player (initialState ''player'')) 0
       = (stats_update (attack_update (a_cooldown_update (current_update (\<lambda>_. 105))))
            (player (initialState ''player'')),
          [projectile ''id-'' ''player'' 48 0 1 0 2 16 200 False], 1)
   \<and> (\<exists>p. [projectile ''id-'' ''player'' 48 0 1 0 2 16 200 False] = [p]
          \<and> p_uuid p = uuidv4 exampleInputs 0
          \<and> caster p = uuid (player (initialState ''player'')))
   \<and> playerAutoAttack exampleInputs [] (player quietState) (player quietState) 0
       = (stats_update (attack_update (a_cooldown_update (current_update (\<lambda>_. 4))))
            (player quietState), [], 0)
   \<and> current (a_cooldown (attack (stats (player quietState)))) = 5
   \<and> current (a_cooldown (attack (stats
         (stats_update (attack_update (a_cooldown_update (current_update (\<lambda>_. 4))))
            (player quietState)))))
       = current (a_cooldown (attack (stats (player quietState)))) - 1
   \<and> enemyStep exampleInputs (player quietState) (player quietState) (skeletonAt ''near'' 0) 0 0
       = (Some (stats_update (attack_update (a_cooldown_update (current_update (\<lambda>_. 100))))
                 (skeletonAt ''near'' 0)),
          [projectile ''id-'' ''near'' 48 0 1 0 3 10 30 False], [], 0, 1)
   \<and> \<not> a_range (attack (stats (skeletonAt ''near'' 0)))
         < distance (e_x (player quietState)) (e_y (player quietState))
             (e_x (skeletonAt ''near'' 0)) (e_y (skeletonAt ''near'' 0))
             - radius (stats (player quietState)) - radius (stats (skeletonAt ''near'' 0))
   \<and> current (a_cooldown (attack (stats (skeletonAt ''near'' 0)))) = 0
   \<and> maximum (a_cooldown (attack (stats (skeletonAt ''near'' 0)))) = 100
   \<and> current (a_cooldown (attack (stats
         (stats_update (attack_update (a_cooldown_update (current_update (\<lambda>_. 100))))
                 (skeletonAt ''near'' 0)))))
       = maximum (a_cooldown (attack (stats (skeletonAt ''near'' 0))))
   \<and> enemyStep exampleInputs (player quietState) (player quietState)
       (stats_update (attack_update (a_cooldown_update (current_update (\<lambda>_. 100))))
                 (skeletonAt ''near'' 0)) 0 0
       = (Some (stats_update (attack_update (a_cooldown_update (current_update (\<lambda>_. 99))))
                 (skeletonAt ''near'' 0)),
          [], [], 0, 0)"
proof -
  have r: "reachable afterFirstTick"
    unfolding afterFirstTick_def by (intro reachable.tick reachable.initial)
  have i: "upgradeSelection (initialState ''player'') = []"
    "current (a_cooldown (attack (stats (player (initialState ''player''))))) = 0"
    "maximum (a_cooldown (attack (stats (playerWithUpgrades (player (initialState ''player''))
        (upgrades (initialState ''player'')))))) = 105"
    by (simp_all add: initialState_def entity_def)
  have k: "current (a_cooldown (attack (stats (skeletonAt ''near'' 0)))) = 0"
    "maximum (a_cooldown (attack (stats (skeletonAt ''near'' 0)))) = 100"
    by (simp_all add: skeletonAt_def entity_def DEFAULT_STATS_def)
  have n: "\<not> a_range (attack (stats (skeletonAt ''near'' 0)))
         < distance (e_x (player quietState)) (e_y (player quietState))
             (e_x (skeletonAt ''near'' 0)) (e_y (skeletonAt ''near'' 0))
             - radius (stats (player quietState)) - radius (stats (skeletonAt ''near'' 0))"
    by (simp add: skeletonAt_def entity_def DEFAULT_STATS_def quietState_def initialState_def)
  note v = cooldown_always_in_range[where inp = exampleInputs and pwu = "player quietState"
      and newPlayer = "player quietState" and enemy = "skeletonAt ''near'' 0" and nr = 0 and nu = 0
      and enemy' = "stats_update (attack_update (a_cooldown_update (current_update (\<lambda>_. 100))))
                 (skeletonAt ''near'' 0)"
      and shots = "[projectile ''id-'' ''near'' 48 0 1 0 3 10 30 False]" and drops = "[]"
      and nr' = 0 and nu' = 1]
  have m: "current (a_cooldown (attack (stats
         (stats_update (attack_update (a_cooldown_update (current_update (\<lambda>_. 100))))
                 (skeletonAt ''near'' 0)))))
       = maximum (a_cooldown (attack (stats (skeletonAt ''near'' 0))))"
    using v skeleton_shoots n k(1) by blast
  note ps = cooldown_always_in_range[where inp = exampleInputs and ups = "[]"
      and effective = "player (initialState ''player'')" and pl = "player (initialState ''player'')"
      and k = 0
      and pl' = "stats_update (attack_update (a_cooldown_update (current_update (\<lambda>_. 105))))
            (player (initialState ''player''))"
      and shot = "[projectile ''id-'' ''player'' 48 0 1 0 2 16 200 False]" and k' = 1]
  have sh: "\<exists>p. [projectile ''id-'' ''player'' 48 0 1 0 2 16 200 False] = [p]
          \<and> p_uuid p = uuidv4 exampleInputs 0
          \<and> caster p = uuid (player (initialState ''player''))"
    using ps player_shoots i(2) by blast
  note pw = cooldown_always_in_range[where inp = exampleInputs and ups = "[]"
      and effective = "player quietState" and pl = "player quietState" and k = 0
      and pl' = "stats_update (attack_update (a_cooldown_update (current_update (\<lambda>_. 4))))
            (player quietState)"
      and shot = "[]" and k' = 0]
  have q5: "current (a_cooldown (attack (stats (player quietState)))) = 5"
    by (simp add: quietState_def initialState_def entity_def)
  then have "current (a_cooldown (attack (stats (player quietState)))) \<noteq> 0"
    by simp
  then have wt: "current (a_cooldown (attack (stats
         (stats_update (attack_update (a_cooldown_update (current_update (\<lambda>_. 4))))
            (player quietState)))))
       = current (a_cooldown (attack (stats (player quietState)))) - 1"
    using pw player_waits by blast
  note t = cooldown_always_in_range[where s = afterFirstTick]
  note u = cooldown_always_in_range[where s = "initialState ''player''" and inp = exampleInputs]
  have a: "cooldownInRange (player afterFirstTick)"
    and b: "list_all cooldownInRange (enemies afterFirstTick)"
    using t r by (simp_all add: list_all_iff)
  have c: "current (a_cooldown (attack (stats (player afterFirstTick)))) = 105"
    using u i by (simp add: afterFirstTick_def)
  have tp: "(\<exists>pl' shot k' kept pl'' es' enemyShots.
            playerAutoAttack exampleInputs (upgrades (initialState ''player'')) (playerWithUpgrades (player (initialState ''player'')) (upgrades (initialState ''player'')))
                (controls exampleInputs (playerWithUpgrades (player (initialState ''player'')) (upgrades (initialState ''player''))) (player (initialState ''player''))) 0
              = (pl', shot, k')
            \<and> processProjectiles (uuid (player (initialState ''player''))) (playerWithUpgrades (player (initialState ''player'')) (upgrades (initialState ''player'')))
                (hasUpgrade (upgrades (initialState ''player'')) ''lifeSteal'') (projectiles (initialState ''player'') @ shot) pl' (enemies (initialState ''player''))
              = (kept, pl'', es')
            \<and> projectiles (tickEffect exampleInputs (initialState ''player'')) = kept @ enemyShots)"
    by (rule u[THEN conjunct2, THEN conjunct2, THEN conjunct1, THEN mp, OF i(1)])
  from r a b afterFirstTick_enemies(1) i(1,2) c tp afterFirstTick_projectiles player_shoots sh
    player_waits q5 wt skeleton_shoots n k m skeleton_waits
  show ?thesis by (intro conjI)
qed

section \<open>Piercing projectiles (claim C5)\<close>

lemma damageEnemies_Cons_piercing:
  assumes "isPiercing p"
  shows "damageEnemies ls p (e # es) pl =
     (case damageEnemies ls
             (if canDamage p e then p\<lparr> entityHitCooldown := (entityHitCooldown p)(uuid e \<mapsto> 300) \<rparr> else p)
             es (if canDamage p e \<and> ls then addHealth 1 pl else pl) of
        (p', es', pl', r) \<Rightarrow>
          (p', (if canDamage p e then addHealth (- p_damage p) e else e) # es', pl', r))"
  using assms by (auto simp: canDamage_def processHit_def addHealth_def split: prod.splits)

lemma damageEnemies_piercing:
  assumes "isPiercing p" and "distinct (map uuid es)"
    and "damageEnemies ls p es pl = (p', es', pl', r)"
  shows "\<not> r \<and> length es' = length es
     \<and> p' = p\<lparr> entityHitCooldown := entityHitCooldown p' \<rparr>
     \<and> (\<forall>u. u \<notin> uuid ` set es \<longrightarrow> entityHitCooldown p' u = entityHitCooldown p u)
     \<and> (\<forall>j < length es.
           if canDamage p (es ! j)
           then es' ! j = addHealth (- p_damage p) (es ! j)
                \<and> entityHitCooldown p' (uuid (es ! j)) = Some 300
           else es' ! j = es ! j
                \<and> entityHitCooldown p' (uuid (es ! j)) = entityHitCooldown p (uuid (es ! j)))"
  using assms
proof (induction es arbitrary: p pl p' es' pl' r)
  case Nil
  then show ?case by simp
next
  case (Cons e es)
  define p2 where "p2 = (if canDamage p e
      then p\<lparr> entityHitCooldown := (entityHitCooldown p)(uuid e \<mapsto> 300) \<rparr> else p)"
  define pl2 where "pl2 = (if canDamage p e \<and> ls then addHealth 1 pl else pl)"
  define e2 where "e2 = (if canDamage p e then addHealth (- p_damage p) e else e)"
  obtain p3 es3 pl3 r3 where rec: "damageEnemies ls p2 es pl2 = (p3, es3, pl3, r3)"
    by (cases "damageEnemies ls p2 es pl2") auto
  have "damageEnemies ls p (e # es) pl =
     (case damageEnemies ls p2 es pl2 of (p', es', pl', r) \<Rightarrow> (p', e2 # es', pl', r))"
    unfolding p2_def pl2_def e2_def by (rule damageEnemies_Cons_piercing[OF Cons.prems(1)])
  with Cons.prems(3) rec have out: "p' = p3" "es' = e2 # es3" "pl' = pl3" "r = r3"
    by simp_all
  have pier2: "isPiercing p2" using Cons.prems(1) by (simp add: p2_def)
  have dist: "distinct (map uuid es)" and notin: "uuid e \<notin> uuid ` set es"
    using Cons.prems(2) by auto
  note IH = Cons.IH[OF pier2 dist rec]
  have dm: "p_damage p2 = p_damage p" by (simp add: p2_def)
  have head2: "entityHitCooldown p2 (uuid e) = (if canDamage p e then Some 300 else entityHitCooldown p (uuid e))"
    by (simp add: p2_def)
  have other: "entityHitCooldown p2 u = entityHitCooldown p u" if "u \<noteq> uuid e" for u
    using that by (simp add: p2_def)
  have ent: "entityHitCooldown p2 (uuid (es ! j)) = entityHitCooldown p (uuid (es ! j))"
    and cd: "canDamage p2 (es ! j) = canDamage p (es ! j)"
    if "j < length es" for j
  proof -
    from that have "uuid (es ! j) \<in> uuid ` set es" by simp
    with notin have ne: "uuid (es ! j) \<noteq> uuid e" by metis
    then show "entityHitCooldown p2 (uuid (es ! j)) = entityHitCooldown p (uuid (es ! j))"
      by (rule other)
    then show "canDamage p2 (es ! j) = canDamage p (es ! j)"
      by (simp add: canDamage_def overlaps_def p2_def)
  qed
  have head: "entityHitCooldown p3 (uuid e) = entityHitCooldown p2 (uuid e)"
    using IH notin by blast
  have p3: "p3 = p\<lparr> entityHitCooldown := entityHitCooldown p3 \<rparr>"
  proof -
    from IH have "p3 = p2\<lparr> entityHitCooldown := entityHitCooldown p3 \<rparr>" by blast
    then show ?thesis by (simp add: p2_def split: if_splits)
  qed
  show ?case
    unfolding out
  proof (intro conjI allI impI)
    show "\<not> r3" using IH by blast
    show "length (e2 # es3) = length (e # es)" using IH by simp
    show "p3 = p\<lparr> entityHitCooldown := entityHitCooldown p3 \<rparr>" by (rule p3)
    show "entityHitCooldown p3 u = entityHitCooldown p u" if "u \<notin> uuid ` set (e # es)" for u
    proof -
      from that have "u \<notin> uuid ` set es" "u \<noteq> uuid e" by auto
      with IH other show ?thesis by metis
    qed
    fix j assume j: "j < length (e # es)"
    show "if canDamage p ((e # es) ! j)
           then (e2 # es3) ! j = addHealth (- p_damage p) ((e # es) ! j)
                \<and> entityHitCooldown p3 (uuid ((e # es) ! j)) = Some 300
           else (e2 # es3) ! j = (e # es) ! j
                \<and> entityHitCooldown p3 (uuid ((e # es) ! j)) = entityHitCooldown p (uuid ((e # es) ! j))"
    proof (cases j)
      case 0
      then show ?thesis by (simp add: head head2 e2_def)
    next
      case (Suc k)
      with j have k: "k < length es" by simp
      from IH k have "if canDamage p2 (es ! k)
           then es3 ! k = addHealth (- p_damage p2) (es ! k)
                \<and> entityHitCooldown p3 (uuid (es ! k)) = Some 300
           else es3 ! k = es ! k
                \<and> entityHitCooldown p3 (uuid (es ! k)) = entityHitCooldown p2 (uuid (es ! k))"
        by blast
      then show ?thesis
        unfolding dm ent[OF k] cd[OF k] by (simp add: Suc)
    qed
  qed
qed

lemma damageEnemies_cooling:
  assumes "isPiercing p" and "entityHitCooldown p u = Some c" and "0 < c"
    and "damageEnemies ls p es pl = (p', es', pl', r)"
  shows "entityHitCooldown p' u = Some c \<and> length es' = length es
     \<and> (\<forall>j < length es. uuid (es ! j) = u \<longrightarrow> es' ! j = es ! j)"
  using assms
proof (induction es arbitrary: p pl p' es' pl' r)
  case Nil
  then show ?case by simp
next
  case (Cons e es)
  define p2 where "p2 = (if canDamage p e
      then p\<lparr> entityHitCooldown := (entityHitCooldown p)(uuid e \<mapsto> 300) \<rparr> else p)"
  define pl2 where "pl2 = (if canDamage p e \<and> ls then addHealth 1 pl else pl)"
  define e2 where "e2 = (if canDamage p e then addHealth (- p_damage p) e else e)"
  obtain p3 es3 pl3 r3 where rec: "damageEnemies ls p2 es pl2 = (p3, es3, pl3, r3)"
    by (cases "damageEnemies ls p2 es pl2") auto
  have "damageEnemies ls p (e # es) pl =
     (case damageEnemies ls p2 es pl2 of (p', es', pl', r) \<Rightarrow> (p', e2 # es', pl', r))"
    unfolding p2_def pl2_def e2_def by (rule damageEnemies_Cons_piercing[OF Cons.prems(1)])
  with Cons.prems(4) rec have out: "p' = p3" "es' = e2 # es3"
    by simp_all
  have no: "\<not> canDamage p e" if "uuid e = u"
    using that Cons.prems(2,3) by (simp add: canDamage_def)
  have pier2: "isPiercing p2" using Cons.prems(1) by (simp add: p2_def)
  have ent2: "entityHitCooldown p2 u = Some c"
    using Cons.prems(2) no by (auto simp: p2_def)
  note IH = Cons.IH[OF pier2 ent2 Cons.prems(3) rec]
  show ?case
    unfolding out
  proof (intro conjI allI impI)
    show "entityHitCooldown p3 u = Some c" using IH by blast
    show "length (e2 # es3) = length (e # es)" using IH by simp
    fix j assume j: "j < length (e # es)" and u: "uuid ((e # es) ! j) = u"
    show "(e2 # es3) ! j = (e # es) ! j"
    proof (cases j)
      case 0
      with u no show ?thesis by (simp add: e2_def)
    next
      case (Suc k)
      with j u IH show ?thesis by simp
    qed
  qed
qed

lemma damageEnemies_piercing_kept:
  assumes "isPiercing p" and "damageEnemies ls p es pl = (p', es', pl', r)"
  shows "\<not> r"
  using assms
proof (induction es arbitrary: p pl p' es' pl' r)
  case Nil
  then show ?case by simp
next
  case (Cons e es)
  define p2 where "p2 = (if canDamage p e
      then p\<lparr> entityHitCooldown := (entityHitCooldown p)(uuid e \<mapsto> 300) \<rparr> else p)"
  define pl2 where "pl2 = (if canDamage p e \<and> ls then addHealth 1 pl else pl)"
  define e2 where "e2 = (if canDamage p e then addHealth (- p_damage p) e else e)"
  obtain p3 es3 pl3 r3 where rec: "damageEnemies ls p2 es pl2 = (p3, es3, pl3, r3)"
    by (cases "damageEnemies ls p2 es pl2") auto
  have "damageEnemies ls p (e # es) pl =
     (case damageEnemies ls p2 es pl2 of (p', es', pl', r) \<Rightarrow> (p', e2 # es', pl', r))"
    unfolding p2_def pl2_def e2_def by (rule damageEnemies_Cons_piercing[OF Cons.prems(1)])
  with Cons.prems(2) rec have "r = r3" by simp
  moreover have "isPiercing p2" using Cons.prems(1) by (simp add: p2_def)
  ultimately show ?case using Cons.IH[OF _ rec] by simp
qed

lemma piercing_tick:
  assumes "caster p = playerUuid" and "isPiercing p"
    and "processProjectile playerUuid pwu ls p pl es = (kept, pl', es')"
  obtains q q' where "q = reduceEntityHitCooldown (moveProjectile p)"
    and "damageEnemies ls q es pl = (q', es', pl', False)"
    and "kept = (if outOfRange q' then None else Some q')"
proof -
  define q where "q = reduceEntityHitCooldown (moveProjectile p)"
  have pq: "isPiercing q" "caster q = playerUuid"
    using assms(1,2) by (simp_all add: q_def reduceEntityHitCooldown_def moveProjectile_def)
  obtain q' es2 pl2 r where d: "damageEnemies ls q es pl = (q', es2, pl2, r)"
    by (cases "damageEnemies ls q es pl") auto
  have nr: "\<not> r"
    using pq(1) d by (rule damageEnemies_piercing_kept)
  from assms(3) d nr pq(2) have "es' = es2" "pl' = pl2"
    "kept = (if outOfRange q' then None else Some q')"
    by (auto simp: processProjectile_def Let_def q_def[symmetric] split: if_splits)
  with d nr that[OF q_def] show thesis by simp
qed

lemma reduce_move_fields [simp]:
  "isPiercing (reduceEntityHitCooldown (moveProjectile p)) = isPiercing p"
  "caster (reduceEntityHitCooldown (moveProjectile p)) = caster p"
  "p_damage (reduceEntityHitCooldown (moveProjectile p)) = p_damage p"
  "entityHitCooldown (reduceEntityHitCooldown (moveProjectile p)) u
     = map_option (\<lambda>c. if 0 < c then c - 1 else c) (entityHitCooldown p u)"
  by (simp_all add: reduceEntityHitCooldown_def moveProjectile_def)

lemma piercing_hit_rule:
  assumes "caster p = playerUuid" and "isPiercing p" and "distinct (map uuid es)"
    and "processProjectile playerUuid pwu ls p pl es = (kept, pl', es')"
  shows "length es' = length es
     \<and> (\<forall>j < length es.
           if canDamage (reduceEntityHitCooldown (moveProjectile p)) (es ! j)
           then es' ! j = addHealth (- p_damage p) (es ! j)
                \<and> (\<forall>p'. kept = Some p' \<longrightarrow> entityHitCooldown p' (uuid (es ! j)) = Some 300)
           else es' ! j = es ! j
                \<and> (\<forall>p'. kept = Some p' \<longrightarrow>
                      entityHitCooldown p' (uuid (es ! j))
                        = entityHitCooldown (reduceEntityHitCooldown (moveProjectile p)) (uuid (es ! j))))"
proof -
  from assms(1,2,4) obtain q q' where q: "q = reduceEntityHitCooldown (moveProjectile p)"
    and d: "damageEnemies ls q es pl = (q', es', pl', False)"
    and k: "kept = (if outOfRange q' then None else Some q')"
    by (rule piercing_tick)
  have pq: "isPiercing q" "p_damage q = p_damage p"
    using assms(2) by (simp_all add: q)
  note r = damageEnemies_piercing[OF pq(1) assms(3) d]
  show ?thesis
  proof (intro conjI allI impI)
    show "length es' = length es" using r by blast
    fix j assume j: "j < length es"
    from r j have "if canDamage q (es ! j)
           then es' ! j = addHealth (- p_damage q) (es ! j)
                \<and> entityHitCooldown q' (uuid (es ! j)) = Some 300
           else es' ! j = es ! j
                \<and> entityHitCooldown q' (uuid (es ! j)) = entityHitCooldown q (uuid (es ! j))"
      by blast
    then show "if canDamage (reduceEntityHitCooldown (moveProjectile p)) (es ! j)
           then es' ! j = addHealth (- p_damage p) (es ! j)
                \<and> (\<forall>p'. kept = Some p' \<longrightarrow> entityHitCooldown p' (uuid (es ! j)) = Some 300)
           else es' ! j = es ! j
                \<and> (\<forall>p'. kept = Some p' \<longrightarrow>
                      entityHitCooldown p' (uuid (es ! j))
                        = entityHitCooldown (reduceEntityHitCooldown (moveProjectile p)) (uuid (es ! j)))"
      unfolding q[symmetric] pq(2) k by (auto split: if_splits)
  qed
qed

lemma piercing_cooling_tick:
  assumes "caster p = playerUuid" and "isPiercing p"
    and "entityHitCooldown p u = Some c" and "2 \<le> c"
    and "processProjectile playerUuid pwu ls p pl es = (kept, pl', es')"
  shows "length es' = length es
     \<and> (\<forall>j < length es. uuid (es ! j) = u \<longrightarrow> es' ! j = es ! j)
     \<and> (\<forall>p'. kept = Some p' \<longrightarrow>
           entityHitCooldown p' u = Some (c - 1) \<and> isPiercing p' \<and> caster p' = playerUuid
           \<and> p_damage p' = p_damage p)"
proof -
  from assms(1,2,5) obtain q q' where q: "q = reduceEntityHitCooldown (moveProjectile p)"
    and d: "damageEnemies ls q es pl = (q', es', pl', False)"
    and k: "kept = (if outOfRange q' then None else Some q')"
    by (rule piercing_tick)
  have pq: "isPiercing q" "p_damage q = p_damage p" "caster q = playerUuid"
    "entityHitCooldown q u = Some (c - 1)"
    using assms(1,2,3,4) by (simp_all add: q)
  from assms(4) have pos: "0 < c - 1" by simp
  note r = damageEnemies_cooling[OF pq(1) pq(4) pos d]
  have same: "isPiercing q' = isPiercing q \<and> caster q' = caster q \<and> p_damage q' = p_damage q"
    using d
  proof (induction es arbitrary: q pl q' es' pl')
    case Nil
    then show ?case by simp
  next
    case (Cons e es)
    then show ?case
      by (auto split: if_splits prod.splits)
  qed
  show ?thesis
    using r same pq k by (auto split: if_splits)
qed

lemma flight_countdown:
  assumes "caster p = playerUuid" and "isPiercing p"
    and "entityHitCooldown p u = Some c" and "int (length envs) < c"
    and "flight playerUuid p envs = Some p'"
  shows "entityHitCooldown p' u = Some (c - int (length envs))
     \<and> isPiercing p' \<and> caster p' = playerUuid \<and> p_damage p' = p_damage p"
  using assms
proof (induction envs arbitrary: p c)
  case Nil
  then show ?case by simp
next
  case (Cons env envs)
  obtain pwu ls pl es where env: "env = (pwu, ls, pl, es)"
    by (cases env) auto
  obtain kept pl' es' where step: "processProjectile playerUuid pwu ls p pl es = (kept, pl', es')"
    by (cases "processProjectile playerUuid pwu ls p pl es") auto
  with Cons.prems(5) env obtain q where kept: "kept = Some q"
    and rest: "flight playerUuid q envs = Some p'"
    by (auto split: option.splits)
  from Cons.prems(4) have c2: "2 \<le> c" by simp
  from piercing_cooling_tick[OF Cons.prems(1,2,3) c2 step] kept
  have q: "entityHitCooldown q u = Some (c - 1)" "isPiercing q" "caster q = playerUuid"
    "p_damage q = p_damage p"
    by simp_all
  from Cons.prems(4) have "int (length envs) < c - 1" by simp
  from Cons.IH[OF q(3) q(2) q(1) this rest] q(4) show ?case
    by simp
qed

text \<open>
  Claim C5. For a piercing projectile of the player, in one tick and for every enemy of
  the list (the enemies having different uuids): the enemy loses the projectile's damage
  exactly when the projectile, after its move, overlaps it and its hit cooldown for that
  enemy, after the decrement of the tick, is 0 or not set, and the cooldown is then set
  to 300; otherwise the enemy and the cooldown are left as they are. Over consecutive
  ticks a cooldown \<open>c\<close> (300 after a hit) counts down by 1 per tick: after \<open>n < c\<close>
  ticks it is \<open>c - n\<close>; in each of the first \<open>c - 1\<close> ticks the enemy is not damaged,
  overlap or not, and in the tick number \<open>c\<close> an overlap damages it again and sets the
  cooldown to 300.
\<close>

theorem piercing_hit_cooldown:
  assumes "caster p = playerUuid" and "isPiercing p"
  shows "(distinct (map uuid es)
          \<and> processProjectile playerUuid pwu ls p pl es = (kept, pl', es') \<longrightarrow>
            length es' = length es
            \<and> (\<forall>j < length es.
                 if canDamage (reduceEntityHitCooldown (moveProjectile p)) (es ! j)
                 then es' ! j = addHealth (- p_damage p) (es ! j)
                      \<and> (\<forall>p'. kept = Some p' \<longrightarrow> entityHitCooldown p' (uuid (es ! j)) = Some 300)
                 else es' ! j = es ! j
                      \<and> (\<forall>p'. kept = Some p' \<longrightarrow>
                            entityHitCooldown p' (uuid (es ! j))
                              = entityHitCooldown (reduceEntityHitCooldown (moveProjectile p))
                                  (uuid (es ! j)))))
       \<and> (entityHitCooldown p u = Some c
          \<and> flight playerUuid p envs = Some q
          \<and> processProjectile playerUuid qwu qs q ql qes = (qkept, ql', qes') \<longrightarrow>
            (int (length envs) < c \<longrightarrow> entityHitCooldown q u = Some (c - int (length envs)))
            \<and> (int (length envs) < c - 1 \<longrightarrow>
                  (\<forall>j < length qes. uuid (qes ! j) = u \<longrightarrow> qes' ! j = qes ! j))
            \<and> (int (length envs) = c - 1 \<and> distinct (map uuid qes) \<longrightarrow>
                  (\<forall>j < length qes.
                     uuid (qes ! j) = u \<and> overlaps (moveProjectile q) (qes ! j) \<longrightarrow>
                       qes' ! j = addHealth (- p_damage p) (qes ! j)
                       \<and> (\<forall>q'. qkept = Some q' \<longrightarrow> entityHitCooldown q' u = Some 300))))"
proof (intro conjI impI)
  assume "distinct (map uuid es) \<and> processProjectile playerUuid pwu ls p pl es = (kept, pl', es')"
  then have r: "length es' = length es
     \<and> (\<forall>j < length es.
           if canDamage (reduceEntityHitCooldown (moveProjectile p)) (es ! j)
           then es' ! j = addHealth (- p_damage p) (es ! j)
                \<and> (\<forall>p'. kept = Some p' \<longrightarrow> entityHitCooldown p' (uuid (es ! j)) = Some 300)
           else es' ! j = es ! j
                \<and> (\<forall>p'. kept = Some p' \<longrightarrow>
                      entityHitCooldown p' (uuid (es ! j))
                        = entityHitCooldown (reduceEntityHitCooldown (moveProjectile p)) (uuid (es ! j))))"
    using piercing_hit_rule[OF assms] by blast
  from r show "length es' = length es" by blast
  from r show "\<forall>j < length es.
           if canDamage (reduceEntityHitCooldown (moveProjectile p)) (es ! j)
           then es' ! j = addHealth (- p_damage p) (es ! j)
                \<and> (\<forall>p'. kept = Some p' \<longrightarrow> entityHitCooldown p' (uuid (es ! j)) = Some 300)
           else es' ! j = es ! j
                \<and> (\<forall>p'. kept = Some p' \<longrightarrow>
                      entityHitCooldown p' (uuid (es ! j))
                        = entityHitCooldown (reduceEntityHitCooldown (moveProjectile p)) (uuid (es ! j)))"
    by blast
next
  assume a: "entityHitCooldown p u = Some c
          \<and> flight playerUuid p envs = Some q
          \<and> processProjectile playerUuid qwu qs q ql qes = (qkept, ql', qes')"
  then have ent: "entityHitCooldown p u = Some c" and fl: "flight playerUuid p envs = Some q"
    and step: "processProjectile playerUuid qwu qs q ql qes = (qkept, ql', qes')"
    by blast+
  {
    assume n: "int (length envs) < c"
    from flight_countdown[OF assms ent n fl]
    show "entityHitCooldown q u = Some (c - int (length envs))" by blast
  }
  {
    assume n: "int (length envs) < c - 1"
    then have n': "int (length envs) < c" by simp
    note f = flight_countdown[OF assms ent n' fl]
    from n have "2 \<le> c - int (length envs)" by simp
    from piercing_cooling_tick[OF _ _ _ this step] f
    show "\<forall>j < length qes. uuid (qes ! j) = u \<longrightarrow> qes' ! j = qes ! j"
      by blast
  }
  {
    assume n: "int (length envs) = c - 1 \<and> distinct (map uuid qes)"
    then have n': "int (length envs) < c" and one: "c - int (length envs) = 1"
      and dist: "distinct (map uuid qes)" by simp_all
    note f = flight_countdown[OF assms ent n' fl]
    from f one have q1: "entityHitCooldown q u = Some 1" by simp
    from f have qc: "caster q = playerUuid" and qp: "isPiercing q" and qd: "p_damage q = p_damage p"
      by blast+
    note h = piercing_hit_rule[OF qc qp dist step]
    show "\<forall>j < length qes.
             uuid (qes ! j) = u \<and> overlaps (moveProjectile q) (qes ! j) \<longrightarrow>
               qes' ! j = addHealth (- p_damage p) (qes ! j)
               \<and> (\<forall>q'. qkept = Some q' \<longrightarrow> entityHitCooldown q' u = Some 300)"
    proof (intro allI impI)
      fix j assume j: "j < length qes"
        and uo: "uuid (qes ! j) = u \<and> overlaps (moveProjectile q) (qes ! j)"
      then have "canDamage (reduceEntityHitCooldown (moveProjectile q)) (qes ! j)"
        using q1 by (simp add: canDamage_def)
      with h j uo qd show "qes' ! j = addHealth (- p_damage p) (qes ! j)
               \<and> (\<forall>q'. qkept = Some q' \<longrightarrow> entityHitCooldown q' u = Some 300)"
        by auto
    qed
  }
qed

lemma stillArrow_reduce:
  "reduceEntityHitCooldown (moveProjectile (stillArrow c)) = stillArrow (if 0 < c then c - 1 else c)"
  by (auto simp: reduceEntityHitCooldown_def moveProjectile_def stillArrow_def projectile_def fun_eq_iff)

lemma stillArrow_emptyTick:
  "0 < c \<Longrightarrow> processProjectile ''player'' (player quietState) False (stillArrow c) (player quietState) []
     = (Some (stillArrow (c - 1)), player quietState, [])"
  by (simp add: processProjectile_def Let_def stillArrow_reduce)
     (simp add: stillArrow_def projectile_def outOfRange_def)

lemma stillArrow_flight:
  "int n < c \<Longrightarrow> flight ''player'' (stillArrow c) (replicate n emptyTick) = Some (stillArrow (c - int n))"
proof (induction n arbitrary: c)
  case 0
  then show ?case by simp
next
  case (Suc n)
  then have "0 < c" "int n < c - 1" by simp_all
  with Suc.IH[of "c - 1"] show ?case
    by (simp add: emptyTick_def stillArrow_emptyTick algebra_simps)
qed

lemma stillArrow_meets:
  "processProjectile ''player'' (player quietState) False (stillArrow 1) (player quietState)
       [skeletonAt ''near'' 0]
     = (Some (stillArrow 300), player quietState, [addHealth (- 1) (skeletonAt ''near'' 0)])"
  "processProjectile ''player'' (player quietState) False (stillArrow 300) (player quietState)
       [skeletonAt ''near'' 0]
     = (Some (stillArrow 299), player quietState, [skeletonAt ''near'' 0])"
  "processProjectile ''player'' (player quietState) False (stillArrow 300) (player quietState)
       [skeletonAt ''other'' 0]
     = (Some ((stillArrow 299)\<lparr> entityHitCooldown := [''near'' \<mapsto> 299, ''other'' \<mapsto> 300] \<rparr>),
        player quietState, [addHealth (- 1) (skeletonAt ''other'' 0)])"
  by (simp_all add: processProjectile_def Let_def stillArrow_reduce)
     (simp_all add: stillArrow_def projectile_def outOfRange_def overlaps_def skeletonAt_def
        entity_def DEFAULT_STATS_def processHit_def addHealth_def)

text \<open>
  The witness: a piercing arrow that has just hit the skeleton \<open>near\<close> (cooldown 300)
  and stays on it. In the next tick the skeleton is not damaged, while a skeleton the
  arrow has no cooldown for is. After 299 ticks the cooldown is 1, and the tick number
  300 damages the skeleton again and sets the cooldown to 300.
\<close>

theorem piercing_hit_cooldown_witness:
  "caster (stillArrow 300) = ''player'' \<and> isPiercing (stillArrow 300)
   \<and> entityHitCooldown (stillArrow 300) ''near'' = Some 300
   \<and> overlaps (moveProjectile (stillArrow 300)) (skeletonAt ''near'' 0)
   \<and> snd (snd (processProjectile ''player'' (player quietState) False (stillArrow 300)
                  (player quietState) [skeletonAt ''near'' 0])) ! 0
       = skeletonAt ''near'' 0
   \<and> canDamage (reduceEntityHitCooldown (moveProjectile (stillArrow 300))) (skeletonAt ''other'' 0)
   \<and> snd (snd (processProjectile ''player'' (player quietState) False (stillArrow 300)
                  (player quietState) [skeletonAt ''other'' 0])) ! 0
       = addHealth (- 1) (skeletonAt ''other'' 0)
   \<and> flight ''player'' (stillArrow 300) (replicate 299 emptyTick) = Some (stillArrow 1)
   \<and> entityHitCooldown (stillArrow 1) ''near'' = Some 1
   \<and> overlaps (moveProjectile (stillArrow 1)) (skeletonAt ''near'' 0)
   \<and> snd (snd (processProjectile ''player'' (player quietState) False (stillArrow 1)
                  (player quietState) [skeletonAt ''near'' 0])) ! 0
       = addHealth (- 1) (skeletonAt ''near'' 0)
   \<and> processProjectile ''player'' (player quietState) False (stillArrow 1)
        (player quietState) [skeletonAt ''near'' 0]
       = (Some (stillArrow 300), player quietState, [addHealth (- 1) (skeletonAt ''near'' 0)])"
proof -
  have c: "caster (stillArrow 300) = ''player''" and pi: "isPiercing (stillArrow 300)"
    and e: "entityHitCooldown (stillArrow 300) ''near'' = Some 300"
    and dmg: "p_damage (stillArrow 300) = 1"
    by (simp_all add: stillArrow_def projectile_def)
  have ov: "overlaps (moveProjectile (stillArrow 300)) (skeletonAt ''near'' 0)"
    "overlaps (moveProjectile (stillArrow 1)) (skeletonAt ''near'' 0)"
    by (simp_all add: overlaps_def moveProjectile_def stillArrow_def projectile_def skeletonAt_def
        entity_def DEFAULT_STATS_def)
  have cd: "canDamage (reduceEntityHitCooldown (moveProjectile (stillArrow 300))) (skeletonAt ''other'' 0)"
    by (simp add: canDamage_def stillArrow_reduce)
       (simp add: overlaps_def stillArrow_def projectile_def skeletonAt_def entity_def DEFAULT_STATS_def)
  have fl0: "flight ''player'' (stillArrow 300) [] = Some (stillArrow 300)" by simp
  have fl: "flight ''player'' (stillArrow 300) (replicate 299 emptyTick) = Some (stillArrow 1)"
    using stillArrow_flight[of 299 300] by simp
  have u: "uuid ([skeletonAt ''near'' 0] ! 0) = ''near''" "uuid ([skeletonAt ''other'' 0] ! 0) = ''other''"
    "distinct (map uuid [skeletonAt ''near'' 0])" "distinct (map uuid [skeletonAt ''other'' 0])"
    by (simp_all add: skeletonAt_def entity_def)
  define first where "first = processProjectile ''player'' (player quietState) False (stillArrow 300)
                  (player quietState) [skeletonAt ''near'' 0]"
  define other where "other = processProjectile ''player'' (player quietState) False (stillArrow 300)
                  (player quietState) [skeletonAt ''other'' 0]"
  define last where "last = processProjectile ''player'' (player quietState) False (stillArrow 1)
                  (player quietState) [skeletonAt ''near'' 0]"
  have s1: "processProjectile ''player'' (player quietState) False (stillArrow 300)
                  (player quietState) [skeletonAt ''near'' 0] = (fst first, fst (snd first), snd (snd first))"
    and s2: "processProjectile ''player'' (player quietState) False (stillArrow 300)
                  (player quietState) [skeletonAt ''other'' 0] = (fst other, fst (snd other), snd (snd other))"
    and s3: "processProjectile ''player'' (player quietState) False (stillArrow 1)
                  (player quietState) [skeletonAt ''near'' 0] = (fst last, fst (snd last), snd (snd last))"
    by (simp_all add: first_def other_def last_def)
  note window = piercing_hit_cooldown[OF c pi, where u = "''near''" and c = 300 and envs = "[]"
      and q = "stillArrow 300" and qwu = "player quietState" and qs = False
      and ql = "player quietState" and qes = "[skeletonAt ''near'' 0]"
      and qkept = "fst first" and ql' = "fst (snd first)" and qes' = "snd (snd first)"
      and es = "[skeletonAt ''other'' 0]" and pwu = "player quietState" and ls = False
      and pl = "player quietState" and kept = "fst other" and pl' = "fst (snd other)"
      and es' = "snd (snd other)"]
  note again = piercing_hit_cooldown[OF c pi, where u = "''near''" and c = 300
      and envs = "replicate 299 emptyTick"
      and q = "stillArrow 1" and qwu = "player quietState" and qs = False
      and ql = "player quietState" and qes = "[skeletonAt ''near'' 0]"
      and qkept = "fst last" and ql' = "fst (snd last)" and qes' = "snd (snd last)"]
  have w1: "snd (snd first) ! 0 = skeletonAt ''near'' 0"
    using window e fl0 s1 u(1) by simp
  have w2: "snd (snd other) ! 0 = addHealth (- 1) (skeletonAt ''other'' 0)"
    using window s2 u(4) cd dmg by simp
  have w3: "entityHitCooldown (stillArrow 1) ''near'' = Some 1"
    using again e fl s3 by simp
  have w4: "snd (snd last) ! 0 = addHealth (- 1) (skeletonAt ''near'' 0)"
    using again e fl s3 u(1,3) ov(2) dmg by simp
  from c pi e ov(1) w1 cd w2 fl w3 ov(2) w4 stillArrow_meets(1) show ?thesis
    unfolding first_def other_def last_def by (intro conjI)
qed

section \<open>The memo on the heap (claim C7)\<close>

lemma lookup_append:
  "lookup (h @ cs) a = (if a < length h then lookup h a
                        else if a < length h + length cs then Some (cs ! (a - length h)) else None)"
  by (simp add: lookup_def nth_append)

lemma lookup_update:
  "lookup (h[a := c]) b = (if b < length h then (if a = b then Some c else lookup h b) else None)"
  by (simp add: lookup_def)

lemma entityAt_read:
  "entityAt h a st hp ak cd pl \<Longrightarrow> readEntity h a = Some pl"
  by (simp add: entityAt_def readEntity_def readStats_def readAttack_def readCurrentMax_def)

lemma read_entityAt:
  assumes "readEntity h a = Some pl" and "unshared h a"
  shows "\<exists>st hp ak cd. entityAt h a st hp ak cd pl"
  using assms
  by (auto simp: entityAt_def readEntity_def readStats_def readAttack_def readCurrentMax_def
      unshared_def statsRef_def healthRef_def attackRef_def cooldownRef_def
      split: option.splits Cell.splits bind_splits)

lemma entityAt_bounds:
  "entityAt h a st hp ak cd pl \<Longrightarrow>
     a < length h \<and> st < length h \<and> hp < length h \<and> ak < length h \<and> cd < length h"
  by (auto simp: entityAt_def lookup_def split: if_splits)

lemma entityAt_append:
  "entityAt h a st hp ak cd pl \<Longrightarrow> entityAt (h @ cs) a st hp ak cd pl"
  by (frule entityAt_bounds) (simp add: entityAt_def lookup_append)

lemma structuredClone_entityAt:
  assumes "entityAt h a st hp ak cd pl"
  shows "structuredClone h a =
      Some (length h + 4,
            h @ [CurrentMaxCell (current (health (stats pl))) (maximum (health (stats pl))),
                 CurrentMaxCell (current (a_cooldown (attack (stats pl))))
                                (maximum (a_cooldown (attack (stats pl)))),
                 AttackCell (a_damage (attack (stats pl))) (length h + 1) (a_range (attack (stats pl)))
                            (a_radius (attack (stats pl))) (projectileSpeed (attack (stats pl))),
                 StatsCell (level (stats pl)) (length h) (speed (stats pl)) (radius (stats pl))
                           (length h + 2),
                 EntityCell (uuid pl) (name pl) (length h + 3) (e_x pl) (e_y pl) (face pl)])"
  using assms entityAt_bounds[OF assms]
  by (simp add: entityAt_def structuredClone_def cloneStats_def cloneAttack_def cloneCurrentMax_def
      alloc_def lookup_append)

lemma clone_entityAt:
  assumes "entityAt h a st hp ak cd pl"
  shows "\<exists>h1. structuredClone h a = Some (length h + 4, h1)
     \<and> length h1 = length h + 5 \<and> take (length h) h1 = h
     \<and> entityAt h1 (length h + 4) (length h + 3) (length h) (length h + 2) (length h + 1) pl"
  unfolding structuredClone_entityAt[OF assms]
  by (simp add: entityAt_def lookup_append)

lemma take_update_above: "L \<le> a \<Longrightarrow> take L (h[a := c]) = take L h"
  by simp

lemma entityAt_refs:
  assumes "entityAt h a st hp ak cd pl"
  shows "statsRef h a = Some st" "healthRef h st = Some hp" "attackRef h st = Some ak"
    "cooldownRef h ak = Some cd"
  using assms by (simp_all add: entityAt_def statsRef_def healthRef_def attackRef_def cooldownRef_def)

lemma addAttackRadius_entityAt:
  assumes "entityAt h np st hp ak cd pl"
  shows "\<exists>h'. addAttackRadius v np h = Some h' \<and> length h' = length h
       \<and> (L \<le> st \<and> L \<le> hp \<and> L \<le> ak \<and> L \<le> cd \<longrightarrow> take L h' = take L h)
       \<and> entityAt h' np st hp ak cd
            (stats_update (attack_update (a_radius_update (\<lambda>r. r + v))) pl)"
  using assms entityAt_bounds[OF assms]
  by (auto simp: addAttackRadius_def entityAt_refs[OF assms] entityAt_def lookup_update)

lemma addSpeed_entityAt:
  assumes "entityAt h np st hp ak cd pl"
  shows "\<exists>h'. addSpeed v np h = Some h' \<and> length h' = length h
       \<and> (L \<le> st \<and> L \<le> hp \<and> L \<le> ak \<and> L \<le> cd \<longrightarrow> take L h' = take L h)
       \<and> entityAt h' np st hp ak cd (stats_update (speed_update (\<lambda>r. r + v)) pl)"
  using assms entityAt_bounds[OF assms]
  by (auto simp: addSpeed_def entityAt_refs[OF assms] entityAt_def lookup_update)

lemma addHealthMax_entityAt:
  assumes "entityAt h np st hp ak cd pl"
  shows "\<exists>h'. addHealthMax v np h = Some h' \<and> length h' = length h
       \<and> (L \<le> st \<and> L \<le> hp \<and> L \<le> ak \<and> L \<le> cd \<longrightarrow> take L h' = take L h)
       \<and> entityAt h' np st hp ak cd
            (stats_update (health_update (maximum_update (\<lambda>m. m + v))) pl)"
  using assms entityAt_bounds[OF assms]
  by (auto simp: addHealthMax_def entityAt_refs[OF assms] entityAt_def lookup_update)

lemma addAttackDamage_entityAt:
  assumes "entityAt h np st hp ak cd pl"
  shows "\<exists>h'. addAttackDamage v np h = Some h' \<and> length h' = length h
       \<and> (L \<le> st \<and> L \<le> hp \<and> L \<le> ak \<and> L \<le> cd \<longrightarrow> take L h' = take L h)
       \<and> entityAt h' np st hp ak cd
            (stats_update (attack_update (a_damage_update (\<lambda>m. m + v))) pl)"
  using assms entityAt_bounds[OF assms]
  by (auto simp: addAttackDamage_def entityAt_refs[OF assms] entityAt_def lookup_update)

lemma subCooldownMax_entityAt:
  assumes "entityAt h np st hp ak cd pl"
  shows "\<exists>h'. subCooldownMax v np h = Some h' \<and> length h' = length h
       \<and> (L \<le> st \<and> L \<le> hp \<and> L \<le> ak \<and> L \<le> cd \<longrightarrow> take L h' = take L h)
       \<and> entityAt h' np st hp ak cd
            (stats_update (attack_update (a_cooldown_update (maximum_update (\<lambda>m. m - v)))) pl)"
  using assms entityAt_bounds[OF assms]
  by (auto simp: subCooldownMax_def entityAt_refs[OF assms] entityAt_def lookup_update)

lemma applyUpgradeHeap_entityAt:
  assumes "entityAt h np st hp ak cd pl"
  shows "\<exists>h'. applyUpgradeHeap entry np h = Some h' \<and> length h' = length h
       \<and> (L \<le> st \<and> L \<le> hp \<and> L \<le> ak \<and> L \<le> cd \<longrightarrow> take L h' = take L h)
       \<and> entityAt h' np st hp ak cd (applyUpgrade entry pl)"
proof -
  obtain upgradeId lvl where entry: "entry = (upgradeId, lvl)" by (cases entry) auto
  show ?thesis
    using assms
      addAttackRadius_entityAt[OF assms, of _ L] addSpeed_entityAt[OF assms, of _ L]
      addHealthMax_entityAt[OF assms, of _ L] addAttackDamage_entityAt[OF assms, of _ L]
      subCooldownMax_entityAt[OF assms, of _ L]
    unfolding entry applyUpgradeHeap_def applyUpgrade_def
    by (simp split: option.splits)
qed

lemma applyUpgradesHeap_entityAt:
  assumes "entityAt h np st hp ak cd pl"
  shows "\<exists>h'. applyUpgradesHeap ups np h = Some h' \<and> length h' = length h
       \<and> (L \<le> st \<and> L \<le> hp \<and> L \<le> ak \<and> L \<le> cd \<longrightarrow> take L h' = take L h)
       \<and> entityAt h' np st hp ak cd (playerWithUpgrades pl ups)"
  using assms
proof (induction ups arbitrary: h pl)
  case Nil
  then show ?case by (simp add: playerWithUpgrades_def)
next
  case (Cons entry ups)
  from applyUpgradeHeap_entityAt[OF Cons.prems, of entry L] obtain h1 where
    1: "applyUpgradeHeap entry np h = Some h1" "length h1 = length h"
       "L \<le> st \<and> L \<le> hp \<and> L \<le> ak \<and> L \<le> cd \<longrightarrow> take L h1 = take L h"
       "entityAt h1 np st hp ak cd (applyUpgrade entry pl)"
    by blast
  from Cons.IH[OF 1(4)] obtain h2 where
    2: "applyUpgradesHeap ups np h1 = Some h2" "length h2 = length h1"
       "L \<le> st \<and> L \<le> hp \<and> L \<le> ak \<and> L \<le> cd \<longrightarrow> take L h2 = take L h1"
       "entityAt h2 np st hp ak cd (playerWithUpgrades (applyUpgrade entry pl) ups)"
    by blast
  show ?case
    using 1 2 by (auto simp: playerWithUpgrades_def)
qed

lemma entityAt_extend:
  assumes "entityAt h a st hp ak cd pl" and "take (length h) h' = h"
  shows "entityAt h' a st hp ak cd pl"
proof -
  have "h' = h @ drop (length h) h'"
    using assms(2) by (metis append_take_drop_id)
  then show ?thesis
    using entityAt_append[OF assms(1), of "drop (length h) h'"] by simp
qed

lemma playerWithUpgradesHeap_entityAt:
  assumes "entityAt h a st hp ak cd pl"
  shows "\<exists>h2. playerWithUpgradesHeap h a ups = Some (length h + 4, h2)
     \<and> length h2 = length h + 5 \<and> take (length h) h2 = h
     \<and> entityAt h2 (length h + 4) (length h + 3) (length h) (length h + 2) (length h + 1)
          (playerWithUpgrades pl ups)
     \<and> entityAt h2 a st hp ak cd pl"
proof -
  from clone_entityAt[OF assms] obtain h1 where
    1: "structuredClone h a = Some (length h + 4, h1)" "length h1 = length h + 5"
       "take (length h) h1 = h"
       "entityAt h1 (length h + 4) (length h + 3) (length h) (length h + 2) (length h + 1) pl"
    by blast
  from applyUpgradesHeap_entityAt[OF 1(4), of ups "length h"] obtain h2 where
    2: "applyUpgradesHeap ups (length h + 4) h1 = Some h2" "length h2 = length h1"
       "take (length h) h2 = take (length h) h1"
       "entityAt h2 (length h + 4) (length h + 3) (length h) (length h + 2) (length h + 1)
          (playerWithUpgrades pl ups)"
    by auto
  have 3: "take (length h) h2 = h" using 1(3) 2(3) by simp
  have "playerWithUpgradesHeap h a ups = Some (length h + 4, h2)"
    by (simp add: playerWithUpgradesHeap_def 1(1) 2(1))
  with 1 2 3 entityAt_extend[OF assms 3] show ?thesis by simp
qed

text \<open>
  Claim C7. Deriving the effective player from the stored player and the upgrade levels
  is pure and can be repeated. On a heap that holds the stored player (its health and
  cooldown being two objects) the derivation returns a new player whose value is
  \<open>playerWithUpgrades\<close> of the stored value and the levels, a function of these two
  alone; every object the heap held before is left as it was, the stored player with
  its stats among them; and deriving again from the same stored player and the same
  levels, on the heap the first derivation left, returns the same value and leaves the
  first result as it was: nothing accumulates from one derivation to the next.
\<close>

theorem derived_stats_are_pure:
  assumes "readEntity h a = Some pl" and "unshared h a"
  shows "\<exists>np h1 np' h2.
     playerWithUpgradesHeap h a ups = Some (np, h1)
     \<and> readEntity h1 np = Some (playerWithUpgrades pl ups)
     \<and> take (length h) h1 = h
     \<and> readEntity h1 a = Some pl
     \<and> playerWithUpgradesHeap h1 a ups = Some (np', h2)
     \<and> readEntity h2 np' = Some (playerWithUpgrades pl ups)
     \<and> take (length h1) h2 = h1
     \<and> readEntity h2 a = Some pl
     \<and> readEntity h2 np = Some (playerWithUpgrades pl ups)"
proof -
  from read_entityAt[OF assms] obtain st hp ak cd where base: "entityAt h a st hp ak cd pl"
    by blast
  from playerWithUpgradesHeap_entityAt[OF base, of ups] obtain h1 where
    1: "playerWithUpgradesHeap h a ups = Some (length h + 4, h1)"
       "length h1 = length h + 5" "take (length h) h1 = h"
       "entityAt h1 (length h + 4) (length h + 3) (length h) (length h + 2) (length h + 1)
          (playerWithUpgrades pl ups)"
       "entityAt h1 a st hp ak cd pl"
    by blast
  from playerWithUpgradesHeap_entityAt[OF 1(5), of ups] obtain h2 where
    2: "playerWithUpgradesHeap h1 a ups = Some (length h1 + 4, h2)"
       "take (length h1) h2 = h1"
       "entityAt h2 (length h1 + 4) (length h1 + 3) (length h1) (length h1 + 2) (length h1 + 1)
          (playerWithUpgrades pl ups)"
       "entityAt h2 a st hp ak cd pl"
    by blast
  note first = entityAt_extend[OF 1(4) 2(2)]
  show ?thesis
    using 1(1) entityAt_read[OF 1(4)] 1(3) entityAt_read[OF 1(5)]
      2(1) entityAt_read[OF 2(3)] 2(2) entityAt_read[OF 2(4)] entityAt_read[OF first]
    by blast
qed

lemma exampleHeap_base:
  "readEntity exampleHeap 4 = Some (player (initialState ''player''))" "unshared exampleHeap 4"
  by (simp_all add: exampleHeap_def readEntity_def readStats_def readAttack_def readCurrentMax_def
      lookup_def initialState_def entity_def unshared_def statsRef_def healthRef_def attackRef_def
      cooldownRef_def)

lemma exampleHeap_run:
  "playerWithUpgradesHeap exampleHeap 4 exampleUpgrades =
     Some (9, exampleHeap @
        [CurrentMaxCell 10 30, CurrentMaxCell 0 100, AttackCell 1 6 200 16 2,
         StatsCell 1 5 1 48 7, EntityCell ''player'' ''player'' 8 0 0 FaceRight])"
  by (simp add: playerWithUpgradesHeap_def structuredClone_def cloneStats_def cloneAttack_def
      cloneCurrentMax_def alloc_def exampleHeap_def exampleUpgrades_def lookup_def
      applyUpgradeHeap_def getUpgradeById_def UPGRADES_def valueOf_def addHealthMax_def
      subCooldownMax_def statsRef_def healthRef_def attackRef_def cooldownRef_def)

text \<open>
  The witness: the player of the first render with two levels of health and one of
  attack speed. The derived player has the health maximum 30 and the cooldown maximum
  100, in new objects at the end of the heap, and the stored player keeps 10 and 105.
\<close>

theorem derived_stats_are_pure_witness:
  "readEntity exampleHeap 4 = Some (player (initialState ''player''))
   \<and> unshared exampleHeap 4
   \<and> (\<exists>np h1 np' h2.
         playerWithUpgradesHeap exampleHeap 4 exampleUpgrades = Some (np, h1)
         \<and> readEntity h1 np = Some (playerWithUpgrades (player (initialState ''player'')) exampleUpgrades)
         \<and> take (length exampleHeap) h1 = exampleHeap
         \<and> readEntity h1 4 = Some (player (initialState ''player''))
         \<and> playerWithUpgradesHeap h1 4 exampleUpgrades = Some (np', h2)
         \<and> readEntity h2 np' = Some (playerWithUpgrades (player (initialState ''player'')) exampleUpgrades)
         \<and> take (length h1) h2 = h1
         \<and> readEntity h2 4 = Some (player (initialState ''player''))
         \<and> readEntity h2 np = Some (playerWithUpgrades (player (initialState ''player'')) exampleUpgrades))
   \<and> playerWithUpgradesHeap exampleHeap 4 exampleUpgrades =
       Some (9, exampleHeap @
          [CurrentMaxCell 10 30, CurrentMaxCell 0 100, AttackCell 1 6 200 16 2,
           StatsCell 1 5 1 48 7, EntityCell ''player'' ''player'' 8 0 0 FaceRight])
   \<and> maximum (health (stats (playerWithUpgrades (player (initialState ''player'')) exampleUpgrades))) = 30
   \<and> maximum (a_cooldown (attack (stats
         (playerWithUpgrades (player (initialState ''player'')) exampleUpgrades)))) = 100
   \<and> maximum (health (stats (player (initialState ''player'')))) = 10
   \<and> maximum (a_cooldown (attack (stats (player (initialState ''player''))))) = 105"
proof (intro conjI)
  show "readEntity exampleHeap 4 = Some (player (initialState ''player''))"
    by (rule exampleHeap_base(1))
  show "unshared exampleHeap 4"
    by (rule exampleHeap_base(2))
  show "\<exists>np h1 np' h2.
         playerWithUpgradesHeap exampleHeap 4 exampleUpgrades = Some (np, h1)
         \<and> readEntity h1 np = Some (playerWithUpgrades (player (initialState ''player'')) exampleUpgrades)
         \<and> take (length exampleHeap) h1 = exampleHeap
         \<and> readEntity h1 4 = Some (player (initialState ''player''))
         \<and> playerWithUpgradesHeap h1 4 exampleUpgrades = Some (np', h2)
         \<and> readEntity h2 np' = Some (playerWithUpgrades (player (initialState ''player'')) exampleUpgrades)
         \<and> take (length h1) h2 = h1
         \<and> readEntity h2 4 = Some (player (initialState ''player''))
         \<and> readEntity h2 np = Some (playerWithUpgrades (player (initialState ''player'')) exampleUpgrades)"
    by (rule derived_stats_are_pure[OF exampleHeap_base])
  show "playerWithUpgradesHeap exampleHeap 4 exampleUpgrades =
       Some (9, exampleHeap @
          [CurrentMaxCell 10 30, CurrentMaxCell 0 100, AttackCell 1 6 200 16 2,
           StatsCell 1 5 1 48 7, EntityCell ''player'' ''player'' 8 0 0 FaceRight])"
    by (rule exampleHeap_run)
  show "maximum (health (stats (playerWithUpgrades (player (initialState ''player'')) exampleUpgrades))) = 30"
    by (simp add: playerWithUpgrades_health_max exampleUpgrades_def initialState_def entity_def)
  show "maximum (a_cooldown (attack (stats
         (playerWithUpgrades (player (initialState ''player'')) exampleUpgrades)))) = 100"
    by (simp add: playerWithUpgrades_cooldown_max exampleUpgrades_def initialState_def entity_def)
  show "maximum (health (stats (player (initialState ''player'')))) = 10"
    by (simp add: initialState_def entity_def)
  show "maximum (a_cooldown (attack (stats (player (initialState ''player''))))) = 105"
    by (simp add: initialState_def entity_def)
qed

end
